(* ===== verification/Prelude.thy ===== *)
theory Prelude
  imports Complex_Main "HOL-Library.Word" "HOL-Library.Char_ord" "HOL-Library.List_Lexorder"
begin

text \<open>
  Shared vocabulary of the development: the collections of facts the component proofs draw
  on, ordered association lists (the shape of a bbolt bucket and of a Go map once its keys
  are sorted), the sequencing of fallible steps, and generic lemmas on lists and words.
\<close>

named_theorems bolt_simps \<open>rewrite rules for reading a database after a write\<close>
named_theorems step_defs \<open>definitions of the transaction bodies\<close>

type_synonym bytes = string
type_synonym u64 = "64 word"

section \<open>Fallible steps\<close>

text \<open>
  A Go function that returns \<open>(T, error)\<close> is a value of \<open>error + T\<close>. \<open>andThen\<close> is the
  idiom \<open>if err != nil { return err }\<close> between two calls.
\<close>

definition andThen :: "'e + 'a \<Rightarrow> ('a \<Rightarrow> 'e + 'b) \<Rightarrow> 'e + 'b" where
  "andThen r k = (case r of Inl e \<Rightarrow> Inl e | Inr a \<Rightarrow> k a)"

lemma andThen_simps [simp]:
  "andThen (Inl e) k = Inl e"
  "andThen (Inr a) k = k a"
  by (simp_all add: andThen_def)

lemma andThen_Inr [simp]:
  "(andThen r k = Inr b) = (\<exists>a. r = Inr a \<and> k a = Inr b)"
  by (cases r) simp_all

lemma andThen_Inl:
  "(andThen r k = Inl e) = (r = Inl e \<or> (\<exists>a. r = Inr a \<and> k a = Inl e))"
  by (cases r) simp_all

definition guard :: "bool \<Rightarrow> 'e \<Rightarrow> 'e + unit" where
  "guard ok e = (if ok then Inr () else Inl e)"

lemma guard_simps [simp]:
  "(guard ok e = Inr u) = ok"
  "(guard ok e = Inl e') = (\<not> ok \<and> e' = e)"
  "guard True e = Inr ()"
  "guard False e = Inl e"
  by (auto simp: guard_def)

text \<open>Loops that stop at the first error: \<open>for_each\<close> only checks, \<open>for_state\<close> threads a state.\<close>

fun for_each :: "('a \<Rightarrow> 'e + unit) \<Rightarrow> 'a list \<Rightarrow> 'e + unit" where
  "for_each f [] = Inr ()"
| "for_each f (x # xs) = andThen (f x) (\<lambda>_. for_each f xs)"

fun for_state :: "('a \<Rightarrow> 's \<Rightarrow> 'e + 's) \<Rightarrow> 'a list \<Rightarrow> 's \<Rightarrow> 'e + 's" where
  "for_state f [] s = Inr s"
| "for_state f (x # xs) s = andThen (f x s) (for_state f xs)"

lemma for_each_Inr [simp]: "(for_each f xs = Inr u) = (\<forall>x \<in> set xs. f x = Inr ())"
  by (induction xs) auto

lemma for_state_append: "for_state f (xs @ ys) s = andThen (for_state f xs s) (for_state f ys)"
  by (induction xs arbitrary: s) (auto simp: andThen_def split: sum.splits)

lemma for_state_invariant:
  assumes "for_state f xs s = Inr s'" "I s" "\<And>x s s'. x \<in> set xs \<Longrightarrow> I s \<Longrightarrow> f x s = Inr s' \<Longrightarrow> I s'"
  shows "I s'"
  using assms by (induction xs arbitrary: s) auto

section \<open>Ordered association lists\<close>

definition akeys :: "('k \<times> 'v) list \<Rightarrow> 'k list" where
  "akeys m = map fst m"

definition ordered :: "('k::linorder \<times> 'v) list \<Rightarrow> bool" where
  "ordered m = sorted_wrt (<) (akeys m)"

fun aput :: "'k::linorder \<Rightarrow> 'v \<Rightarrow> ('k \<times> 'v) list \<Rightarrow> ('k \<times> 'v) list" where
  "aput k v [] = [(k, v)]"
| "aput k v ((k', v') # m) =
     (if k < k' then (k, v) # (k', v') # m
      else if k = k' then (k, v) # m
      else (k', v') # aput k v m)"

definition adel :: "'k \<Rightarrow> ('k \<times> 'v) list \<Rightarrow> ('k \<times> 'v) list" where
  "adel k m = filter (\<lambda>kv. fst kv \<noteq> k) m"

abbreviation aget :: "('k \<times> 'v) list \<Rightarrow> 'k \<Rightarrow> 'v option" where
  "aget m k \<equiv> map_of m k"

lemma akeys_simps [simp]:
  "akeys [] = []"
  "akeys ((k, v) # m) = k # akeys m"
  by (simp_all add: akeys_def)

lemma ordered_Nil [simp, intro]: "ordered []"
  by (simp add: ordered_def)

lemma ordered_Cons [simp]:
  "ordered ((k, v) # m) = ((\<forall>k' \<in> set (akeys m). k < k') \<and> ordered m)"
  by (simp add: ordered_def)

lemma aget_aput [simp]: "aget (aput k v m) = (aget m)(k \<mapsto> v)"
  by (induction k v m rule: aput.induct) (auto simp: fun_eq_iff)

lemma aget_adel [simp]: "aget (adel k m) = (aget m)(k := None)"
  by (induction m) (auto simp: adel_def fun_eq_iff)

lemma list_all_aput: "list_all P m \<Longrightarrow> P (k, v) \<Longrightarrow> list_all P (aput k v m)"
  by (induction k v m rule: aput.induct) auto

lemma set_aput: "set (aput k v m) \<subseteq> insert (k, v) (set m)"
  by (induction k v m rule: aput.induct) auto

lemma in_set_aput: "p \<in> set (aput k v m) \<Longrightarrow> p = (k, v) \<or> p \<in> set m"
  using set_aput [of k v m] by blast

lemma set_akeys: "set (akeys m) = dom (aget m)"
  by (simp add: akeys_def dom_map_of_conv_image_fst)

lemma set_akeys_aput [simp]: "set (akeys (aput k v m)) = insert k (set (akeys m))"
  by (auto simp: set_akeys split: if_splits)

lemma set_akeys_adel [simp]: "set (akeys (adel k m)) = set (akeys m) - {k}"
  by (auto simp: set_akeys split: if_splits)

lemma ordered_aput [simp, intro]: "ordered m \<Longrightarrow> ordered (aput k v m)"
  by (induction k v m rule: aput.induct) auto

lemma ordered_adel [simp, intro]: "ordered m \<Longrightarrow> ordered (adel k m)"
proof (induction m)
  case (Cons kv m)
  obtain k' v' where "kv = (k', v')" by (cases kv)
  with Cons show ?case by (auto simp: adel_def akeys_def)
qed (simp add: adel_def)

lemma ordered_distinct: "ordered m \<Longrightarrow> distinct (akeys m)"
  by (simp add: ordered_def strict_sorted_iff)

lemma aget_Cons_less: "ordered ((k, v) # m) \<Longrightarrow> k' < k \<Longrightarrow> aget m k' = None"
  by (force simp: set_akeys dom_def)

text \<open>Two ordered lists with the same lookups are equal: an ordered list is a canonical map.\<close>

lemma ordered_aget_eqI:
  "ordered m \<Longrightarrow> ordered n \<Longrightarrow> aget m = aget n \<Longrightarrow> m = n"
proof (induction m arbitrary: n)
  case Nil
  then show ?case by (cases n) (auto simp: fun_eq_iff split: if_splits)
next
  case (Cons kv m)
  obtain k v where kv: "kv = (k, v)" by (cases kv)
  show ?case
  proof (cases n)
    case Nil
    with Cons.prems kv show ?thesis by (auto simp: fun_eq_iff split: if_splits)
  next
    case (Cons kv' n')
    obtain k' v' where kv': "kv' = (k', v')" by (cases kv')
    note eq = Cons.prems(3)
    have k: "k = k'"
    proof (rule ccontr)
      assume "k \<noteq> k'"
      then consider "k < k'" | "k' < k" by fastforce
      then show False
      proof cases
        case 1
        then have "aget n k = None"
          using Cons.prems(2) Cons kv' aget_Cons_less [of k' v' n' k] by simp
        with eq kv show False by (auto dest: fun_cong [of _ _ k])
      next
        case 2
        then have "aget (kv # m) k' = None"
          using Cons.prems(1) kv aget_Cons_less [of k v m k'] by simp
        with eq Cons kv' show False by (auto dest: fun_cong [of _ _ k'])
      qed
    qed
    have v: "v = v'"
      using eq Cons kv kv' k by (auto simp: fun_eq_iff dest: spec [of _ k])
    have "aget m = aget n'"
    proof
      fix x
      show "aget m x = aget n' x"
      proof (cases "x = k")
        case True
        have "k \<notin> set (akeys m)" "k \<notin> set (akeys n')"
          using Cons.prems(1,2) Cons kv kv' k by auto
        with True show ?thesis by (simp add: set_akeys domIff)
      next
        case False
        then show ?thesis using fun_cong [OF eq, of x] Cons kv kv' k by simp
      qed
    qed
    with Cons.IH [of n'] Cons.prems Cons kv kv' k v show ?thesis by simp
  qed
qed

lemma aput_same: "ordered m \<Longrightarrow> aget m k = Some v \<Longrightarrow> aput k v m = m"
  by (rule ordered_aget_eqI) auto

lemma adel_absent: "aget m k = None \<Longrightarrow> adel k m = m"
  by (induction m) (auto simp: adel_def split: if_splits)

section \<open>Lists and words\<close>

lemma u64_less_Suc: "(a::u64) < b \<Longrightarrow> unat (a + 1) = Suc (unat a)"
  by (unat_arith)

lemma u64_Suc: 
  fixes h :: u64 assumes "h \<noteq> - 1" 
  shows "unat (h + 1) = Suc (unat h)" "h < h + 1" "n \<le> h + 1 \<Longrightarrow> n \<noteq> h + 1 \<Longrightarrow> n \<le> h"
proof -
  have "h + 1 \<noteq> 0" using assms by (metis add.inverse_unique add.commute)
  then show 1: "unat (h + 1) = Suc (unat h)" using unatSuc [of h] by (simp add: add.commute)
  then show "h < h + 1" by (simp add: word_less_nat_alt)
  show "n \<le> h + 1 \<Longrightarrow> n \<noteq> h + 1 \<Longrightarrow> n \<le> h"
  proof -
    assume "n \<le> h + 1" "n \<noteq> h + 1"
    then have "unat n < unat (h + 1)" by (simp add: word_less_nat_alt [symmetric])
    then show ?thesis using 1 by (simp add: word_le_nat_alt)
  qed
qed

text \<open>The sequences of \<open>for seq := from; seq <= through; seq++\<close>.\<close>

definition seq_range :: "u64 \<Rightarrow> u64 \<Rightarrow> u64 list" where
  "seq_range a b = map of_nat [unat a..<Suc (unat b)]"

lemma set_seq_range: "set (seq_range a b) = {n. a \<le> n \<and> n \<le> b}"
proof (rule set_eqI)
  fix n :: u64
  have bound: "unat b < 2 ^ LENGTH(64)" by (rule unsigned_less)
  have "n \<in> set (seq_range a b) \<longleftrightarrow> (\<exists>j. unat a \<le> j \<and> j \<le> unat b \<and> n = of_nat j)"
    by (auto simp: seq_range_def image_iff)
  also have "\<dots> \<longleftrightarrow> unat a \<le> unat n \<and> unat n \<le> unat b"
  proof
    assume "\<exists>j. unat a \<le> j \<and> j \<le> unat b \<and> n = of_nat j"
    then obtain j where j: "unat a \<le> j" "j \<le> unat b" "n = of_nat j" by blast
    then have "unat n = j" using bound by (simp add: unat_of_nat)
    with j show "unat a \<le> unat n \<and> unat n \<le> unat b" by simp
  next
    assume "unat a \<le> unat n \<and> unat n \<le> unat b"
    then show "\<exists>j. unat a \<le> j \<and> j \<le> unat b \<and> n = of_nat j"
      by (intro exI [of _ "unat n"]) simp
  qed
  finally show "n \<in> set (seq_range a b) \<longleftrightarrow> n \<in> {n. a \<le> n \<and> n \<le> b}" by (simp add: word_le_nat_alt)
qed

end
