(* ===== verification/GoBase.thy ===== *)
theory GoBase
  imports Prelude
begin

text \<open>
  What the source uses of the Go language and its standard library: byte strings and the
  functions of package \<open>strings\<close> on them, big-endian 64-bit keys (\<open>sequenceKey\<close> and
  \<open>readUint\<close>), instants of package \<open>time\<close>, decimal text, the error values of the package and
  the outcome of \<open>ctx.Err()\<close>. A Go string is its list of bytes.
\<close>

section \<open>Errors and contexts\<close>

text \<open>
  The sentinel errors the callers distinguish with \<open>errors.Is\<close>; \<open>ErrMsg\<close> is any other
  error value (created with \<open>errors.New\<close> or returned by a library), \<open>ErrPanic\<close> a run-time
  panic such as a call on a nil bucket.
\<close>

datatype go_error =
    ErrBillingConflict
  | ErrBillingCursor
  | ErrBillingUnavailable
  | ErrBillingArchiveUnavailable
  | ErrDuplicateEvent
  | ErrLifecycleConflict
  | ErrOperationNotFound
  | CtxCanceled
  | CtxDeadlineExceeded
  | ErrMsg string
  | ErrPanic

text \<open>
  A context is consulted several times during a call and may end between two consultations:
  \<open>c n\<close> is what the \<open>n\<close>-th consultation of \<open>ctx.Err()\<close> in the call returns.
\<close>

type_synonym ctx = "nat \<Rightarrow> go_error option"

definition background :: ctx where
  "background = (\<lambda>_. None)"

definition ctx_check :: "ctx \<Rightarrow> nat \<Rightarrow> go_error + unit" where
  "ctx_check c n = (case c n of None \<Rightarrow> Inr () | Some e \<Rightarrow> Inl e)"

lemma ctx_check_simps [simp]:
  "ctx_check background n = Inr ()"
  "(ctx_check c n = Inr u) = (c n = None)"
  "(ctx_check c n = Inl e) = (c n = Some e)"
  by (auto simp: ctx_check_def background_def split: option.splits)

section \<open>Package strings\<close>

definition starts_with :: "bytes \<Rightarrow> bytes \<Rightarrow> bool" where
  "starts_with s p = (take (length p) s = p)"

fun contains :: "bytes \<Rightarrow> bytes \<Rightarrow> bool" where
  "contains [] p = (p = [])"
| "contains (c # s) p = (starts_with (c # s) p \<or> contains s p)"

definition bs :: "nat list \<Rightarrow> bytes" where
  "bs ns = map char_of ns"

text \<open>
  The UTF-8 encodings of the runes for which \<open>unicode.IsSpace\<close> holds. \<open>TrimSpace\<close> removes
  them from both ends (the strings are valid UTF-8, so a suffix that is one of these byte
  sequences is that rune).
\<close>

definition space_runes :: "bytes list" where
  "space_runes =
     map bs ([[9], [10], [11], [12], [13], [32], [0xC2, 0x85], [0xC2, 0xA0], [0xE1, 0x9A, 0x80],
       [0xE2, 0x80, 0xA8], [0xE2, 0x80, 0xA9], [0xE2, 0x80, 0xAF], [0xE2, 0x81, 0x9F],
       [0xE3, 0x80, 0x80]] @ map (\<lambda>n. [0xE2, 0x80, n]) [0x80..<0x8B])"

fun trim_front :: "bytes list \<Rightarrow> bytes \<Rightarrow> bytes" where
  "trim_front rs [] = []"
| "trim_front rs (c # s) =
     (case find (\<lambda>r. r \<noteq> [] \<and> starts_with (c # s) r) rs of
        None \<Rightarrow> c # s
      | Some r \<Rightarrow> trim_front rs (drop (length r - 1) s))"

definition trim_space :: "bytes \<Rightarrow> bytes" where
  "trim_space s =
     rev (trim_front (map rev space_runes) (rev (trim_front space_runes s)))"

text \<open>
  \<open>strings.ToLower\<close> is only ever used for comparisons with ASCII text. Besides the ASCII
  letters, the two runes whose lower case is ASCII are the Kelvin sign (to \<open>k\<close>) and the
  dotted capital I (to \<open>i\<close>); the other runes keep a non-ASCII lower case and are left as
  they are.
\<close>

definition ascii_lower :: "char \<Rightarrow> char" where
  "ascii_lower c =
     (let n = of_char c :: nat
      in if 65 \<le> n \<and> n \<le> 90
         then (case c of Char b0 b1 b2 b3 b4 b5 b6 b7 \<Rightarrow> Char b0 b1 b2 b3 b4 True b6 b7)
         else c)"

fun to_lower :: "bytes \<Rightarrow> bytes" where
  "to_lower [] = []"
| "to_lower (c # s) =
     (if starts_with (c # s) (bs [0xE2, 0x84, 0xAA]) then CHR ''k'' # to_lower (drop 2 s)
      else if starts_with (c # s) (bs [0xC4, 0xB0]) then CHR ''i'' # to_lower (drop 1 s)
      else ascii_lower c # to_lower s)"

lemma starts_with_bs_byte: "starts_with (c # s) (bs (n # ns)) \<Longrightarrow> of_char c = n mod 256"
  by (auto simp: starts_with_def bs_def)

lemma to_lower_ascii:
  "of_char c < (128 :: nat) \<Longrightarrow> to_lower (c # s) = ascii_lower c # to_lower s"
  by (auto dest: starts_with_bs_byte)

text \<open>A string with a visible ASCII character is not blank: no space rune has such a byte.\<close>

definition visible :: "char \<Rightarrow> bool" where
  "visible c = (let n = of_char c :: nat in 32 < n \<and> n < 128)"

lemma space_runes_invisible: "r \<in> set space_runes \<Longrightarrow> c \<in> set r \<Longrightarrow> \<not> visible c"
  by (auto simp: space_runes_def bs_def visible_def)

lemma trim_front_keeps:
  "\<forall>r \<in> set rs. \<forall>c \<in> set r. \<not> P c \<Longrightarrow> c \<in> set s \<Longrightarrow> P c \<Longrightarrow> c \<in> set (trim_front rs s)"
proof (induction rs s rule: trim_front.induct)
  case (2 rs d s)
  show ?case
  proof (cases "find (\<lambda>r. r \<noteq> [] \<and> starts_with (d # s) r) rs")
    case None
    with 2 show ?thesis by simp
  next
    case (Some r)
    then have r: "r \<in> set rs" "r \<noteq> []" "starts_with (d # s) r"
      by (auto simp: find_Some_iff)
    have split: "d # s = r @ drop (length r) (d # s)"
      using r(3) by (metis append_take_drop_id starts_with_def)
    have drop: "drop (length r) (d # s) = drop (length r - 1) s"
      using r(2) by (cases r) auto
    have "c \<in> set r \<or> c \<in> set (drop (length r - 1) s)"
      using "2.prems"(2) split drop by (metis Un_iff set_append)
    moreover have "c \<notin> set r" using r(1) "2.prems"(1,3) by blast
    ultimately have "c \<in> set (drop (length r - 1) s)" by blast
    from "2.IH" [OF Some "2.prems"(1) this "2.prems"(3)] show ?thesis using Some by simp
  qed
qed simp

lemma trim_space_keeps: "c \<in> set s \<Longrightarrow> visible c \<Longrightarrow> c \<in> set (trim_space s)"
proof -
  assume c: "c \<in> set s" "visible c"
  have "c \<in> set (trim_front space_runes s)"
    using c by (intro trim_front_keeps [where P = visible]) (auto dest: space_runes_invisible)
  then have "c \<in> set (rev (trim_front space_runes s))" by simp
  then have "c \<in> set (trim_front (map rev space_runes) (rev (trim_front space_runes s)))"
    using c(2) by (intro trim_front_keeps [where P = visible]) (auto dest: space_runes_invisible)
  then show ?thesis by (simp add: trim_space_def)
qed

lemma trim_front_visible: "visible c \<Longrightarrow> \<forall>r \<in> set rs. \<forall>c \<in> set r. \<not> visible c \<Longrightarrow> trim_front rs (c # s) = c # s"
proof -
  assume v: "visible c" and rs: "\<forall>r \<in> set rs. \<forall>c \<in> set r. \<not> visible c"
  have "find (\<lambda>r. r \<noteq> [] \<and> starts_with (c # s) r) rs = None"
    unfolding find_None_iff
  proof
    assume "\<exists>r. r \<in> set rs \<and> r \<noteq> [] \<and> starts_with (c # s) r"
    then obtain r where r: "r \<in> set rs" "r \<noteq> []" "starts_with (c # s) r" by blast
    then obtain d t where "r = d # t" by (meson list.exhaust)
    with r(3) have "c \<in> set r" by (simp add: starts_with_def)
    with r(1) v rs show False by blast
  qed
  then show ?thesis by simp
qed

lemma trim_front_all_visible:
  "list_all visible s \<Longrightarrow> \<forall>r \<in> set rs. \<forall>c \<in> set r. \<not> visible c \<Longrightarrow> trim_front rs s = s"
proof (cases s)
  case (Cons c t)
  assume "list_all visible s" "\<forall>r \<in> set rs. \<forall>c \<in> set r. \<not> visible c"
  then show ?thesis unfolding Cons by (intro trim_front_visible) auto
qed simp

lemma space_runes_front: "\<forall>r \<in> set space_runes. \<forall>c \<in> set r. \<not> visible c"
  and space_runes_back: "\<forall>r \<in> set (map rev space_runes). \<forall>c \<in> set r. \<not> visible c"
  using space_runes_invisible by auto

lemma trim_space_visible: "list_all visible s \<Longrightarrow> trim_space s = s"
  using trim_front_all_visible [OF _ space_runes_front, of s] trim_front_all_visible [OF _ space_runes_back, of "rev s"]
  by (simp add: trim_space_def)

lemma newline_found:
  "find (\<lambda>r. r \<noteq> [] \<and> starts_with (CHR 0x0A # s) r) (map rev space_runes) = Some [CHR 0x0A]"
  "find (\<lambda>r. r \<noteq> [] \<and> starts_with (CHR 0x0A # s) r) space_runes = Some [CHR 0x0A]"
  by (simp_all add: space_runes_def bs_def starts_with_def char_of_eq_iff eq_commute [of "CHR 0x0A"])

lemma newline_rune: "trim_front (map rev space_runes) (CHR 0x0A # s) = trim_front (map rev space_runes) s"
  by (simp add: newline_found)

lemma trim_space_newline:
  assumes "list_all visible s" shows "trim_space (s @ [CHR 0x0A]) = s"
proof (cases s)
  case Nil
  then show ?thesis by (simp add: trim_space_def newline_found)
next
  case (Cons c t)
  then have "trim_front space_runes (s @ [CHR 0x0A]) = s @ [CHR 0x0A]"
    using assms trim_front_visible [OF _ space_runes_front, of c "t @ [CHR 0x0A]"] by simp
  then show ?thesis
    using assms trim_front_all_visible [OF _ space_runes_back, of "rev s"] by (simp add: trim_space_def newline_rune del: trim_front.simps)
qed

definition replace_char :: "char \<Rightarrow> char \<Rightarrow> bytes \<Rightarrow> bytes" where
  "replace_char a b = map (\<lambda>c. if c = a then b else c)"

text \<open>\<open>strings.SplitN(s, " ", 2)\<close>: at most one cut, at the first separator.\<close>

fun cut_at :: "char \<Rightarrow> bytes \<Rightarrow> bytes \<times> bytes option" where
  "cut_at a [] = ([], None)"
| "cut_at a (c # s) =
     (if c = a then ([], Some s) else (case cut_at a s of (l, r) \<Rightarrow> (c # l, r)))"

fun split_on :: "char \<Rightarrow> bytes \<Rightarrow> bytes list" where
  "split_on a [] = [[]]"
| "split_on a (c # s) =
     (if c = a then [] # split_on a s
      else (case split_on a s of [] \<Rightarrow> [[c]] | p # ps \<Rightarrow> (c # p) # ps))"

section \<open>Decimal and hexadecimal text\<close>

fun dec_nat :: "nat \<Rightarrow> bytes" where
  "dec_nat n = (if n < 10 then [char_of (48 + n)] else dec_nat (n div 10) @ [char_of (48 + n mod 10)])"

declare dec_nat.simps [simp del]

definition dec_int :: "int \<Rightarrow> bytes" where
  "dec_int i = (if i < 0 then CHR ''-'' # dec_nat (nat (- i)) else dec_nat (nat i))"

definition is_digit :: "char \<Rightarrow> bool" where
  "is_digit c = (let n = of_char c :: nat in 48 \<le> n \<and> n \<le> 57)"

definition is_lower_hex :: "char \<Rightarrow> bool" where
  "is_lower_hex c = (let n = of_char c :: nat in (48 \<le> n \<and> n \<le> 57) \<or> (97 \<le> n \<and> n \<le> 102))"

section \<open>Big-endian keys\<close>

text \<open>\<open>binary.BigEndian.PutUint64\<close>: the \<open>k\<close> low base-256 digits of \<open>n\<close>, most significant first.\<close>

fun big_endian :: "nat \<Rightarrow> nat \<Rightarrow> bytes" where
  "big_endian 0 n = []"
| "big_endian (Suc k) n = char_of (n div 256 ^ k mod 256) # big_endian k n"

definition from_big_endian :: "bytes \<Rightarrow> nat" where
  "from_big_endian b = foldl (\<lambda>a c. a * 256 + of_char c) 0 b"

definition sequence_key :: "u64 \<Rightarrow> bytes" where
  "sequence_key w = big_endian 8 (unat w)"

definition key_uint :: "bytes \<Rightarrow> u64" where
  "key_uint b = (if length b \<noteq> 8 then 0 else of_nat (from_big_endian b))"

lemma of_char_char_of [simp]: "of_char (char_of n :: char) = (n mod 256 :: nat)"
  by simp

lemma length_big_endian [simp]: "length (big_endian k n) = k"
  by (induction k) simp_all

lemma length_sequence_key [simp]: "length (sequence_key w) = 8"
  by (simp add: sequence_key_def)

lemma foldl_big_endian:
  "foldl (\<lambda>a c. a * 256 + of_char c) a (big_endian k n) = a * 256 ^ k + n mod 256 ^ k"
proof (induction k arbitrary: a)
  case (Suc k)
  have "n mod 256 ^ Suc k = (n div 256 ^ k mod 256) * 256 ^ k + n mod 256 ^ k"
    by (metis mod_mult2_eq mult.commute power_Suc2)
  with Suc show ?case by (simp add: algebra_simps)
qed simp

lemma from_big_endian_big_endian: "from_big_endian (big_endian k n) = n mod 256 ^ k"
  by (simp add: from_big_endian_def foldl_big_endian)

lemma unat_less_256: "unat (w :: u64) < 256 ^ 8"
proof -
  have "unat w < 2 ^ LENGTH(64)" by (rule unsigned_less)
  then show ?thesis by simp
qed

lemma key_uint_sequence_key [simp]: "key_uint (sequence_key w) = w"
proof -
  have "unat w < 256 ^ 8" by (rule unat_less_256)
  then show ?thesis
    by (simp add: key_uint_def sequence_key_def from_big_endian_big_endian)
qed

lemma sequence_key_eq [simp]: "(sequence_key v = sequence_key w) = (v = w)"
  by (metis key_uint_sequence_key)

lemma sequence_key_not_Nil [simp]: "sequence_key w \<noteq> []"
  using length_sequence_key [of w] by fastforce

text \<open>
  The byte order of the keys, in which bbolt walks a bucket, is the order of the sequences.
\<close>

lemma leading_digit_less:
  fixes a b p x y :: nat
  assumes "a < b" "x < p"
  shows "a * p + x < b * p + y"
proof -
  have "Suc a * p \<le> b * p" using assms(1) by (intro mult_le_mono1) simp
  with assms(2) have "a * p + x < b * p" by simp
  then show ?thesis by linarith
qed

lemma big_endian_less:
  "big_endian k m < big_endian k n \<longleftrightarrow> m mod 256 ^ k < n mod 256 ^ k"
proof (induction k)
  case (Suc k)
  let ?p = "256 ^ k :: nat"
  let ?dm = "m div ?p mod 256" and ?dn = "n div ?p mod 256"
  have split: "x mod 256 ^ Suc k = (x div ?p mod 256) * ?p + x mod ?p" for x :: nat
    by (metis mod_mult2_eq mult.commute power_Suc2)
  have bound: "x mod ?p < ?p" for x :: nat by simp
  have char_less: "(char_of (m div ?p) :: char) < char_of (n div ?p) \<longleftrightarrow> ?dm < ?dn"
    by (simp add: less_char_def)
  have char_eq: "(char_of (m div ?p) :: char) = char_of (n div ?p) \<longleftrightarrow> ?dm = ?dn"
    by (metis char_of_mod_256 of_char_char_of)
  consider "?dm < ?dn" | "?dm = ?dn" | "?dn < ?dm" by linarith
  then show ?case
  proof cases
    case 1
    then have "?dm * ?p + m mod ?p < ?dn * ?p + n mod ?p" using bound by (rule leading_digit_less)
    with 1 show ?thesis by (simp add: split char_less char_eq del: power_Suc)
  next
    case 2
    then show ?thesis by (simp add: split Suc.IH char_less char_eq del: power_Suc)
  next
    case 3
    then have "?dn * ?p + n mod ?p < ?dm * ?p + m mod ?p" using bound by (rule leading_digit_less)
    then have "\<not> ?dm * ?p + m mod ?p < ?dn * ?p + n mod ?p" by simp
    with 3 show ?thesis by (simp add: split char_less char_eq del: power_Suc)
  qed
qed simp

lemma sequence_key_less [simp]: "sequence_key v < sequence_key w \<longleftrightarrow> v < w"
proof -
  have "unat x mod 256 ^ 8 = unat x" for x :: u64
    by (rule mod_less) (rule unat_less_256)
  then show ?thesis by (simp add: sequence_key_def big_endian_less word_less_nat_alt)
qed

section \<open>Instants\<close>

text \<open>
  A \<open>time.Time\<close> is the nanoseconds since January 1, year 1, 00:00 UTC, and the offset of its
  location in seconds east of UTC. \<open>IsZero\<close>, \<open>Equal\<close>, \<open>Before\<close> and \<open>After\<close> compare instants.
\<close>

datatype gtime = GTime (instant: int) (zone: int)

definition zero_time :: gtime where "zero_time = GTime 0 0"
definition is_zero :: "gtime \<Rightarrow> bool" where "is_zero t = (instant t = 0)"
definition utc :: "gtime \<Rightarrow> gtime" where "utc t = GTime (instant t) 0"
definition before :: "gtime \<Rightarrow> gtime \<Rightarrow> bool" where "before a b = (instant a < instant b)"
definition after :: "gtime \<Rightarrow> gtime \<Rightarrow> bool" where "after a b = (instant b < instant a)"
definition same_instant :: "gtime \<Rightarrow> gtime \<Rightarrow> bool" where "same_instant a b = (instant a = instant b)"
definition add_ns :: "gtime \<Rightarrow> int \<Rightarrow> gtime" where "add_ns t d = GTime (instant t + d) (zone t)"

definition second :: int where "second = 1000000000"
definition minute :: int where "minute = 60 * second"
definition hour :: int where "hour = 60 * minute"
definition day :: int where "day = 24 * hour"

text \<open>\<open>t.UnixNano()\<close> counts from 1970; \<open>time.Unix(0, ns)\<close> is its inverse.\<close>

definition unix_epoch :: int where "unix_epoch = 719162 * day"
definition unix_nano :: "gtime \<Rightarrow> int" where "unix_nano t = instant t - unix_epoch"
definition from_unix_nano :: "int \<Rightarrow> gtime" where "from_unix_nano n = GTime (n + unix_epoch) 0"

text \<open>
  \<open>Time.MarshalJSON\<close> fails for a year outside 0 to 9999 and for an offset of a day or more.
\<close>

definition time_json_ok :: "gtime \<Rightarrow> bool" where
  "time_json_ok t =
     (let l = instant t + zone t * second
      in - (366 * day) \<le> l \<and> l < 3652059 * day \<and> \<bar>zone t\<bar> < 24 * 3600)"

lemmas time_defs = is_zero_def utc_def before_def after_def same_instant_def add_ns_def

lemma utc_simps [simp]:
  "instant (utc t) = instant t"
  "zone (utc t) = 0"
  "utc (utc t) = utc t"
  "is_zero (utc t) = is_zero t"
  "before (utc a) b = before a b" "before a (utc b) = before a b"
  "after (utc a) b = after a b" "after a (utc b) = after a b"
  by (simp_all add: time_defs)

lemma unix_nano_from_unix_nano [simp]: "unix_nano (from_unix_nano n) = n"
  by (simp add: unix_nano_def from_unix_nano_def)

end
