(* ===== verification/Event.thy ===== *)
theory Event
  imports GoBase
begin

text \<open>
  \<open>event.go\<close> and \<open>redaction.go\<close>: the log event, its validation, the redaction of secrets, and
  the JSON facts about events the billing inbox relies on (which values \<open>encoding/json\<close> can
  marshal, the canonical form a value has after a marshal and a decode with \<open>UseNumber\<close>, and
  the number of bytes of its text).
\<close>

section \<open>Values and events\<close>

text \<open>
  A Go value of type \<open>any\<close> as \<open>encoding/json\<close> reads or writes it. A \<open>float64\<close> carries its
  value and its JSON text. A \<open>map[string]any\<close> is the list of its entries (no key twice).
\<close>

datatype jval =
    JNull
  | JBool bool
  | JInt int
  | JInt64 int
  | JFloat rat bytes
  | JNumber bytes
  | JStr bytes
  | JArr "jval list"
  | JObj "(bytes \<times> jval) list"

type_synonym jmap = "(bytes \<times> jval) list"

record log_event =
  ev_id :: bytes
  ev_time :: gtime
  ev_level :: bytes
  ev_msg :: bytes
  ev_service :: bytes
  ev_env :: bytes
  ev_version :: bytes
  ev_host :: bytes
  ev_unit :: bytes
  ev_source :: bytes
  ev_stream :: bytes
  ev_trace :: bytes
  ev_request :: bytes
  ev_operation :: bytes
  ev_device :: bytes
  ev_org :: bytes
  ev_user :: bytes
  ev_component :: bytes
  ev_errcat :: bytes
  ev_actor :: bytes
  ev_actor_type :: bytes
  ev_outcome :: bytes
  ev_status_code :: bytes
  ev_status_class :: bytes
  ev_fields :: jmap

definition blank :: "bytes \<Rightarrow> bool" where
  "blank s = (trim_space s = [])"

text \<open>\<open>LogEvent.Validate\<close>: the error of the first case of the switch that applies.\<close>

definition validate_event :: "log_event \<Rightarrow> go_error + unit" where
  "validate_event e =
     (if blank (ev_id e) then Inl (ErrMsg ''event_id is required'')
      else if is_zero (ev_time e) then Inl (ErrMsg ''ts is required'')
      else if blank (ev_level e) then Inl (ErrMsg ''level is required'')
      else if blank (ev_msg e) then Inl (ErrMsg ''msg is required'')
      else if blank (ev_service e) then Inl (ErrMsg ''service is required'')
      else if blank (ev_env e) then Inl (ErrMsg ''env is required'')
      else if blank (ev_version e) then Inl (ErrMsg ''version is required'')
      else if blank (ev_host e) then Inl (ErrMsg ''host is required'')
      else if blank (ev_unit e) then Inl (ErrMsg ''unit is required'')
      else if blank (ev_source e) then Inl (ErrMsg ''source is required'')
      else Inr ())"

lemma validate_event_Inr:
  "(validate_event e = Inr u) =
     (\<not> blank (ev_id e) \<and> \<not> is_zero (ev_time e) \<and> \<not> blank (ev_level e) \<and> \<not> blank (ev_msg e)
      \<and> \<not> blank (ev_service e) \<and> \<not> blank (ev_env e) \<and> \<not> blank (ev_version e)
      \<and> \<not> blank (ev_host e) \<and> \<not> blank (ev_unit e) \<and> \<not> blank (ev_source e))"
  by (simp add: validate_event_def)

lemma not_blank_nonempty: "\<not> blank s \<Longrightarrow> s \<noteq> []"
  by (auto simp: blank_def trim_space_def)

section \<open>Redaction\<close>

definition redacted_value :: bytes where
  "redacted_value = ''[REDACTED]''"

definition text_markers :: "bytes list" where
  "text_markers =
     [''authorization'', ''bearer '', ''password'', ''secret'', ''token'', ''payload'',
      ''private key'', ''-----begin'']"

definition redact_text :: "bytes \<Rightarrow> bytes" where
  "redact_text s =
     (let lower = to_lower s
      in if list_ex (contains lower) text_markers then redacted_value else s)"

definition sensitive_names :: "bytes list" where
  "sensitive_names =
     [''authorization'', ''bearer'', ''token'', ''cookie'', ''password'', ''secret'', ''dsn'',
      ''credential'', ''payload'', ''private_key'', ''client_key'', ''access_key'']"

definition sensitive_field_name :: "bytes \<Rightarrow> bool" where
  "sensitive_field_name name =
     (let normalized = to_lower (replace_char (CHR ''-'') (CHR ''_'') name)
      in list_ex (contains normalized) sensitive_names)"

text \<open>\<open>redactAny\<close>, \<open>redactMap\<close> and the loop over an array.\<close>

fun redact_any :: "jval \<Rightarrow> jval"
  and redact_map :: "jmap \<Rightarrow> jmap"
  and redact_items :: "jval list \<Rightarrow> jval list" where
  "redact_any (JObj m) = JObj (redact_map m)"
| "redact_any (JArr xs) = JArr (redact_items xs)"
| "redact_any (JStr s) = JStr (redact_text s)"
| "redact_any v = v"
| "redact_map [] = []"
| "redact_map ((k, v) # m) =
     (if sensitive_field_name k then (k, JStr redacted_value) else (k, redact_any v)) # redact_map m"
| "redact_items [] = []"
| "redact_items (x # xs) = redact_any x # redact_items xs"

definition redact_event :: "log_event \<Rightarrow> log_event" where
  "redact_event e =
     (let e = e\<lparr>ev_msg := redact_text (ev_msg e)\<rparr>
      in if ev_fields e = [] then e else e\<lparr>ev_fields := redact_map (ev_fields e)\<rparr>)"

text \<open>
  What redaction promises: no text of the value carries a marker, and every entry with a
  sensitive name holds the redaction marker. \<open>texts\<close> collects the strings of a value.
\<close>

fun secret_free :: "jval \<Rightarrow> bool"
  and secret_free_map :: "jmap \<Rightarrow> bool"
  and secret_free_items :: "jval list \<Rightarrow> bool" where
  "secret_free (JObj m) = secret_free_map m"
| "secret_free (JArr xs) = secret_free_items xs"
| "secret_free (JStr s) = (\<not> list_ex (contains (to_lower s)) text_markers)"
| "secret_free v = True"
| "secret_free_map [] = True"
| "secret_free_map ((k, v) # m) =
     ((if sensitive_field_name k then v = JStr redacted_value else secret_free v)
      \<and> secret_free_map m)"
| "secret_free_items [] = True"
| "secret_free_items (x # xs) = (secret_free x \<and> secret_free_items xs)"

lemma redacted_value_lower: "to_lower redacted_value = ''[redacted]''"
  by (simp add: redacted_value_def to_lower_ascii ascii_lower_def del: to_lower.simps(2))

lemma redacted_value_clean: "\<not> list_ex (contains (to_lower redacted_value)) text_markers"
  by (simp add: redacted_value_lower text_markers_def starts_with_def)

lemma redact_text_clean: "\<not> list_ex (contains (to_lower (redact_text s))) text_markers"
  using redacted_value_clean by (simp add: redact_text_def Let_def)

lemma redact_text_fixed:
  "(redact_text s = s) = (s = redacted_value \<or> \<not> list_ex (contains (to_lower s)) text_markers)"
  by (auto simp: redact_text_def Let_def)

lemma redact_text_idem [simp]: "redact_text (redact_text s) = redact_text s"
  using redact_text_clean by (simp add: redact_text_fixed)

lemma secret_free_redact:
  "secret_free (redact_any v)"
  "secret_free_map (redact_map m)"
  "secret_free_items (redact_items xs)"
  by (induction v and m and xs rule: redact_any_redact_map_redact_items.induct)
     (simp_all add: redact_text_clean)

lemma redact_fixed:
  "secret_free v \<Longrightarrow> redact_any v = v"
  "secret_free_map m \<Longrightarrow> redact_map m = m"
  "secret_free_items xs \<Longrightarrow> redact_items xs = xs"
  by (induction v and m and xs rule: redact_any_redact_map_redact_items.induct)
     (auto simp: redact_text_fixed split: if_splits)

lemma redact_any_idem [simp]: "redact_any (redact_any v) = redact_any v"
  by (rule redact_fixed(1)) (rule secret_free_redact(1))

lemma redact_map_idem [simp]: "redact_map (redact_map m) = redact_map m"
  by (rule redact_fixed(2)) (rule secret_free_redact(2))

lemma redact_map_fixed_iff: "(redact_map m = m) = secret_free_map m"
  using redact_fixed(2) secret_free_redact(2) by metis

lemma akeys_redact_map [simp]: "akeys (redact_map m) = akeys m"
  by (induction m) auto

lemma redact_map_Nil_iff [simp]: "(redact_map m = []) = (m = [])"
  by (cases m) auto

lemma redact_event_simps [simp]:
  "ev_id (redact_event e) = ev_id e"
  "ev_time (redact_event e) = ev_time e"
  "ev_level (redact_event e) = ev_level e"
  "ev_msg (redact_event e) = redact_text (ev_msg e)"
  "ev_service (redact_event e) = ev_service e"
  "ev_env (redact_event e) = ev_env e"
  "ev_version (redact_event e) = ev_version e"
  "ev_host (redact_event e) = ev_host e"
  "ev_unit (redact_event e) = ev_unit e"
  "ev_source (redact_event e) = ev_source e"
  "ev_stream (redact_event e) = ev_stream e"
  "ev_fields (redact_event e) = redact_map (ev_fields e)"
  by (auto simp: redact_event_def Let_def)

lemma redact_event_idem: "redact_event (redact_event e) = redact_event e"
  by (auto simp: redact_event_def Let_def)

lemma redact_event_fixed:
  "redact_text (ev_msg e) = ev_msg e \<Longrightarrow> redact_map (ev_fields e) = ev_fields e \<Longrightarrow> redact_event e = e"
  by (simp add: redact_event_def Let_def)

lemma visible_not_blank: "list_ex visible s \<Longrightarrow> \<not> blank s"
  by (auto simp: list_ex_iff blank_def dest: trim_space_keeps)

lemma not_blank_redacted_value: "\<not> blank redacted_value"
  by (rule visible_not_blank) (simp add: redacted_value_def visible_def)

lemma not_blank_redact_text: "\<not> blank s \<Longrightarrow> \<not> blank (redact_text s)"
  by (simp add: redact_text_def Let_def not_blank_redacted_value)

lemma validate_redact_event: "validate_event e = Inr u \<Longrightarrow> validate_event (redact_event e) = Inr u"
  by (simp add: validate_event_Inr not_blank_redact_text)

section \<open>JSON values\<close>

text \<open>\<open>encoding/json\<close> accepts a \<open>json.Number\<close> only when it spells a JSON number.\<close>

definition digits_from :: "bytes \<Rightarrow> bytes" where
  "digits_from s = dropWhile is_digit s"

definition exponent_ok :: "bytes \<Rightarrow> bool" where
  "exponent_ok s =
     (case s of
        [] \<Rightarrow> True
      | c # r \<Rightarrow>
          (c = CHR ''e'' \<or> c = CHR ''E'')
          \<and> (let r' = (case r of d # r'' \<Rightarrow> if d = CHR ''+'' \<or> d = CHR ''-'' then r'' else r | [] \<Rightarrow> [])
             in r' \<noteq> [] \<and> digits_from r' = []))"

definition fraction_ok :: "bytes \<Rightarrow> bool" where
  "fraction_ok s =
     (case s of
        c # d # r \<Rightarrow> if c = CHR ''.'' \<and> is_digit d then exponent_ok (digits_from r) else exponent_ok s
      | _ \<Rightarrow> exponent_ok s)"

definition number_ok :: "bytes \<Rightarrow> bool" where
  "number_ok s =
     (s = [] \<or>
      (let t = (if starts_with s ''-'' then drop 1 s else s)
       in case t of
            [] \<Rightarrow> False
          | c # r \<Rightarrow>
              if c = CHR ''0'' then fraction_ok r
              else is_digit c \<and> fraction_ok (digits_from r)))"

text \<open>\<open>json.Marshal\<close> fails only on a malformed number; the text of a \<open>float64\<close> is a number unless
  the value is infinite or not a number.\<close>

fun json_ok :: "jval \<Rightarrow> bool"
  and json_ok_map :: "jmap \<Rightarrow> bool"
  and json_ok_items :: "jval list \<Rightarrow> bool" where
  "json_ok (JObj m) = json_ok_map m"
| "json_ok (JArr xs) = json_ok_items xs"
| "json_ok (JNumber s) = number_ok s"
| "json_ok (JFloat q s) = (s \<noteq> [] \<and> number_ok s)"
| "json_ok v = True"
| "json_ok_map [] = True"
| "json_ok_map ((k, v) # m) = (json_ok v \<and> json_ok_map m)"
| "json_ok_items [] = True"
| "json_ok_items (x # xs) = (json_ok x \<and> json_ok_items xs)"

text \<open>
  The value that a marshal followed by a decode with \<open>UseNumber\<close> gives: every number is the
  \<open>json.Number\<close> of its text, and the entries of an object are kept in the order of their
  keys, so that two maps with the same entries have one representation.
\<close>

fun canon :: "jval \<Rightarrow> jval"
  and canon_map :: "jmap \<Rightarrow> jmap"
  and canon_items :: "jval list \<Rightarrow> jval list" where
  "canon (JObj m) = JObj (canon_map m)"
| "canon (JArr xs) = JArr (canon_items xs)"
| "canon (JInt i) = JNumber (dec_int i)"
| "canon (JInt64 i) = JNumber (dec_int i)"
| "canon (JFloat q s) = JNumber s"
| "canon (JNumber s) = JNumber (if s = [] then ''0'' else s)"
| "canon v = v"
| "canon_map [] = []"
| "canon_map ((k, v) # m) = aput k (canon v) (canon_map m)"
| "canon_items [] = []"
| "canon_items (x # xs) = canon x # canon_items xs"

fun canonical :: "jval \<Rightarrow> bool"
  and canonical_map :: "jmap \<Rightarrow> bool"
  and canonical_items :: "jval list \<Rightarrow> bool" where
  "canonical (JObj m) = (ordered m \<and> canonical_map m)"
| "canonical (JArr xs) = canonical_items xs"
| "canonical (JInt i) = False"
| "canonical (JInt64 i) = False"
| "canonical (JFloat q s) = False"
| "canonical (JNumber s) = (s \<noteq> [])"
| "canonical v = True"
| "canonical_map [] = True"
| "canonical_map ((k, v) # m) = (canonical v \<and> canonical_map m)"
| "canonical_items [] = True"
| "canonical_items (x # xs) = (canonical x \<and> canonical_items xs)"

lemma aput_front: "\<forall>k' \<in> set (akeys m). k < k' \<Longrightarrow> aput k v m = (k, v) # m"
  by (cases m) auto

lemma canon_fixed:
  "canonical v \<Longrightarrow> canon v = v"
  "ordered m \<Longrightarrow> canonical_map m \<Longrightarrow> canon_map m = m"
  "canonical_items xs \<Longrightarrow> canon_items xs = xs"
  by (induction v and m and xs rule: canon_canon_map_canon_items.induct)
     (auto simp: aput_front)

lemma ordered_canon_map [simp]: "ordered (canon_map m)"
proof (induction m)
  case (Cons kv m)
  then show ?case by (cases kv) simp
qed simp

lemma canonical_map_aput: "canonical v \<Longrightarrow> canonical_map m \<Longrightarrow> canonical_map (aput k v m)"
  by (induction k v m rule: aput.induct) auto

lemma redact_map_aput:
  "redact_map (aput k v m) =
     aput k (if sensitive_field_name k then JStr redacted_value else redact_any v) (redact_map m)"
  by (induction k v m rule: aput.induct) auto

text \<open>What the encoder writes is canonical and can be written again.\<close>

lemma dec_nat_digits:
  "\<exists>c r. dec_nat n = c # r \<and> is_digit c \<and> list_all is_digit r \<and> (c = CHR ''0'' \<longrightarrow> r = [])"
proof (induction n rule: dec_nat.induct)
  case (1 n)
  have digit: "is_digit (char_of (48 + m))" "m \<noteq> 0 \<Longrightarrow> char_of (48 + m) \<noteq> CHR ''0''" if "m < 10" for m :: nat
  proof -
    have "of_char (char_of (48 + m) :: char) = 48 + m" using that by simp
    then show "is_digit (char_of (48 + m))" "m \<noteq> 0 \<Longrightarrow> char_of (48 + m) \<noteq> CHR ''0''"
      using that by (auto simp: is_digit_def Let_def dest: arg_cong [of _ _ "of_char :: char \<Rightarrow> nat"])
  qed
  show ?case
  proof (cases "n < 10")
    case True
    then show ?thesis using digit [OF True] by (simp add: dec_nat.simps [of n])
  next
    case False
    then obtain c r where cr: "dec_nat (n div 10) = c # r" "is_digit c" "list_all is_digit r"
        "c = CHR ''0'' \<longrightarrow> r = []"
      using 1 by blast
    have "c \<noteq> CHR ''0''"
    proof
      assume c: "c = CHR ''0''"
      with cr have one: "dec_nat (n div 10) = [c]" by simp
      have "n div 10 < 10"
      proof (rule ccontr)
        assume "\<not> n div 10 < 10"
        then have "length (dec_nat (n div 10)) = length (dec_nat (n div 10 div 10)) + 1"
          by (subst dec_nat.simps) simp
        with one have "dec_nat (n div 10 div 10) = []" by simp
        then show False by (subst (asm) dec_nat.simps) (simp split: if_splits)
      qed
      then have "char_of (48 + n div 10) = CHR ''0''"
        using one c by (simp add: dec_nat.simps [of "n div 10"])
      then show False using digit(2) [OF \<open>n div 10 < 10\<close>] False by auto
    qed
    with cr False show ?thesis
      using digit(1) [of "n mod 10"] by (simp add: dec_nat.simps [of n])
  qed
qed

lemma digits_from_all: "list_all is_digit s \<Longrightarrow> digits_from s = []"
  by (induction s) (auto simp: digits_from_def)

lemma number_ok_dec_int [simp]: "number_ok (dec_int i)" and dec_int_not_Nil [simp]: "dec_int i \<noteq> []"
proof -
  define n where "n = nat \<bar>i\<bar>"
  obtain c r where cr: "dec_nat n = c # r" "is_digit c" "list_all is_digit r" "c = CHR ''0'' \<longrightarrow> r = []"
    using dec_nat_digits by blast
  have i: "dec_int i = (if i < 0 then CHR ''-'' # dec_nat n else dec_nat n)"
    by (simp add: dec_int_def n_def)
  have "c \<noteq> CHR ''-''" using cr(2) by (auto simp: is_digit_def)
  then show "number_ok (dec_int i)"
    using cr i by (auto simp: number_ok_def starts_with_def digits_from_all fraction_ok_def exponent_ok_def)
  show "dec_int i \<noteq> []" using i cr(1) by simp
qed

lemma json_ok_map_aput: "json_ok v \<Longrightarrow> json_ok_map m \<Longrightarrow> json_ok_map (aput k v m)"
  by (induction k v m rule: aput.induct) auto

lemma number_ok_zero: "number_ok ''0''"
  by (simp add: number_ok_def starts_with_def fraction_ok_def exponent_ok_def)

lemma canonical_canon:
  "json_ok v \<Longrightarrow> canonical (canon v) \<and> json_ok (canon v)"
  "json_ok_map m \<Longrightarrow> canonical_map (canon_map m) \<and> json_ok_map (canon_map m)"
  "json_ok_items xs \<Longrightarrow> canonical_items (canon_items xs) \<and> json_ok_items (canon_items xs)"
  by (induction v and m and xs rule: canon_canon_map_canon_items.induct)
     (auto simp: canonical_map_aput json_ok_map_aput number_ok_zero)

lemma canon_map_idem: "json_ok_map m \<Longrightarrow> canon_map (canon_map m) = canon_map m"
  using canonical_canon(2) by (intro canon_fixed(2)) auto

section \<open>The size of the JSON text\<close>

text \<open>
  Bytes of the JSON text of a string with its quotes: the encoder writes two bytes for a
  quote, a backslash and the control characters with a short escape, six for the other
  control characters, for \<open><\<close>, \<open>>\<close>, \<open>&\<close> and for the line and paragraph separators, and copies
  every other byte of valid UTF-8.
\<close>

definition char_json_len :: "char \<Rightarrow> nat" where
  "char_json_len c =
     (let n = of_char c :: nat
      in if n = 34 \<or> n = 92 \<or> n \<in> {8, 9, 10, 12, 13} then 2
         else if n < 32 \<or> n \<in> {60, 62, 38} then 6
         else 1)"

fun text_json_len :: "bytes \<Rightarrow> nat" where
  "text_json_len [] = 0"
| "text_json_len (c # s) =
     (if starts_with (c # s) (bs [0xE2, 0x80, 0xA8]) \<or> starts_with (c # s) (bs [0xE2, 0x80, 0xA9])
      then 6 + text_json_len (drop 2 s)
      else char_json_len c + text_json_len s)"

definition str_json_len :: "bytes \<Rightarrow> nat" where
  "str_json_len s = 2 + text_json_len s"

fun jval_len :: "jval \<Rightarrow> nat"
  and jmap_len :: "jmap \<Rightarrow> nat"
  and jitems_len :: "jval list \<Rightarrow> nat" where
  "jval_len JNull = 4"
| "jval_len (JBool b) = (if b then 4 else 5)"
| "jval_len (JInt i) = length (dec_int i)"
| "jval_len (JInt64 i) = length (dec_int i)"
| "jval_len (JFloat q s) = length s"
| "jval_len (JNumber s) = (if s = [] then 1 else length s)"
| "jval_len (JStr s) = str_json_len s"
| "jval_len (JArr xs) = (if xs = [] then 2 else 1 + jitems_len xs)"
| "jval_len (JObj m) = (if m = [] then 2 else 1 + jmap_len m)"
| "jmap_len [] = 0"
| "jmap_len ((k, v) # m) = str_json_len k + 1 + jval_len v + 1 + jmap_len m"
| "jitems_len [] = 0"
| "jitems_len (x # xs) = jval_len x + 1 + jitems_len xs"

text \<open>
  \<open>time.RFC3339Nano\<close>: nineteen bytes, the fraction without its trailing zeros, and \<open>Z\<close> or a
  numeric offset.
\<close>

fun fraction_digits :: "nat \<Rightarrow> nat \<Rightarrow> nat" where
  "fraction_digits 0 n = 0"
| "fraction_digits (Suc k) n = (if n mod 10 = 0 then fraction_digits k (n div 10) else Suc k)"

definition time_text_len :: "gtime \<Rightarrow> nat" where
  "time_text_len t =
     (let d = fraction_digits 9 (nat (instant t mod second))
      in 19 + (if d = 0 then 0 else d + 1) + (if zone t = 0 then 1 else 6))"

definition opt_field :: "bytes \<Rightarrow> bytes \<Rightarrow> (bytes \<times> nat) list" where
  "opt_field name s = (if s = [] then [] else [(name, str_json_len s)])"

text \<open>The members \<open>json.Marshal\<close> writes for an event, with the size of each value.\<close>

definition event_members :: "log_event \<Rightarrow> (bytes \<times> nat) list" where
  "event_members e =
     [(''event_id'', str_json_len (ev_id e)), (''ts'', 2 + time_text_len (ev_time e)),
      (''level'', str_json_len (ev_level e)), (''msg'', str_json_len (ev_msg e)),
      (''service'', str_json_len (ev_service e)), (''env'', str_json_len (ev_env e)),
      (''version'', str_json_len (ev_version e)), (''host'', str_json_len (ev_host e)),
      (''unit'', str_json_len (ev_unit e)), (''source'', str_json_len (ev_source e))]
     @ opt_field ''stream'' (ev_stream e) @ opt_field ''trace_id'' (ev_trace e)
     @ opt_field ''request_id'' (ev_request e) @ opt_field ''operation_id'' (ev_operation e)
     @ opt_field ''device_id'' (ev_device e) @ opt_field ''org_id'' (ev_org e)
     @ opt_field ''user_id'' (ev_user e) @ opt_field ''component'' (ev_component e)
     @ opt_field ''error_category'' (ev_errcat e) @ opt_field ''actor_id'' (ev_actor e)
     @ opt_field ''actor_type'' (ev_actor_type e) @ opt_field ''outcome'' (ev_outcome e)
     @ opt_field ''status_code'' (ev_status_code e) @ opt_field ''status_class'' (ev_status_class e)
     @ (if ev_fields e = [] then [] else [(''fields'', jval_len (JObj (ev_fields e)))])"

definition members_len :: "(bytes \<times> nat) list \<Rightarrow> nat" where
  "members_len ms = 1 + (\<Sum>(name, n) \<leftarrow> ms. length name + 4 + n)"

definition event_json_len :: "log_event \<Rightarrow> nat" where
  "event_json_len e = members_len (event_members e)"

definition event_json_ok :: "log_event \<Rightarrow> bool" where
  "event_json_ok e = (time_json_ok (ev_time e) \<and> json_ok_map (ev_fields e))"

end
