(* ===== verification/Documents.thy ===== *)
theory Documents
  imports Event
begin

text \<open>
  The documents the program stores and signs. Every byte string that is not plain text is
  the result of \<open>json.Marshal\<close> on one of the program's structs, of \<open>Time.Format\<close>, or of a
  concatenation; a \<open>doc\<close> is a byte string with that origin. Decoding a document gives back
  the struct it was made from, and decoding anything else is an error: \<open>encoding/json\<close> and
  \<open>encoding/base64\<close> are inverse on their own output. The structs keep their field order.
\<close>

section \<open>Records of the inbox (billing_inbox.go, billing_lifecycle.go)\<close>

record billing_record =
  br_seq :: u64
  br_digest :: bytes
  br_event :: log_event

record receipt_binding =
  rb_seq :: u64
  rb_content :: bytes
  rb_record :: bytes

record retirement_plan =
  rp_op :: bytes
  rp_env :: bytes
  rp_store :: bytes
  rp_from :: u64
  rp_through :: u64
  rp_sha :: bytes
  rp_set :: bytes

record retirement_status =
  rs_op :: bytes
  rs_env :: bytes
  rs_store :: bytes
  rs_from :: u64
  rs_through :: u64
  rs_sha :: bytes
  rs_status :: bytes
  rs_receipt :: bytes
  rs_completed :: gtime
  rs_retired :: u64
  rs_set :: bytes

section \<open>Records of the archive (billingarchive)\<close>

record part =
  pt_name :: bytes
  pt_kind :: bytes
  pt_ordinal :: int
  pt_offset :: int
  pt_plain :: int
  pt_plain_sha :: bytes
  pt_cipher :: int
  pt_cipher_sha :: bytes

record manifest =
  mf_version :: int
  mf_env :: bytes
  mf_sources :: "bytes list"
  mf_stack :: bytes
  mf_store :: bytes
  mf_set :: bytes
  mf_created :: gtime
  mf_high :: u64
  mf_from :: u64
  mf_through :: u64
  mf_count :: u64
  mf_max_received :: gtime
  mf_bindings :: bytes
  mf_snapshot_bytes :: int
  mf_snapshot_sha :: bytes
  mf_key_id :: bytes
  mf_recipients :: "bytes list"
  mf_parts :: "part list"

record verification_payload =
  vp_version :: int
  vp_verdict :: bytes
  vp_key :: bytes
  vp_env :: bytes
  vp_stack :: bytes
  vp_store :: bytes
  vp_set :: bytes
  vp_manifest_sha :: bytes
  vp_objects_sha :: bytes
  vp_high :: u64
  vp_from :: u64
  vp_through :: u64
  vp_count :: u64
  vp_max_received :: gtime
  vp_bindings :: bytes
  vp_key_id :: bytes
  vp_recipients :: "bytes list"
  vp_verified_at :: gtime
  vp_policy :: bytes
  vp_release :: bytes

record range_proof =
  rg_version :: int
  rg_purpose :: bytes
  rg_key :: bytes
  rg_env :: bytes
  rg_stack :: bytes
  rg_store :: bytes
  rg_set :: bytes
  rg_manifest_sha :: bytes
  rg_high :: u64
  rg_from :: u64
  rg_through :: u64
  rg_count :: u64
  rg_max_received :: gtime
  rg_bindings :: bytes
  rg_verified_at :: gtime
  rg_policy :: bytes
  rg_release :: bytes

record recovery_approval =
  ra_version :: int
  ra_purpose :: bytes
  ra_key :: bytes
  ra_env :: bytes
  ra_store :: bytes
  ra_high :: u64
  ra_floor :: u64
  ra_history :: bytes
  ra_frontier :: u64
  ra_checkpoint :: bytes
  ra_dependency :: bytes
  ra_financial :: bytes
  ra_recovery :: bytes
  ra_approved :: gtime
  ra_expires :: gtime

record usage_measurement =
  um_metric :: bytes
  um_unit :: bytes
  um_quantity :: u64
  um_scale :: int

record usage_event =
  ue_id :: bytes
  ue_service :: bytes
  ue_cloud :: bytes
  ue_time :: gtime
  ue_start :: gtime
  ue_end :: gtime
  ue_epoch :: bytes
  ue_seq :: u64
  ue_source :: bytes
  ue_measurements :: "usage_measurement list"
  ue_dimensions :: "(bytes \<times> bytes) list"

record record_binding =
  rf_seq :: u64
  rf_digest :: bytes
  rf_usage :: bytes
  rf_event_sha :: bytes

record active_manifest =
  am_version :: int
  am_file :: bytes
  am_store :: bytes
  am_generation :: bytes
  am_cutover :: u64

section \<open>Documents\<close>

text \<open>
  The structs that hold other documents, over the type \<open>'d\<close> of these. A \<open>b64\<close> is a text field that holds base64.
\<close>

datatype 'd b64 =
    B64 'd
  | NotB64 bytes

datatype 'd mutation =
    Mutation (mu_bucket: bytes) (mu_key: bytes) (mu_value: 'd) (mu_kind: bytes) (mu_seq: u64)

datatype 'd signed_doc =
    SignedDoc (sd_key: bytes) (sd_payload: "'d b64") (sd_sig: "'d b64")

datatype 'd catalog_entry =
    CatalogEntry (ce_status: bytes) (ce_manifest: manifest) (ce_bytes: 'd) (ce_completion: "'d signed_doc")

datatype 'd capture_status =
    CaptureStatus (cs_set: bytes) (cs_status: bytes) (cs_manifest: manifest) (cs_manifest_b64: "'d b64")
      (cs_error: bytes)

text \<open>
  \<open>Raw\<close> is plain text or binary; \<open>DSigned d m\<close> is the message \<open>append([]byte(d), m...)\<close> that
  is signed under the domain \<open>d\<close>; \<open>DFinancial\<close> is the anonymous struct of \<open>billingBinding\<close>;
  \<open>DArray\<close> the JSON array of raw messages of \<open>recoveryState\<close>; \<open>DJoin\<close> a concatenation.
\<close>

datatype doc =
    Raw bytes
  | DTime gtime
  | DRecord billing_record
  | DBinding receipt_binding
  | DStatus retirement_status
  | DCatalog "doc catalog_entry"
  | DCapture "doc capture_status"
  | DWrites "doc mutation list"
  | DManifest manifest
  | DParts "part list"
  | DPayload verification_payload
  | DRange range_proof
  | DApproval recovery_approval
  | DSignedApproval "doc signed_doc"
  | DSigned bytes doc
  | DFinancial bytes bytes bytes bytes gtime jmap
  | DUsage usage_event
  | DRefs "record_binding list"
  | DArray "doc list"
  | DJoin "doc list"
  | DActive active_manifest

text \<open>\<open>json.Unmarshal\<close> into the struct the bucket holds; a missing value does not decode.\<close>

definition as_record :: "doc option \<Rightarrow> billing_record option" where
  "as_record d = (case d of Some (DRecord r) \<Rightarrow> Some r | _ \<Rightarrow> None)"

definition as_binding :: "doc option \<Rightarrow> receipt_binding option" where
  "as_binding d = (case d of Some (DBinding b) \<Rightarrow> Some b | _ \<Rightarrow> None)"

definition as_status :: "doc option \<Rightarrow> retirement_status option" where
  "as_status d = (case d of Some (DStatus s) \<Rightarrow> Some s | _ \<Rightarrow> None)"

definition as_catalog :: "doc option \<Rightarrow> doc catalog_entry option" where
  "as_catalog d = (case d of Some (DCatalog c) \<Rightarrow> Some c | _ \<Rightarrow> None)"

definition as_capture :: "doc option \<Rightarrow> doc capture_status option" where
  "as_capture d = (case d of Some (DCapture c) \<Rightarrow> Some c | _ \<Rightarrow> None)"

definition as_writes :: "doc option \<Rightarrow> doc mutation list option" where
  "as_writes d = (case d of Some (DWrites w) \<Rightarrow> Some w | _ \<Rightarrow> None)"

definition as_time :: "doc option \<Rightarrow> gtime option" where
  "as_time d = (case d of Some (DTime t) \<Rightarrow> Some t | _ \<Rightarrow> None)"

text \<open>\<open>string(b)\<close> of a value that is compared with text: a missing value is the empty string.\<close>

definition as_text :: "doc option \<Rightarrow> bytes option" where
  "as_text d = (case d of None \<Rightarrow> Some [] | Some (Raw s) \<Rightarrow> Some s | _ \<Rightarrow> None)"

text \<open>\<open>readUint\<close>: anything that is not eight bytes reads as zero.\<close>

definition read_uint :: "doc option \<Rightarrow> u64" where
  "read_uint d = (case d of Some (Raw s) \<Rightarrow> key_uint s | _ \<Rightarrow> 0)"

definition is_key8 :: "doc option \<Rightarrow> bool" where
  "is_key8 d = (case d of Some (Raw s) \<Rightarrow> length s = 8 | _ \<Rightarrow> False)"

lemma as_simps [simp]:
  "as_record (Some (DRecord r)) = Some r" "as_record None = None"
  "as_binding (Some (DBinding b)) = Some b" "as_binding None = None" "as_binding (Some (Raw s)) = None"
  "as_status (Some (DStatus s')) = Some s'" "as_status None = None"
  "as_catalog (Some (DCatalog c)) = Some c" "as_catalog None = None"
  "as_capture (Some (DCapture p)) = Some p" "as_capture None = None"
  "as_writes (Some (DWrites w)) = Some w" "as_writes None = None"
  "as_time (Some (DTime t)) = Some t" "as_time (Some (Raw s)) = None" "as_time None = None"
  "as_text None = Some []" "as_text (Some (Raw s)) = Some s" "as_text (Some (DTime t)) = None"
  "read_uint None = 0" "read_uint (Some (Raw (sequence_key n))) = n"
  "read_uint (Some (DBinding b)) = 0"
  "is_key8 None = False" "is_key8 (Some (DBinding b)) = False" "is_key8 (Some (Raw s)) = (length s = 8)"
  by (simp_all add: as_record_def as_binding_def as_status_def as_catalog_def as_capture_def
      as_writes_def as_time_def as_text_def read_uint_def is_key8_def)

lemma as_Some [simp]:
  "(as_record d = Some r) = (d = Some (DRecord r))"
  "(as_binding d = Some b) = (d = Some (DBinding b))"
  "(as_status d = Some s) = (d = Some (DStatus s))"
  "(as_catalog d = Some c) = (d = Some (DCatalog c))"
  "(as_capture d = Some p) = (d = Some (DCapture p))"
  "(as_writes d = Some w) = (d = Some (DWrites w))"
  "(as_time d = Some t) = (d = Some (DTime t))"
  by (auto simp: as_record_def as_binding_def as_status_def as_catalog_def as_capture_def
      as_writes_def as_time_def split: option.splits doc.splits)

text \<open>
  The cryptographic functions: the hexadecimal SHA-256 of a document, and signing and
  verification of Ed25519. They are arguments of the model.
\<close>

record crypto =
  sha :: "doc \<Rightarrow> bytes"
  ed_sign :: "bytes \<Rightarrow> doc \<Rightarrow> bytes"
  ed_verify :: "bytes \<Rightarrow> doc \<Rightarrow> bytes \<Rightarrow> bool"

text \<open>The size of the JSON text of a stored record: \<open>sequence\<close>, \<open>content_sha256\<close>, \<open>event\<close>.\<close>

definition record_len :: "billing_record \<Rightarrow> nat" where
  "record_len r =
     members_len [(''sequence'', 2 + length (dec_nat (unat (br_seq r)))),
                  (''content_sha256'', str_json_len (br_digest r)),
                  (''event'', event_json_len (br_event r))]"

definition body_len :: "doc \<Rightarrow> nat" where
  "body_len d = (case d of DRecord r \<Rightarrow> record_len r | Raw s \<Rightarrow> length s | _ \<Rightarrow> 0)"

text \<open>\<open>validDigest\<close> and \<open>validSHA\<close>: the lower-case hexadecimal text of 32 bytes.\<close>

definition valid_digest :: "bytes \<Rightarrow> bool" where
  "valid_digest s = (length s = 64 \<and> list_all is_lower_hex s)"

definition hex_of_bytes :: "nat \<Rightarrow> bytes \<Rightarrow> bool" where
  "hex_of_bytes n s = (length s = 2 * n \<and> list_all is_lower_hex s)"

text \<open>\<open>SafeID\<close>.\<close>

definition safe_char :: "char \<Rightarrow> bool" where
  "safe_char c =
     (let n = of_char c :: nat
      in (97 \<le> n \<and> n \<le> 122) \<or> (48 \<le> n \<and> n \<le> 57) \<or> c = CHR ''-'' \<or> c = CHR ''_'' \<or> c = CHR ''.'')"

definition safe_id :: "bytes \<Rightarrow> bool" where
  "safe_id v =
     (v \<noteq> [] \<and> length v \<le> 128 \<and> list_all safe_char v \<and> v \<noteq> ''.'' \<and> v \<noteq> ''..'')"

end
