(* ===== verification/Bolt.thy ===== *)
theory Bolt
  imports Documents
begin

text \<open>
  The transactional store under the inbox. A database is an ordered collection of buckets, a
  bucket an ordered collection of keys with a 64-bit sequence counter: what bbolt documents
  of \<open>Bucket\<close>, \<open>Get\<close>, \<open>Put\<close>, \<open>Delete\<close>, \<open>Sequence\<close> and \<open>SetSequence\<close>. On top of it, the
  recording transaction \<open>mutationTx\<close> of \<open>billing_lifecycle.go\<close>, its only commit path
  \<open>updateLocked\<close>, and the replay \<open>applyMutations\<close> of \<open>billing_compaction.go\<close>.
\<close>

section \<open>Buckets\<close>

record bucket =
  bk_entries :: "(bytes \<times> doc) list"
  bk_seq :: u64

type_synonym db = "(bytes \<times> bucket) list"

definition empty_bucket :: bucket where
  "empty_bucket = \<lparr>bk_entries = [], bk_seq = 0\<rparr>"

definition db_has :: "db \<Rightarrow> bytes \<Rightarrow> bool" where
  "db_has d b = (aget d b \<noteq> None)"

definition db_entries :: "db \<Rightarrow> bytes \<Rightarrow> (bytes \<times> doc) list" where
  "db_entries d b = (case aget d b of None \<Rightarrow> [] | Some bk \<Rightarrow> bk_entries bk)"

definition db_seq :: "db \<Rightarrow> bytes \<Rightarrow> u64" where
  "db_seq d b = (case aget d b of None \<Rightarrow> 0 | Some bk \<Rightarrow> bk_seq bk)"

definition db_get :: "db \<Rightarrow> bytes \<Rightarrow> bytes \<Rightarrow> doc option" where
  "db_get d b k = aget (db_entries d b) k"

abbreviation meta_get :: "db \<Rightarrow> bytes \<Rightarrow> doc option" where
  "meta_get d k \<equiv> db_get d ''meta'' k"

abbreviation meta_uint :: "db \<Rightarrow> bytes \<Rightarrow> u64" where
  "meta_uint d k \<equiv> read_uint (db_get d ''meta'' k)"

definition on_bucket :: "(bucket \<Rightarrow> bucket) \<Rightarrow> bytes \<Rightarrow> db \<Rightarrow> db" where
  "on_bucket f b d = (case aget d b of None \<Rightarrow> d | Some bk \<Rightarrow> aput b (f bk) d)"

definition set_key :: "bytes \<Rightarrow> bytes \<Rightarrow> doc \<Rightarrow> db \<Rightarrow> db" where
  "set_key b k v = on_bucket (\<lambda>bk. bk\<lparr>bk_entries := aput k v (bk_entries bk)\<rparr>) b"

definition del_key :: "bytes \<Rightarrow> bytes \<Rightarrow> db \<Rightarrow> db" where
  "del_key b k = on_bucket (\<lambda>bk. bk\<lparr>bk_entries := adel k (bk_entries bk)\<rparr>) b"

definition set_seq :: "bytes \<Rightarrow> u64 \<Rightarrow> db \<Rightarrow> db" where
  "set_seq b n = on_bucket (\<lambda>bk. bk\<lparr>bk_seq := n\<rparr>) b"

definition add_bucket :: "bytes \<Rightarrow> db \<Rightarrow> db" where
  "add_bucket b d = (if db_has d b then d else aput b empty_bucket d)"

text \<open>
  The calls with their errors: a call on a missing bucket is a nil dereference, \<open>Put\<close> refuses
  an empty key and a key above 32768 bytes, and a bucket needs a name.
\<close>

definition db_put :: "bytes \<Rightarrow> bytes \<Rightarrow> doc \<Rightarrow> db \<Rightarrow> go_error + db" where
  "db_put b k v d =
     (if \<not> db_has d b then Inl ErrPanic
      else if k = [] then Inl (ErrMsg ''key required'')
      else if length k > 32768 then Inl (ErrMsg ''key too large'')
      else Inr (set_key b k v d))"

definition db_del :: "bytes \<Rightarrow> bytes \<Rightarrow> db \<Rightarrow> go_error + db" where
  "db_del b k d = (if \<not> db_has d b then Inl ErrPanic else Inr (del_key b k d))"

definition db_set_seq :: "bytes \<Rightarrow> u64 \<Rightarrow> db \<Rightarrow> go_error + db" where
  "db_set_seq b n d = (if \<not> db_has d b then Inl ErrPanic else Inr (set_seq b n d))"

definition db_create :: "bytes \<Rightarrow> db \<Rightarrow> go_error + db" where
  "db_create b d =
     (if b = [] then Inl (ErrMsg ''bucket name required'') else Inr (add_bucket b d))"

lemma on_bucket_lookup [simp]:
  "aget (on_bucket f b d) b' = (if b' = b then map_option f (aget d b) else aget d b')"
  by (auto simp: on_bucket_def split: option.splits)

lemma db_has_after [simp, bolt_simps]:
  "db_has (set_key b k v d) b' = db_has d b'"
  "db_has (del_key b k d) b' = db_has d b'"
  "db_has (set_seq b n d) b' = db_has d b'"
  "db_has (add_bucket b d) b' = (b' = b \<or> db_has d b')"
  by (auto simp: db_has_def set_key_def del_key_def set_seq_def add_bucket_def)

lemma db_entries_after [simp, bolt_simps]:
  "db_entries (set_key b k v d) b' =
     (if b' = b \<and> db_has d b then aput k v (db_entries d b) else db_entries d b')"
  "db_entries (del_key b k d) b' = (if b' = b then adel k (db_entries d b) else db_entries d b')"
  "db_entries (set_seq b n d) b' = db_entries d b'"
  "db_entries (add_bucket b d) b' = db_entries d b'"
  by (auto simp: db_has_def db_entries_def set_key_def del_key_def set_seq_def add_bucket_def
      empty_bucket_def adel_def split: option.splits)

lemma db_seq_after [simp, bolt_simps]:
  "db_seq (set_key b k v d) b' = db_seq d b'"
  "db_seq (del_key b k d) b' = db_seq d b'"
  "db_seq (set_seq b n d) b' = (if b' = b \<and> db_has d b then n else db_seq d b')"
  "db_seq (add_bucket b d) b' = db_seq d b'"
  by (auto simp: db_has_def db_seq_def set_key_def del_key_def set_seq_def add_bucket_def
      empty_bucket_def split: option.splits)

lemma db_get_after [simp, bolt_simps]:
  "db_get (set_key b k v d) b' k' =
     (if b' = b \<and> k' = k \<and> db_has d b then Some v else db_get d b' k')"
  "db_get (del_key b k d) b' k' = (if b' = b \<and> k' = k then None else db_get d b' k')"
  "db_get (set_seq b n d) b' k' = db_get d b' k'"
  "db_get (add_bucket b d) b' k' = db_get d b' k'"
  by (auto simp: db_get_def)

lemma db_get_has: "db_get d b k = Some v \<Longrightarrow> db_has d b"
  by (auto simp: db_get_def db_entries_def db_has_def split: option.splits)

lemma db_calls_Inr [simp]:
  "(db_put b k v d = Inr d') = (db_has d b \<and> k \<noteq> [] \<and> length k \<le> 32768 \<and> d' = set_key b k v d)"
  "(db_del b k d = Inr d') = (db_has d b \<and> d' = del_key b k d)"
  "(db_set_seq b n d = Inr d') = (db_has d b \<and> d' = set_seq b n d)"
  "(db_create b d = Inr d') = (b \<noteq> [] \<and> d' = add_bucket b d)"
  by (auto simp: db_put_def db_del_def db_set_seq_def db_create_def)

text \<open>Buckets and keys stay in byte order.\<close>

definition db_ordered :: "db \<Rightarrow> bool" where
  "db_ordered d = (ordered d \<and> list_all (\<lambda>(b, bk). ordered (bk_entries bk)) d)"

lemma ordered_db_entries [simp]: "db_ordered d \<Longrightarrow> ordered (db_entries d b)"
  by (auto simp: db_ordered_def db_entries_def list_all_iff split: option.splits dest!: map_of_SomeD)

lemma db_ordered_on_bucket:
  assumes "db_ordered d" "\<And>bk. ordered (bk_entries bk) \<Longrightarrow> ordered (bk_entries (f bk))"
  shows "db_ordered (on_bucket f b d)"
proof (cases "aget d b")
  case None
  with assms(1) show ?thesis by (simp add: on_bucket_def)
next
  case (Some bk)
  then have "ordered (bk_entries bk)"
    using assms(1) map_of_SomeD [OF Some] by (auto simp: db_ordered_def list_all_iff)
  with assms Some show ?thesis
    by (simp add: on_bucket_def db_ordered_def list_all_aput)
qed

lemma db_ordered_after [simp]:
  assumes "db_ordered d"
  shows "db_ordered (set_key b k v d)" "db_ordered (del_key b k d)" "db_ordered (set_seq b n d)"
    "db_ordered (add_bucket b d)"
proof -
  show "db_ordered (set_key b k v d)" "db_ordered (del_key b k d)" "db_ordered (set_seq b n d)"
    using assms by (auto simp: set_key_def del_key_def set_seq_def intro!: db_ordered_on_bucket)
  show "db_ordered (add_bucket b d)"
    using assms list_all_aput [of "\<lambda>(b, bk). ordered (bk_entries bk)" d b empty_bucket]
    by (auto simp: add_bucket_def db_ordered_def empty_bucket_def)
qed

section \<open>The recording transaction\<close>

record mtx =
  mt_db :: db
  mt_writes :: "doc mutation list"

definition begin_tx :: "db \<Rightarrow> mtx" where
  "begin_tx d = \<lparr>mt_db = d, mt_writes = []\<rparr>"

definition t_put :: "bytes \<Rightarrow> bytes \<Rightarrow> doc \<Rightarrow> mtx \<Rightarrow> go_error + mtx" where
  "t_put b k v t =
     andThen (db_put b k v (mt_db t)) (\<lambda>d.
       Inr (t\<lparr>mt_db := d, mt_writes := mt_writes t @ [Mutation b k v ''put'' 0]\<rparr>))"

definition t_del :: "bytes \<Rightarrow> bytes \<Rightarrow> mtx \<Rightarrow> go_error + mtx" where
  "t_del b k t =
     andThen (db_del b k (mt_db t)) (\<lambda>d.
       Inr (t\<lparr>mt_db := d, mt_writes := mt_writes t @ [Mutation b k (Raw []) ''delete'' 0]\<rparr>))"

definition t_create :: "bytes \<Rightarrow> mtx \<Rightarrow> go_error + mtx" where
  "t_create b t =
     andThen (db_create b (mt_db t)) (\<lambda>d.
       Inr (t\<lparr>mt_db := d, mt_writes := mt_writes t @ [Mutation b [] (Raw []) ''create'' 0]\<rparr>))"

definition t_set_sequence :: "bytes \<Rightarrow> u64 \<Rightarrow> mtx \<Rightarrow> go_error + mtx" where
  "t_set_sequence b n t =
     andThen (db_set_seq b n (mt_db t)) (\<lambda>d.
       Inr (t\<lparr>mt_db := d, mt_writes := mt_writes t @ [Mutation b [] (Raw []) ''sequence'' n]\<rparr>))"

definition t_next_sequence :: "bytes \<Rightarrow> mtx \<Rightarrow> go_error + (u64 \<times> mtx)" where
  "t_next_sequence b t =
     (let v = db_seq (mt_db t) b
      in if v = - 1 then Inl ErrBillingUnavailable
         else andThen (t_set_sequence b (v + 1) t) (\<lambda>t'. Inr (v + 1, t')))"

text \<open>A sequence of \<open>put\<close> calls, each followed by \<open>if err != nil { return err }\<close>.\<close>

fun t_puts :: "(bytes \<times> bytes \<times> doc) list \<Rightarrow> mtx \<Rightarrow> go_error + mtx" where
  "t_puts [] t = Inr t"
| "t_puts ((b, k, v) # ps) t = andThen (t_put b k v t) (t_puts ps)"

lemma t_calls_Inr [simp]:
  "(t_put b k v t = Inr t') =
     (db_has (mt_db t) b \<and> k \<noteq> [] \<and> length k \<le> 32768
      \<and> t' = t\<lparr>mt_db := set_key b k v (mt_db t), mt_writes := mt_writes t @ [Mutation b k v ''put'' 0]\<rparr>)"
  "(t_del b k t = Inr t') =
     (db_has (mt_db t) b
      \<and> t' = t\<lparr>mt_db := del_key b k (mt_db t), mt_writes := mt_writes t @ [Mutation b k (Raw []) ''delete'' 0]\<rparr>)"
  "(t_create b t = Inr t') =
     (b \<noteq> []
      \<and> t' = t\<lparr>mt_db := add_bucket b (mt_db t), mt_writes := mt_writes t @ [Mutation b [] (Raw []) ''create'' 0]\<rparr>)"
  "(t_set_sequence b n t = Inr t') =
     (db_has (mt_db t) b
      \<and> t' = t\<lparr>mt_db := set_seq b n (mt_db t), mt_writes := mt_writes t @ [Mutation b [] (Raw []) ''sequence'' n]\<rparr>)"
  "(t_next_sequence b t = Inr r) =
     (db_seq (mt_db t) b \<noteq> - 1 \<and> db_has (mt_db t) b
      \<and> r = (db_seq (mt_db t) b + 1,
             t\<lparr>mt_db := set_seq b (db_seq (mt_db t) b + 1) (mt_db t),
               mt_writes := mt_writes t @ [Mutation b [] (Raw []) ''sequence'' (db_seq (mt_db t) b + 1)]\<rparr>))"
  by (auto simp: t_put_def t_del_def t_create_def t_set_sequence_def t_next_sequence_def Let_def)

section \<open>Replay\<close>

definition apply_mutation :: "doc mutation \<Rightarrow> db \<Rightarrow> go_error + db" where
  "apply_mutation w d =
     (if mu_bucket w = ''mutation_journal'' then Inl ErrBillingUnavailable
      else if mu_kind w = ''create'' then db_create (mu_bucket w) d
      else if mu_kind w = ''put'' then
        (if \<not> db_has d (mu_bucket w) then Inl ErrBillingUnavailable
         else db_put (mu_bucket w) (mu_key w) (mu_value w) d)
      else if mu_kind w = ''delete'' then
        (if \<not> db_has d (mu_bucket w) then Inl ErrBillingUnavailable
         else db_del (mu_bucket w) (mu_key w) d)
      else if mu_kind w = ''sequence'' then
        (if \<not> db_has d (mu_bucket w) then Inl ErrBillingUnavailable
         else db_set_seq (mu_bucket w) (mu_seq w) d)
      else Inl ErrBillingUnavailable)"

fun apply_mutations :: "doc mutation list \<Rightarrow> db \<Rightarrow> go_error + db" where
  "apply_mutations [] d = Inr d"
| "apply_mutations (w # ws) d = andThen (apply_mutation w d) (apply_mutations ws)"

lemma apply_mutations_append:
  "apply_mutations (ws @ vs) d = andThen (apply_mutations ws d) (apply_mutations vs)"
  by (induction ws arbitrary: d) (auto simp: andThen_def split: sum.splits)

section \<open>The commit path\<close>

text \<open>
  What the environment decides of a transaction: whether the commit succeeds (a failed commit
  may or may not have reached the file) and how many bytes the journal occupies.
\<close>

datatype commit_outcome = Committed | CommitFailed bool

record bolt_io =
  io_commit :: commit_outcome
  io_journal_inuse :: nat

definition journal_limit :: nat where
  "journal_limit = 128 * 1024 * 1024"

text \<open>The part of \<open>updateLocked\<close> after the body: generation, session check and journal entry.\<close>

definition finish_update :: "bolt_io \<Rightarrow> mtx \<Rightarrow> go_error + db" where
  "finish_update io t =
     (if mt_writes t = [] then Inr (mt_db t)
      else
        let g = meta_uint (mt_db t) ''mutation_generation''
        in if g = - 1 then Inl ErrBillingUnavailable
           else andThen (t_put ''meta'' ''mutation_generation'' (Raw (sequence_key (g + 1))) t) (\<lambda>t.
             if meta_get (mt_db t) ''compaction_session'' = None then Inr (mt_db t)
             else if io_journal_inuse io > journal_limit
             then db_del ''meta'' ''compaction_session'' (mt_db t)
             else db_put ''mutation_journal'' (sequence_key (g + 1)) (DWrites (mt_writes t)) (mt_db t)))"

definition run_update :: "bolt_io \<Rightarrow> (mtx \<Rightarrow> go_error + ('a \<times> mtx)) \<Rightarrow> db \<Rightarrow> go_error + ('a \<times> db)" where
  "run_update io body d =
     andThen (body (begin_tx d)) (\<lambda>(a, t). andThen (finish_update io t) (\<lambda>d'. Inr (a, d')))"

lemma run_update_Inr:
  "(run_update io body d = Inr (a, d')) =
     (\<exists>t. body (begin_tx d) = Inr (a, t) \<and> finish_update io t = Inr d')"
  by (auto simp: run_update_def)

lemma begin_tx_simps [simp]: "mt_db (begin_tx d) = d" "mt_writes (begin_tx d) = []"
  by (simp_all add: begin_tx_def)

lemma sequence_key_size [simp]: "length (sequence_key n) \<le> 32768"
  by simp

lemma finish_update_cases:
  assumes "finish_update io t = Inr d'"
  obtains
    (idle) "mt_writes t = []" "d' = mt_db t"
  | (plain) g where "mt_writes t \<noteq> []" "g = meta_uint (mt_db t) ''mutation_generation''" "g \<noteq> - 1"
      "db_has (mt_db t) ''meta''"
      "meta_get (mt_db t) ''compaction_session'' = None"
      "d' = set_key ''meta'' ''mutation_generation'' (Raw (sequence_key (g + 1))) (mt_db t)"
  | (dropped) g where "mt_writes t \<noteq> []" "g = meta_uint (mt_db t) ''mutation_generation''" "g \<noteq> - 1"
      "db_has (mt_db t) ''meta''"
      "meta_get (mt_db t) ''compaction_session'' \<noteq> None" "io_journal_inuse io > journal_limit"
      "d' = del_key ''meta'' ''compaction_session''
              (set_key ''meta'' ''mutation_generation'' (Raw (sequence_key (g + 1))) (mt_db t))"
  | (journalled) g where "mt_writes t \<noteq> []" "g = meta_uint (mt_db t) ''mutation_generation''" "g \<noteq> - 1"
      "db_has (mt_db t) ''meta''" "db_has (mt_db t) ''mutation_journal''"
      "meta_get (mt_db t) ''compaction_session'' \<noteq> None" "io_journal_inuse io \<le> journal_limit"
      "d' = set_key ''mutation_journal'' (sequence_key (g + 1))
              (DWrites (mt_writes t @
                 [Mutation ''meta'' ''mutation_generation'' (Raw (sequence_key (g + 1))) ''put'' 0]))
              (set_key ''meta'' ''mutation_generation'' (Raw (sequence_key (g + 1))) (mt_db t))"
  using assms
  by (auto simp: finish_update_def Let_def split: if_splits)

text \<open>What a committed update leaves alone: every bucket but \<open>meta\<close> and the journal, and
  every \<open>meta\<close> key but the generation and the session.\<close>

lemma finish_update_frame:
  assumes "finish_update io t = Inr d'"
  shows "b \<notin> {''meta'', ''mutation_journal''} \<Longrightarrow> db_get d' b k = db_get (mt_db t) b k"
    and "b \<notin> {''meta'', ''mutation_journal''} \<Longrightarrow> db_entries d' b = db_entries (mt_db t) b"
    and "db_seq d' b = db_seq (mt_db t) b"
    and "db_has d' b = db_has (mt_db t) b"
    and "k \<notin> {''mutation_generation'', ''compaction_session''} \<Longrightarrow> meta_get d' k = meta_get (mt_db t) k"
    and "db_ordered (mt_db t) \<Longrightarrow> db_ordered d'"
  using assms by (auto elim!: finish_update_cases)

lemma finish_update_generation:
  assumes "finish_update io t = Inr d'" "mt_writes t \<noteq> []"
  shows "meta_get d' ''mutation_generation'' =
           Some (Raw (sequence_key (meta_uint (mt_db t) ''mutation_generation'' + 1)))"
    and "meta_uint (mt_db t) ''mutation_generation'' \<noteq> - 1"
  using assms by (auto elim!: finish_update_cases)

section \<open>Journalled bodies\<close>

text \<open>
  A transaction body keeps the contract of the gateway when its effect on the database is the
  replay of the writes it recorded, none of which touches the journal or the keys the gateway
  and the store identity own. Everything online compaction relies on follows from it.
\<close>

definition protected_keys :: "bytes list" where
  "protected_keys = [''mutation_generation'', ''compaction_session'', ''version'', ''identity'']"

definition domain_write :: "doc mutation \<Rightarrow> bool" where
  "domain_write w =
     (mu_bucket w \<noteq> ''mutation_journal'' \<and> (mu_bucket w = ''meta'' \<longrightarrow> mu_key w \<notin> set protected_keys))"

text \<open>Two databases that agree on every bucket but the journal.\<close>

definition same_domain :: "db \<Rightarrow> db \<Rightarrow> bool" where
  "same_domain d e = (\<forall>b. b \<noteq> ''mutation_journal'' \<longrightarrow> aget d b = aget e b)"

lemma same_domain_refl [simp, intro]: "same_domain d d"
  by (simp add: same_domain_def)

lemma same_domain_sym: "same_domain d e \<Longrightarrow> same_domain e d"
  by (simp add: same_domain_def)

lemma same_domain_trans [trans]: "same_domain d e \<Longrightarrow> same_domain e f \<Longrightarrow> same_domain d f"
  by (simp add: same_domain_def)

lemma same_domain_reads:
  assumes "same_domain d e" "b \<noteq> ''mutation_journal''"
  shows "db_has d b = db_has e b" "db_entries d b = db_entries e b" "db_get d b = db_get e b"
    "db_seq d b = db_seq e b"
  using assms by (auto simp: same_domain_def db_has_def db_entries_def db_get_def db_seq_def fun_eq_iff)

lemma same_domain_journal: "same_domain d (set_key ''mutation_journal'' k v d)"
  by (simp add: same_domain_def set_key_def)

lemma same_domain_on_bucket:
  "same_domain d e \<Longrightarrow> same_domain (on_bucket f b d) (on_bucket f b e)"
  by (simp add: same_domain_def)

lemma same_domain_add_bucket: "same_domain d e \<Longrightarrow> same_domain (add_bucket b d) (add_bucket b e)"
  by (auto simp: same_domain_def add_bucket_def db_has_def)

lemma apply_mutation_same_domain:
  assumes "same_domain d e" "apply_mutation w d = Inr d'"
  shows "\<exists>e'. apply_mutation w e = Inr e' \<and> same_domain d' e'"
proof -
  have "mu_bucket w \<noteq> ''mutation_journal''" using assms(2) by (auto simp: apply_mutation_def split: if_splits)
  note has = same_domain_reads(1) [OF assms(1) this]
  from assms(2) show ?thesis
    unfolding apply_mutation_def set_key_def del_key_def set_seq_def has
    by (auto simp: has set_key_def del_key_def set_seq_def split: if_splits
        intro!: same_domain_on_bucket same_domain_add_bucket assms(1))
qed

lemma apply_mutations_same_domain:
  assumes "same_domain d e" "apply_mutations ws d = Inr d'"
  shows "\<exists>e'. apply_mutations ws e = Inr e' \<and> same_domain d' e'"
  using assms
proof (induction ws arbitrary: d e)
  case (Cons w ws)
  from Cons.prems(2) obtain u where u: "apply_mutation w d = Inr u" "apply_mutations ws u = Inr d'" by auto
  from apply_mutation_same_domain [OF Cons.prems(1) u(1)] obtain v where
    v: "apply_mutation w e = Inr v" "same_domain u v" by blast
  from Cons.IH [OF v(2) u(2)] v(1) show ?case by auto
qed auto

lemma bucket_after:
  "b' \<noteq> b \<Longrightarrow> aget (set_key b k v d) b' = aget d b'"
  "b' \<noteq> b \<Longrightarrow> aget (del_key b k d) b' = aget d b'"
  "b' \<noteq> b \<Longrightarrow> aget (set_seq b n d) b' = aget d b'"
  "b' \<noteq> b \<Longrightarrow> aget (add_bucket b d) b' = aget d b'"
  by (simp_all add: set_key_def del_key_def set_seq_def add_bucket_def)

lemma apply_mutation_frame:
  assumes "apply_mutation w d = Inr d'" "domain_write w"
  shows "aget d' ''mutation_journal'' = aget d ''mutation_journal''"
    and "k \<in> set protected_keys \<Longrightarrow> meta_get d' k = meta_get d k"
    and "db_has d b \<Longrightarrow> db_has d' b"
  using assms by (auto simp: apply_mutation_def domain_write_def bucket_after split: if_splits)

lemma replay_frame:
  assumes "apply_mutations ws d = Inr d'" "list_all domain_write ws"
  shows "aget d' ''mutation_journal'' = aget d ''mutation_journal''"
    and "k \<in> set protected_keys \<Longrightarrow> meta_get d' k = meta_get d k"
    and "db_has d b \<Longrightarrow> db_has d' b"
proof -
  have "aget d' ''mutation_journal'' = aget d ''mutation_journal''
      \<and> (\<forall>k \<in> set protected_keys. meta_get d' k = meta_get d k) \<and> (db_has d b \<longrightarrow> db_has d' b)"
    using assms
  proof (induction ws arbitrary: d)
    case (Cons w ws)
    from Cons.prems obtain u where u: "apply_mutation w d = Inr u" "apply_mutations ws u = Inr d'" by auto
    have w: "domain_write w" using Cons.prems(2) by simp
    show ?case
      using Cons.IH [OF u(2)] Cons.prems(2) apply_mutation_frame [OF u(1) w] by auto
  qed simp
  then show "aget d' ''mutation_journal'' = aget d ''mutation_journal''"
    "k \<in> set protected_keys \<Longrightarrow> meta_get d' k = meta_get d k" "db_has d b \<Longrightarrow> db_has d' b"
    by auto
qed

definition records_effect :: "mtx \<Rightarrow> mtx \<Rightarrow> bool" where
  "records_effect t t' =
     (\<exists>ws. mt_writes t' = mt_writes t @ ws \<and> list_all domain_write ws
           \<and> apply_mutations ws (mt_db t) = Inr (mt_db t'))"

lemma records_effect_refl [simp, intro]: "records_effect t t"
  by (simp add: records_effect_def)

lemma records_effect_trans [trans]:
  assumes "records_effect t u" "records_effect u v"
  shows "records_effect t v"
proof -
  from assms obtain ws vs where
    "mt_writes u = mt_writes t @ ws" "list_all domain_write ws" "apply_mutations ws (mt_db t) = Inr (mt_db u)"
    "mt_writes v = mt_writes u @ vs" "list_all domain_write vs" "apply_mutations vs (mt_db u) = Inr (mt_db v)"
    unfolding records_effect_def by blast
  then show ?thesis
    unfolding records_effect_def
    by (intro exI [of _ "ws @ vs"]) (simp add: apply_mutations_append)
qed

definition domain_key :: "bytes \<Rightarrow> bytes \<Rightarrow> bool" where
  "domain_key b k = (b \<noteq> ''mutation_journal'' \<and> (b = ''meta'' \<longrightarrow> k \<notin> set protected_keys))"

lemma protected_nonempty [simp]: "[] \<notin> set protected_keys"
  by (simp add: protected_keys_def)

lemma records_effect_calls:
  "t_put b k v t = Inr t' \<Longrightarrow> domain_key b k \<Longrightarrow> records_effect t t'"
  "t_del b k t = Inr t' \<Longrightarrow> domain_key b k \<Longrightarrow> records_effect t t'"
  "t_set_sequence b n t = Inr t' \<Longrightarrow> b \<noteq> ''mutation_journal'' \<Longrightarrow> records_effect t t'"
  "t_next_sequence b t = Inr (s, t') \<Longrightarrow> b \<noteq> ''mutation_journal'' \<Longrightarrow> records_effect t t'"
  by (auto simp: records_effect_def domain_write_def domain_key_def apply_mutation_def)

lemma records_effect_puts:
  "t_puts ps t = Inr t' \<Longrightarrow> list_all (\<lambda>(b, k, v). domain_key b k) ps \<Longrightarrow> records_effect t t'"
proof (induction ps t rule: t_puts.induct)
  case (2 b k v ps t)
  from "2.prems"(1) obtain u where u: "t_put b k v t = Inr u" "t_puts ps u = Inr t'" by auto
  have "records_effect t u" using u(1) "2.prems"(2) by (intro records_effect_calls(1)) auto
  moreover have "records_effect u t'" using "2.IH" [OF u(2)] "2.prems"(2) by auto
  ultimately show ?case by (rule records_effect_trans)
qed simp

lemma records_effect_for_state:
  assumes "for_state f xs s = Inr s'"
    and "\<And>x s s'. x \<in> set xs \<Longrightarrow> f x s = Inr s' \<Longrightarrow> records_effect (tx_of s) (tx_of s')"
  shows "records_effect (tx_of s) (tx_of s')"
  using assms
proof (induction xs arbitrary: s)
  case (Cons x xs)
  from Cons.prems(1) obtain u where u: "f x s = Inr u" "for_state f xs u = Inr s'" by auto
  have "records_effect (tx_of s) (tx_of u)" by (rule Cons.prems(2) [OF _ u(1)]) simp
  moreover have "records_effect (tx_of u) (tx_of s')" by (rule Cons.IH [OF u(2)]) (use Cons.prems(2) in auto)
  ultimately show ?case by (rule records_effect_trans)
qed simp

text \<open>
  What one committed update does to the database, seen from the journal. Without a session, or
  when the journal has outgrown its bound, the generation moves and the journal does not; with
  a session, the journal gains under the new generation writes whose replay on the old
  database gives the new one.
\<close>

abbreviation session_of :: "db \<Rightarrow> doc option" where
  "session_of d \<equiv> meta_get d ''compaction_session''"

abbreviation generation_of :: "db \<Rightarrow> u64" where
  "generation_of d \<equiv> meta_uint d ''mutation_generation''"

definition journal_step :: "db \<Rightarrow> db \<Rightarrow> bool" where
  "journal_step d d' =
     (d' = d \<or>
      generation_of d \<noteq> - 1 \<and> generation_of d' = generation_of d + 1
      \<and> meta_get d' ''version'' = meta_get d ''version'' \<and> meta_get d' ''identity'' = meta_get d ''identity''
      \<and> (session_of d' = None \<and> db_entries d' ''mutation_journal'' = db_entries d ''mutation_journal''
         \<or> session_of d \<noteq> None \<and> session_of d' = session_of d
           \<and> (\<exists>ws e. db_entries d' ''mutation_journal'' =
                        aput (sequence_key (generation_of d + 1)) (DWrites ws) (db_entries d ''mutation_journal'')
                   \<and> apply_mutations ws d = Inr e \<and> same_domain e d')))"

lemma journal_step_refl [simp, intro]: "journal_step d d"
  by (simp add: journal_step_def)

locale journalled_body =
  fixes body :: "mtx \<Rightarrow> go_error + ('a \<times> mtx)" and pre :: "db \<Rightarrow> bool"
  assumes records: "pre (mt_db t) \<Longrightarrow> body t = Inr (a, t') \<Longrightarrow> records_effect t t'"
begin

lemma update_step:
  assumes "pre d" "run_update io body d = Inr (a, d')"
  shows "journal_step d d'"
proof -
  from assms(2) obtain t where t: "body (begin_tx d) = Inr (a, t)" "finish_update io t = Inr d'"
    by (auto simp: run_update_Inr)
  from records [OF _ t(1)] assms(1) have
    eff: "apply_mutations (mt_writes t) d = Inr (mt_db t)" and dom: "list_all domain_write (mt_writes t)"
    by (auto simp: records_effect_def)
  note frame = replay_frame [OF eff dom]
  have kept: "meta_get (mt_db t) k = meta_get d k"
    if "k \<in> {''mutation_generation'', ''compaction_session'', ''version'', ''identity''}" for k
    using that frame(2) by (auto simp: protected_keys_def)
  have entries: "db_entries (mt_db t) ''mutation_journal'' = db_entries d ''mutation_journal''"
    using frame(1) by (simp add: db_entries_def)
  from t(2) show ?thesis
  proof (cases rule: finish_update_cases)
    case idle
    with eff show ?thesis by simp
  next
    case (plain g)
    then show ?thesis using kept entries by (simp add: journal_step_def)
  next
    case (dropped g)
    then show ?thesis using kept entries by (simp add: journal_step_def)
  next
    case (journalled g)
    let ?w = "Mutation ''meta'' ''mutation_generation'' (Raw (sequence_key (g + 1))) ''put'' 0"
    let ?e = "set_key ''meta'' ''mutation_generation'' (Raw (sequence_key (g + 1))) (mt_db t)"
    have "apply_mutations (mt_writes t @ [?w]) d = Inr ?e"
      using eff journalled(4) by (simp add: apply_mutations_append apply_mutation_def)
    moreover have "same_domain ?e d'" by (simp add: journalled(8) same_domain_journal)
    moreover have "db_entries d' ''mutation_journal'' =
        aput (sequence_key (generation_of d + 1)) (DWrites (mt_writes t @ [?w])) (db_entries d ''mutation_journal'')"
      using journalled kept entries by simp
    ultimately show ?thesis using journalled kept unfolding journal_step_def by auto
  qed
qed

end

end
