(* ===== verification/Inbox.thy ===== *)
theory Inbox
  imports Bolt
begin

text \<open>
  \<open>billing_inbox.go\<close>: the retained inbox for periodic usage snapshots. An \<open>inbox\<close> is the
  struct \<open>BillingInbox\<close> with its database; \<open>billing_binding\<close> normalises and hashes an event,
  \<open>insert_event\<close> commits it once, \<open>page\<close> walks the committed sequence under a frozen horizon.
\<close>

section \<open>State\<close>

text \<open>\<open>LifecycleConfig\<close> (billing_lifecycle.go), with the decoded key maps.\<close>

record lifecycle_config =
  lc_env :: bytes
  lc_sources :: "bytes list"
  lc_stack :: bytes
  lc_scratch :: bytes
  lc_key_id :: bytes
  lc_recipients :: "bytes list"
  lc_verifier_text :: "(bytes \<times> doc b64) list"
  lc_recovery_text :: "(bytes \<times> doc b64) list"
  lc_authority_url :: bytes
  lc_authority_token :: bytes
  lc_retention_days :: int
  lc_part_bytes :: int
  lc_scratch_capacity :: int
  lc_cache_max :: int
  lc_backup :: bool
  lc_retire :: bool
  lc_compact :: bool
  lc_interval :: int
  lc_keys :: "(bytes \<times> bytes) list"
  lc_recovery_keys :: "(bytes \<times> bytes) list"

definition no_lifecycle :: lifecycle_config where
  "no_lifecycle =
     \<lparr>lc_env = [], lc_sources = [], lc_stack = [], lc_scratch = [], lc_key_id = [], lc_recipients = [],
      lc_verifier_text = [], lc_recovery_text = [], lc_authority_url = [], lc_authority_token = [],
      lc_retention_days = 0, lc_part_bytes = 0, lc_scratch_capacity = 0, lc_cache_max = 0,
      lc_backup = False, lc_retire = False, lc_compact = False, lc_interval = 0, lc_keys = [],
      lc_recovery_keys = []\<rparr>"

record inbox =
  ib_db :: db
  ib_failed :: bool
  ib_closed :: bool
  ib_recovering :: bool
  ib_cfg :: lifecycle_config

text \<open>
  What the environment contributes to one call: its context, the successive readings of the
  clock, whether the database file is still the private regular file that was opened (the
  \<open>Lstat\<close> of the successive \<open>Health\<close> calls), and the outcome of the commit.
\<close>

record call =
  cl_ctx :: ctx
  cl_now :: "nat \<Rightarrow> gtime"
  cl_file_ok :: "nat \<Rightarrow> bool"
  cl_io :: bolt_io

section \<open>The commit gateway\<close>

text \<open>\<open>updateLocked\<close> on the inbox: \<open>db.Update\<close> keeps the database unless the commit succeeds; the
  outcome of a failed commit is not known to the caller.\<close>

definition update_locked ::
    "bolt_io \<Rightarrow> (mtx \<Rightarrow> go_error + ('a \<times> mtx)) \<Rightarrow> inbox \<Rightarrow> (go_error + 'a) \<times> inbox" where
  "update_locked io body ib =
     (if ib_closed ib \<or> ib_failed ib then (Inl ErrBillingUnavailable, ib)
      else case run_update io body (ib_db ib) of
             Inl e \<Rightarrow> (Inl e, ib)
           | Inr (a, d) \<Rightarrow>
               (case io_commit io of
                  Committed \<Rightarrow> (Inr a, ib\<lparr>ib_db := d\<rparr>)
                | CommitFailed written \<Rightarrow>
                    (Inl (ErrMsg ''commit failed''), if written then ib\<lparr>ib_db := d\<rparr> else ib)))"

definition health :: "call \<Rightarrow> nat \<Rightarrow> nat \<Rightarrow> inbox \<Rightarrow> go_error + unit" where
  "health c n k ib =
     andThen (ctx_check (cl_ctx c) n) (\<lambda>_.
       if ib_failed ib \<or> ib_closed ib \<or> ib_recovering ib then Inl ErrBillingUnavailable
       else if \<not> cl_file_ok c k then Inl ErrBillingUnavailable
       else Inr ())"

definition close_inbox :: "inbox \<Rightarrow> inbox" where
  "close_inbox ib = ib\<lparr>ib_closed := True\<rparr>"

lemma health_Inr:
  "(health c n k ib = Inr u) =
     (cl_ctx c n = None \<and> \<not> ib_failed ib \<and> \<not> ib_closed ib \<and> \<not> ib_recovering ib \<and> cl_file_ok c k)"
  by (auto simp: health_def)

lemma update_locked_cases:
  assumes "update_locked io body ib = (r, ib')"
  obtains
    (refused) "ib_closed ib \<or> ib_failed ib" "r = Inl ErrBillingUnavailable" "ib' = ib"
  | (aborted) e where "run_update io body (ib_db ib) = Inl e" "r = Inl e" "ib' = ib"
  | (committed) a d where "run_update io body (ib_db ib) = Inr (a, d)" "r = Inr a" "ib' = ib\<lparr>ib_db := d\<rparr>"
  | (lost) a d where "run_update io body (ib_db ib) = Inr (a, d)" "r = Inl (ErrMsg ''commit failed'')" "ib' = ib"
  | (unknown) a d where "run_update io body (ib_db ib) = Inr (a, d)" "r = Inl (ErrMsg ''commit failed'')"
      "ib' = ib\<lparr>ib_db := d\<rparr>"
proof (cases "ib_closed ib \<or> ib_failed ib")
  case True
  then have "(r, ib') = (Inl ErrBillingUnavailable, ib)" using assms by (simp add: update_locked_def)
  then show ?thesis using True refused by blast
next
  case False
  then have res: "(r, ib') =
      (case run_update io body (ib_db ib) of
         Inl e \<Rightarrow> (Inl e, ib)
       | Inr (a, d) \<Rightarrow>
           (case io_commit io of
              Committed \<Rightarrow> (Inr a, ib\<lparr>ib_db := d\<rparr>)
            | CommitFailed written \<Rightarrow>
                (Inl (ErrMsg ''commit failed''), if written then ib\<lparr>ib_db := d\<rparr> else ib)))"
    using assms by (simp add: update_locked_def)
  show ?thesis
  proof (cases "run_update io body (ib_db ib)")
    case (Inl e)
    with res have "r = Inl e" "ib' = ib" by simp_all
    with Inl show ?thesis by (rule aborted)
  next
    case (Inr ad)
    then obtain a d where ad: "run_update io body (ib_db ib) = Inr (a, d)" by (cases ad) auto
    show ?thesis
    proof (cases "io_commit io")
      case Committed
      with res ad have "r = Inr a" "ib' = ib\<lparr>ib_db := d\<rparr>" by simp_all
      with ad show ?thesis by (rule committed)
    next
      case (CommitFailed written)
      show ?thesis
      proof (cases written)
        case True
        with CommitFailed res ad have "r = Inl (ErrMsg ''commit failed'')" "ib' = ib\<lparr>ib_db := d\<rparr>"
          by simp_all
        with ad show ?thesis by (rule unknown)
      next
        case False
        with CommitFailed res ad have "r = Inl (ErrMsg ''commit failed'')" "ib' = ib" by simp_all
        with ad show ?thesis by (rule lost)
      qed
    qed
  qed
qed

lemma update_locked_Inr:
  assumes "update_locked io body ib = (Inr a, ib')"
  shows "\<not> ib_closed ib" "\<not> ib_failed ib" "run_update io body (ib_db ib) = Inr (a, ib_db ib')"
    "\<exists>d. ib' = ib\<lparr>ib_db := d\<rparr>"
proof -
  have "\<not> ib_closed ib \<and> \<not> ib_failed ib"
    using assms by (auto simp: update_locked_def split: if_splits)
  then show "\<not> ib_closed ib" "\<not> ib_failed ib" by auto
  show "run_update io body (ib_db ib) = Inr (a, ib_db ib')"
    using assms by (cases rule: update_locked_cases) auto
  show "\<exists>d. ib' = ib\<lparr>ib_db := d\<rparr>"
    using assms by (cases rule: update_locked_cases) auto
qed

lemma update_locked_flags:
  "update_locked io body ib = (r, ib') \<Longrightarrow>
     ib_failed ib' = ib_failed ib \<and> ib_closed ib' = ib_closed ib
     \<and> ib_recovering ib' = ib_recovering ib \<and> ib_cfg ib' = ib_cfg ib"
  by (erule update_locked_cases) auto

section \<open>The content binding\<close>

definition max_event_bytes :: nat where "max_event_bytes = 1048576"
definition max_event_id :: nat where "max_event_id = 4096"

text \<open>
  \<open>billingBinding\<close>: the event with canonical fields, redacted, in UTC, and the digest of its
  usage and isolation fields.
\<close>

definition billing_binding :: "crypto \<Rightarrow> log_event \<Rightarrow> go_error + (log_event \<times> bytes)" where
  "billing_binding cr e =
     andThen (validate_event e) (\<lambda>_.
       if ev_stream e \<noteq> ''billing_usage'' \<or> ev_source e \<noteq> ''billing_usage''
          \<or> aget (ev_fields e) ''usage_event'' \<in> {None, Some JNull}
       then Inl (ErrMsg ''billing usage envelope required'')
       else if \<not> json_ok_map (ev_fields e) then Inl (ErrMsg ''json: invalid number literal'')
       else
         let e = e\<lparr>ev_fields := canon_map (ev_fields e)\<rparr>
         in if \<not> event_json_ok e \<or> event_json_len e > max_event_bytes \<or> length (ev_id e) > max_event_id
            then Inl (ErrMsg ''invalid or oversized billing event'')
            else
              let before = ev_fields e; e = redact_event e
              in if ev_fields e \<noteq> before
                 then Inl (ErrMsg ''billing usage fields must not require redaction'')
                 else
                   let e = e\<lparr>ev_time := utc (ev_time e)\<rparr>
                   in if \<not> time_json_ok (ev_time e) then Inl (ErrMsg ''Time.MarshalJSON: year outside of range [0,9999]'')
                      else Inr (e, sha cr (DFinancial (ev_id e) (ev_env e) (ev_stream e) (ev_source e)
                                             (ev_time e) (ev_fields e))))"

section \<open>Inserting\<close>

text \<open>The branch of \<open>InsertEvent\<close> for an event identifier that has a receipt already.\<close>

definition existing_receipt :: "crypto \<Rightarrow> db \<Rightarrow> bytes \<Rightarrow> bytes \<Rightarrow> doc \<Rightarrow> go_error" where
  "existing_receipt cr d eid digest key =
     (case key of
        DBinding b \<Rightarrow>
          if rb_seq b = 0 \<or> rb_seq b > db_seq d ''events'' \<or> \<not> valid_digest (rb_content b)
             \<or> \<not> valid_digest (rb_record b) then ErrBillingUnavailable
          else if \<not> db_has d ''receipt_ids'' then ErrPanic
          else if db_get d ''receipt_ids'' (sequence_key (rb_seq b)) \<noteq> Some (Raw eid)
          then ErrBillingUnavailable
          else (case db_get d ''events'' (sequence_key (rb_seq b)) of
                  Some body \<Rightarrow>
                    if sha cr body \<noteq> rb_record b then ErrBillingUnavailable
                    else if rb_content b \<noteq> digest then ErrBillingConflict else ErrDuplicateEvent
                | None \<Rightarrow> if rb_content b \<noteq> digest then ErrBillingConflict else ErrDuplicateEvent)
      | Raw k \<Rightarrow>
          if length k \<noteq> 8 then ErrBillingUnavailable
          else (case as_record (db_get d ''events'' k) of
                  None \<Rightarrow> ErrBillingUnavailable
                | Some previous \<Rightarrow>
                    (case billing_binding cr (br_event previous) of
                       Inl _ \<Rightarrow> ErrBillingUnavailable
                     | Inr (_, stored) \<Rightarrow>
                         if stored \<noteq> br_digest previous \<or> ev_id (br_event previous) \<noteq> eid
                            \<or> br_seq previous \<noteq> key_uint k then ErrBillingUnavailable
                         else if br_digest previous \<noteq> digest then ErrBillingConflict
                         else ErrDuplicateEvent))
      | _ \<Rightarrow> ErrBillingUnavailable)"

definition new_receipt :: "crypto \<Rightarrow> db \<Rightarrow> u64 \<Rightarrow> log_event \<Rightarrow> bytes \<Rightarrow> gtime \<Rightarrow> (bytes \<times> bytes \<times> doc) list" where
  "new_receipt cr d n e digest received =
     (let body = DRecord \<lparr>br_seq = n, br_digest = digest, br_event = e\<rparr>; key = sequence_key n
      in (''events'', key, body) #
         (if as_text (meta_get d ''version'') \<noteq> Some ''1''
          then [(''ids'', ev_id e, DBinding \<lparr>rb_seq = n, rb_content = digest, rb_record = sha cr body\<rparr>),
                (''receipt_ids'', key, Raw (ev_id e)),
                (''receipt_times'', key, DTime (utc received))]
          else [(''ids'', ev_id e, Raw key)]))"

definition insert_body ::
    "crypto \<Rightarrow> ctx \<Rightarrow> gtime \<Rightarrow> log_event \<Rightarrow> bytes \<Rightarrow> mtx \<Rightarrow> go_error + (unit \<times> mtx)" where
  "insert_body cr c now e digest t =
     andThen (ctx_check c 1) (\<lambda>_.
       case db_get (mt_db t) ''ids'' (ev_id e) of
         Some key \<Rightarrow> Inl (existing_receipt cr (mt_db t) (ev_id e) digest key)
       | None \<Rightarrow>
           (case t_next_sequence ''events'' t of
              Inl _ \<Rightarrow> Inl ErrBillingUnavailable
            | Inr (n, t) \<Rightarrow>
                if n = 0 then Inl ErrBillingUnavailable
                else andThen (t_puts (new_receipt cr (mt_db t) n e digest now) t) (\<lambda>t. Inr ((), t))))"

text \<open>Errors after which the inbox stays usable; a panic leaves the flags alone.\<close>

definition benign_error :: "go_error \<Rightarrow> bool" where
  "benign_error e = (e \<in> {ErrDuplicateEvent, ErrBillingConflict, CtxCanceled, CtxDeadlineExceeded})"

definition insert_event :: "crypto \<Rightarrow> call \<Rightarrow> log_event \<Rightarrow> inbox \<Rightarrow> (go_error + unit) \<times> inbox" where
  "insert_event cr c e ib =
     (case health c 0 0 ib of
        Inl x \<Rightarrow> (Inl x, ib)
      | Inr _ \<Rightarrow>
          (case billing_binding cr e of
             Inl x \<Rightarrow> (Inl x, ib)
           | Inr (e, digest) \<Rightarrow>
               if ib_failed ib \<or> ib_recovering ib \<or> ib_closed ib then (Inl ErrBillingUnavailable, ib)
               else
                 (case update_locked (cl_io c) (insert_body cr (cl_ctx c) (cl_now c 0) e digest) ib of
                    (Inl x, ib) \<Rightarrow>
                      if benign_error x \<or> x = ErrPanic then (Inl x, ib)
                      else (Inl ErrBillingUnavailable, ib\<lparr>ib_failed := True\<rparr>)
                  | (Inr u, ib) \<Rightarrow> (Inr u, ib))))"

section \<open>Paging\<close>

text \<open>\<open>billingCursor\<close>, and what the text of a cursor decodes to: nothing, a cursor, or not a
  cursor (longer than 512 bytes, not base64 or not the JSON of one).\<close>

record billing_cursor =
  bc_store :: bytes
  bc_after :: u64
  bc_through :: u64

datatype cursor_text = NoCursor | Cursor billing_cursor | BadCursor

record billing_page =
  bp_store :: bytes
  bp_high :: u64
  bp_records :: "billing_record list"
  bp_next :: billing_cursor
  bp_more :: bool

definition max_query_limit :: int where "max_query_limit = 1000"
definition max_page_bytes :: nat where "max_page_bytes = 8388608"

text \<open>The bytes of a sequence: the live event, or below the archive floor its rehydrated copy.\<close>

definition page_fetch :: "db \<Rightarrow> u64 \<Rightarrow> u64 \<Rightarrow> go_error + doc" where
  "page_fetch d fl n =
     (case db_get d ''events'' (sequence_key n) of
        Some body \<Rightarrow> Inr body
      | None \<Rightarrow>
          if n \<le> fl then
            (case db_get d ''archive_cache'' (sequence_key n) of
               None \<Rightarrow> Inl ErrBillingArchiveUnavailable
             | Some body \<Rightarrow> Inr body)
          else Inl ErrBillingUnavailable)"

definition page_check :: "crypto \<Rightarrow> db \<Rightarrow> u64 \<Rightarrow> doc \<Rightarrow> go_error + billing_record" where
  "page_check cr d n body =
     (case as_record (Some body) of
        None \<Rightarrow> Inl ErrBillingUnavailable
      | Some r \<Rightarrow>
          if br_seq r \<noteq> n then Inl ErrBillingUnavailable
          else
            (case billing_binding cr (br_event r) of
               Inl _ \<Rightarrow> Inl ErrBillingUnavailable
             | Inr (_, digest) \<Rightarrow>
                 if digest \<noteq> br_digest r then Inl ErrBillingUnavailable
                 else
                   let key = db_get d ''ids'' (ev_id (br_event r))
                   in if is_key8 key then Inr r
                      else (case as_binding key of
                              None \<Rightarrow> Inl ErrBillingUnavailable
                            | Some b \<Rightarrow>
                                if rb_seq b \<noteq> br_seq r \<or> rb_content b \<noteq> br_digest r
                                   \<or> rb_record b \<noteq> sha cr body
                                then Inl ErrBillingUnavailable else Inr r)))"

text \<open>The loop: at most \<open>k\<close> further records, \<open>n\<close> records and \<open>bytes\<close> bytes read so far.\<close>

fun page_loop ::
    "crypto \<Rightarrow> ctx \<Rightarrow> db \<Rightarrow> u64 \<Rightarrow> u64 \<Rightarrow> nat \<Rightarrow> nat \<Rightarrow> nat \<Rightarrow> u64 \<Rightarrow> go_error + (u64 \<times> billing_record list)" where
  "page_loop cr c d fl through 0 n bytes pos = Inr (pos, [])"
| "page_loop cr c d fl through (Suc k) n bytes pos =
     (if \<not> pos < through then Inr (pos, [])
      else
        andThen (ctx_check c (n + 1)) (\<lambda>_.
          andThen (page_fetch d fl (pos + 1)) (\<lambda>body.
            if bytes + body_len body > max_page_bytes \<and> n > 0 then Inr (pos, [])
            else
              andThen (page_check cr d (pos + 1) body) (\<lambda>r.
                andThen (page_loop cr c d fl through k (n + 1) (bytes + body_len body) (pos + 1)) (\<lambda>(pos', rs).
                  Inr (pos', r # rs))))))"

definition page_start :: "db \<Rightarrow> cursor_text \<Rightarrow> go_error + billing_cursor" where
  "page_start d text =
     (let store = (case as_text (meta_get d ''identity'') of None \<Rightarrow> [] | Some s \<Rightarrow> s);
          head = db_seq d ''events''
      in case text of
           BadCursor \<Rightarrow> Inl ErrBillingCursor
         | NoCursor \<Rightarrow> Inr \<lparr>bc_store = store, bc_after = 0, bc_through = head\<rparr>
         | Cursor cu \<Rightarrow>
             if length (bc_store cu) \<noteq> 32 \<or> bc_store cu \<noteq> store \<or> bc_after cu > head \<or> bc_through cu > head
                \<or> (bc_through cu \<noteq> 0 \<and> bc_after cu > bc_through cu)
             then Inl ErrBillingCursor
             else Inr (cu\<lparr>bc_through := (if bc_through cu = 0 then head else bc_through cu)\<rparr>))"

definition page_view :: "crypto \<Rightarrow> ctx \<Rightarrow> db \<Rightarrow> cursor_text \<Rightarrow> nat \<Rightarrow> go_error + billing_page" where
  "page_view cr c d text limit =
     andThen (page_start d text) (\<lambda>cu.
       andThen (page_loop cr c d (meta_uint d ''archive_floor'') (bc_through cu) limit 0 0 (bc_after cu))
         (\<lambda>(pos, rs).
            let more = (pos < bc_through cu)
            in Inr \<lparr>bp_store = bc_store cu, bp_high = bc_through cu, bp_records = rs,
                    bp_next = cu\<lparr>bc_after := pos, bc_through := (if more then bc_through cu else 0)\<rparr>,
                    bp_more = more\<rparr>))"

definition page :: "crypto \<Rightarrow> call \<Rightarrow> cursor_text \<Rightarrow> int \<Rightarrow> inbox \<Rightarrow> (go_error + billing_page) \<times> inbox" where
  "page cr c text limit ib =
     (case health c 0 0 ib of
        Inl x \<Rightarrow> (Inl x, ib)
      | Inr _ \<Rightarrow>
          if limit < 1 \<or> limit > max_query_limit then (Inl ErrBillingCursor, ib)
          else case page_view cr (cl_ctx c) (ib_db ib) text (nat limit) of
                 Inl x \<Rightarrow> (Inl x, if x = ErrBillingUnavailable then ib\<lparr>ib_failed := True\<rparr> else ib)
               | Inr p \<Rightarrow> (Inr p, ib))"

end
