(* ===== verification/Ledger.thy ===== *)
theory Ledger
  imports Inbox
begin

text \<open>
  What the inbox promises: it is a ledger, a list of event identifiers with their content
  digests in commit order. This theory says when a database represents a ledger, and shows
  that inserting appends to it, refuses a second content for an identifier for ever, and that
  the pages are its consecutive slices.
\<close>

section \<open>The content binding\<close>

definition bound_event :: "log_event \<Rightarrow> log_event" where
  "bound_event e =
     (redact_event (e\<lparr>ev_fields := canon_map (ev_fields e)\<rparr>))\<lparr>ev_time := utc (ev_time e)\<rparr>"

definition content_digest :: "crypto \<Rightarrow> log_event \<Rightarrow> bytes" where
  "content_digest cr e =
     sha cr (DFinancial (ev_id e) (ev_env e) (ev_stream e) (ev_source e) (ev_time e) (ev_fields e))"

text \<open>What \<open>billingBinding\<close> accepts.\<close>

definition bindable :: "log_event \<Rightarrow> bool" where
  "bindable e =
     (let f = canon_map (ev_fields e)
      in validate_event e = Inr () \<and> ev_stream e = ''billing_usage'' \<and> ev_source e = ''billing_usage''
         \<and> aget (ev_fields e) ''usage_event'' \<notin> {None, Some JNull}
         \<and> json_ok_map (ev_fields e) \<and> time_json_ok (ev_time e) \<and> json_ok_map f
         \<and> length (ev_id e) \<le> max_event_id \<and> secret_free_map f \<and> time_json_ok (utc (ev_time e)))"

definition fits :: "log_event \<Rightarrow> bool" where
  "fits e = (event_json_len (e\<lparr>ev_fields := canon_map (ev_fields e)\<rparr>) \<le> max_event_bytes)"

lemma billing_binding_Inr:
  "(billing_binding cr e = Inr (e', dg)) =
     (bindable e \<and> fits e \<and> e' = bound_event e \<and> dg = content_digest cr e')"
  by (auto simp: billing_binding_def bindable_def fits_def bound_event_def content_digest_def Let_def
      event_json_ok_def redact_map_fixed_iff)

lemma bound_event_simps [simp]:
  "ev_id (bound_event e) = ev_id e"
  "ev_env (bound_event e) = ev_env e"
  "ev_stream (bound_event e) = ev_stream e"
  "ev_source (bound_event e) = ev_source e"
  "ev_msg (bound_event e) = redact_text (ev_msg e)"
  "ev_time (bound_event e) = utc (ev_time e)"
  "ev_level (bound_event e) = ev_level e"
  "ev_service (bound_event e) = ev_service e"
  "ev_version (bound_event e) = ev_version e"
  "ev_host (bound_event e) = ev_host e"
  "ev_unit (bound_event e) = ev_unit e"
  "ev_fields (bound_event e) = redact_map (canon_map (ev_fields e))"
  by (simp_all add: bound_event_def)

lemma bindable_fields: "bindable e \<Longrightarrow> ev_fields (bound_event e) = canon_map (ev_fields e)"
  by (simp add: bindable_def Let_def redact_map_fixed_iff)

lemma aget_canon_map: "aget (canon_map m) k = map_option canon (aget m k)"
  by (induction m) auto

lemma canon_JNull [simp]: "(canon v = JNull) = (v = JNull)"
  by (cases v) auto

lemma bindable_id: "bindable e \<Longrightarrow> ev_id e \<noteq> [] \<and> length (ev_id e) \<le> 4096"
  by (auto simp: bindable_def Let_def validate_event_Inr max_event_id_def dest: not_blank_nonempty)

lemma validate_bound_event: "validate_event e = Inr u \<Longrightarrow> validate_event (bound_event e) = Inr u"
  by (simp add: validate_event_Inr not_blank_redact_text)

text \<open>The stored event binds to itself: a second \<open>billingBinding\<close> changes nothing, and fails only
  when the redaction of the message has made the event too large.\<close>

lemma bindable_bound_event:
  assumes "bindable e"
  shows "bindable (bound_event e)" and "bound_event (bound_event e) = bound_event e"
proof -
  let ?f = "canon_map (ev_fields e)"
  have ok: "json_ok_map (ev_fields e)" and free: "redact_map ?f = ?f"
    using assms by (simp_all add: bindable_def Let_def redact_map_fixed_iff)
  have f: "ev_fields (bound_event e) = ?f" "canon_map ?f = ?f"
    using canon_map_idem [OF ok] free by simp_all
  show "bindable (bound_event e)"
    using assms f by (auto simp: bindable_def Let_def validate_bound_event aget_canon_map)
  show "bound_event (bound_event e) = bound_event e"
    using f free by (simp add: bound_event_def redact_event_def Let_def)
qed

lemma same_fields: "e\<lparr>ev_fields := ev_fields e\<rparr> = e"
  by simp

lemma fits_bound_event:
  assumes "bindable e"
  shows "fits (bound_event e) = (event_json_len (bound_event e) \<le> max_event_bytes)"
proof -
  have "json_ok_map (ev_fields e)" using assms by (simp add: bindable_def Let_def)
  then have "canon_map (ev_fields (bound_event e)) = ev_fields (bound_event e)"
    by (simp only: bindable_fields [OF assms] canon_map_idem)
  then show ?thesis by (simp only: fits_def same_fields)
qed

lemma billing_binding_again:
  assumes "billing_binding cr e = Inr (e', dg)" "event_json_len e' \<le> max_event_bytes"
  shows "billing_binding cr e' = Inr (e', dg)"
  using assms by (auto simp: billing_binding_Inr bindable_bound_event fits_bound_event)

section \<open>Databases that represent a ledger\<close>

text \<open>The entry of sequence \<open>n\<close> is the pair of the event identifier and the content digest.\<close>

type_synonym ledger = "(bytes \<times> bytes) list"

definition entry :: "ledger \<Rightarrow> u64 \<Rightarrow> bytes \<times> bytes" where
  "entry L n = L ! (unat n - 1)"

abbreviation version_of :: "db \<Rightarrow> doc option" where
  "version_of d \<equiv> meta_get d ''version''"

abbreviation archive_floor :: "db \<Rightarrow> u64" where
  "archive_floor d \<equiv> meta_uint d ''archive_floor''"

text \<open>Sequences whose receipt is still the eight bytes of the first format.\<close>

definition legacy_seq :: "db \<Rightarrow> u64 \<Rightarrow> bool" where
  "legacy_seq d n =
     (version_of d = Some (Raw ''1'')
      \<or> version_of d = Some (Raw ''2-migrating'')
        \<and> meta_uint d ''backfilled_through'' < n \<and> n \<le> meta_uint d ''legacy_through'')"

text \<open>The stored bytes of an entry: a record of an event that binds to the digest, unless its
  stored form has outgrown the bound.\<close>

definition body_ok :: "crypto \<Rightarrow> u64 \<Rightarrow> bytes \<times> bytes \<Rightarrow> doc \<Rightarrow> bool" where
  "body_ok cr n x body =
     (\<exists>e. body = DRecord \<lparr>br_seq = n, br_digest = snd x, br_event = e\<rparr> \<and> ev_id e = fst x
          \<and> bindable e \<and> content_digest cr (bound_event e) = snd x)"

definition receipt_ok :: "db \<Rightarrow> u64 \<Rightarrow> bytes \<times> bytes \<Rightarrow> receipt_binding \<Rightarrow> bool" where
  "receipt_ok d n x b =
     (rb_seq b = n \<and> rb_content b = snd x \<and> valid_digest (rb_record b)
      \<and> db_get d ''receipt_ids'' (sequence_key n) = Some (Raw (fst x))
      \<and> (db_get d ''receipt_times'' (sequence_key n) = Some (Raw ''legacy'') \<and> n \<le> meta_uint d ''legacy_through''
         \<or> (\<exists>t. db_get d ''receipt_times'' (sequence_key n) = Some (DTime t) \<and> \<not> is_zero t)))"

definition slot_ok :: "crypto \<Rightarrow> db \<Rightarrow> u64 \<Rightarrow> bytes \<times> bytes \<Rightarrow> bool" where
  "slot_ok cr d n x =
     (if archive_floor d < n then
        (\<exists>body. db_get d ''events'' (sequence_key n) = Some body \<and> body_ok cr n x body
           \<and> (if legacy_seq d n then db_get d ''ids'' (fst x) = Some (Raw (sequence_key n))
              else \<exists>b. db_get d ''ids'' (fst x) = Some (DBinding b) \<and> receipt_ok d n x b \<and> rb_record b = sha cr body))
      else
        db_get d ''events'' (sequence_key n) = None \<and> \<not> legacy_seq d n
        \<and> (\<exists>b. db_get d ''ids'' (fst x) = Some (DBinding b) \<and> receipt_ok d n x b
             \<and> (\<forall>body. db_get d ''archive_cache'' (sequence_key n) = Some body
                   \<longrightarrow> body_ok cr n x body \<and> rb_record b = sha cr body)))"

definition versioned :: "db \<Rightarrow> bool" where
  "versioned d =
     (db_has d ''meta'' \<and> db_has d ''events'' \<and> db_has d ''ids''
      \<and> version_of d \<in> {Some (Raw ''1''), Some (Raw ''2-migrating''), Some (Raw ''2'')}
      \<and> (version_of d \<noteq> Some (Raw ''1'') \<longrightarrow> db_has d ''receipt_ids'' \<and> db_has d ''receipt_times'')
      \<and> (version_of d = Some (Raw ''1'') \<longrightarrow> meta_uint d ''backfilled_through'' = 0)
      \<and> (version_of d \<noteq> Some (Raw ''2'') \<longrightarrow> archive_floor d = 0)
      \<and> meta_uint d ''backfilled_through'' \<le> meta_uint d ''legacy_through''
      \<and> meta_uint d ''legacy_through'' \<le> db_seq d ''events''
      \<and> archive_floor d \<le> db_seq d ''events'')"

definition represents :: "crypto \<Rightarrow> db \<Rightarrow> ledger \<Rightarrow> bool" where
  "represents cr d L =
     (versioned d \<and> distinct (map fst L) \<and> length L = unat (db_seq d ''events'')
      \<and> list_all (\<lambda>x. valid_digest (snd x)) L
      \<and> (\<forall>i. i \<notin> fst ` set L \<longrightarrow> db_get d ''ids'' i = None)
      \<and> (\<forall>n. archive_floor d < n \<longrightarrow> db_get d ''archive_cache'' (sequence_key n) = None)
      \<and> (\<forall>n. 1 \<le> n \<and> n \<le> db_seq d ''events'' \<longrightarrow> slot_ok cr d n (entry L n)))"

lemma entry_append:
  "unat n \<le> length L \<Longrightarrow> 1 \<le> n \<Longrightarrow> entry (L @ M) n = entry L n"
  by (auto simp: entry_def nth_append word_le_nat_alt)

lemma entry_last: "unat n = Suc (length L) \<Longrightarrow> entry (L @ [x]) n = x"
  by (simp add: entry_def)

lemma entry_in_set: "1 \<le> n \<Longrightarrow> unat n \<le> length L \<Longrightarrow> entry L n \<in> set L"
  unfolding entry_def by (rule nth_mem) (simp add: word_le_nat_alt)

lemma set_entry:
  assumes "x \<in> set L" "length L = unat (h :: u64)"
  obtains n where "1 \<le> n" "n \<le> h" "entry L n = x"
proof -
  from assms(1) obtain j where j: "j < length L" "L ! j = x" by (auto simp: in_set_conv_nth)
  have "unat h < 2 ^ LENGTH(64)" by (rule unsigned_less)
  then have "Suc j < 2 ^ 64" using j(1) assms(2) by simp
  then have u: "unat (of_nat (Suc j) :: u64) = Suc j" by (simp add: unat_of_nat del: of_nat_Suc)
  show thesis
  proof (rule that [of "of_nat (Suc j)"])
    show "1 \<le> (of_nat (Suc j) :: u64)" using u by (simp add: word_le_nat_alt del: of_nat_Suc)
    show "of_nat (Suc j) \<le> h" using u j(1) assms(2) by (simp add: word_le_nat_alt del: of_nat_Suc)
    show "entry L (of_nat (Suc j)) = x" using u j(2) by (simp add: entry_def del: of_nat_Suc)
  qed
qed

lemma slot_live:
  assumes "slot_ok cr d n x" "archive_floor d < n"
  obtains (legacy) body where "db_get d ''events'' (sequence_key n) = Some body" "body_ok cr n x body"
      "legacy_seq d n" "db_get d ''ids'' (fst x) = Some (Raw (sequence_key n))"
    | (bound) body b where "db_get d ''events'' (sequence_key n) = Some body" "body_ok cr n x body"
      "\<not> legacy_seq d n" "db_get d ''ids'' (fst x) = Some (DBinding b)" "receipt_ok d n x b"
      "rb_record b = sha cr body"
proof (cases "legacy_seq d n")
  case True
  from assms(1) have "\<exists>body. db_get d ''events'' (sequence_key n) = Some body \<and> body_ok cr n x body
      \<and> db_get d ''ids'' (fst x) = Some (Raw (sequence_key n))"
    by (simp only: slot_ok_def assms(2) True if_True)
  with True show thesis using legacy by blast
next
  case False
  from assms(1) have "\<exists>body. db_get d ''events'' (sequence_key n) = Some body \<and> body_ok cr n x body
      \<and> (\<exists>b. db_get d ''ids'' (fst x) = Some (DBinding b) \<and> receipt_ok d n x b \<and> rb_record b = sha cr body)"
    by (simp only: slot_ok_def assms(2) False if_True if_False)
  with False show thesis using bound by blast
qed

lemma slot_retired:
  assumes "slot_ok cr d n x" "\<not> archive_floor d < n"
  obtains b where "db_get d ''events'' (sequence_key n) = None" "\<not> legacy_seq d n"
    "db_get d ''ids'' (fst x) = Some (DBinding b)" "receipt_ok d n x b"
    "\<And>body. db_get d ''archive_cache'' (sequence_key n) = Some body \<Longrightarrow> body_ok cr n x body \<and> rb_record b = sha cr body"
  using assms unfolding slot_ok_def by (simp only: if_False) blast

text \<open>A slot reads few places of the database.\<close>

lemma slot_ok_frame:
  assumes "slot_ok cr d n x" and "archive_floor d' = archive_floor d" and "legacy_seq d' n = legacy_seq d n"
    and "meta_uint d' ''legacy_through'' = meta_uint d ''legacy_through''"
    and "db_get d' ''events'' (sequence_key n) = db_get d ''events'' (sequence_key n)"
    and "db_get d' ''ids'' (fst x) = db_get d ''ids'' (fst x)"
    and "db_get d' ''receipt_ids'' (sequence_key n) = db_get d ''receipt_ids'' (sequence_key n)"
    and "db_get d' ''receipt_times'' (sequence_key n) = db_get d ''receipt_times'' (sequence_key n)"
    and "db_get d' ''archive_cache'' (sequence_key n) = db_get d ''archive_cache'' (sequence_key n)"
  shows "slot_ok cr d' n x"
proof -
  have "receipt_ok d' n x = receipt_ok d n x"
    by (simp add: fun_eq_iff receipt_ok_def assms(4,7,8))
  then have "slot_ok cr d' n x = slot_ok cr d n x"
    by (simp only: slot_ok_def assms(2,3,5,6,9))
  with assms(1) show ?thesis by simp
qed

section \<open>What an update leaves alone\<close>

definition ledger_bucket :: "bytes \<Rightarrow> bool" where
  "ledger_bucket b = (b \<notin> {''meta'', ''mutation_journal''})"

lemma ledger_bucket_simps [simp]:
  "ledger_bucket ''events''" "ledger_bucket ''ids''" "ledger_bucket ''receipt_ids''"
  "ledger_bucket ''receipt_times''" "ledger_bucket ''archive_cache''" "ledger_bucket ''catalog''"
  "ledger_bucket ''operations''" "ledger_bucket ''captures''"
  "\<not> ledger_bucket ''meta''" "\<not> ledger_bucket ''mutation_journal''"
  by (simp_all add: ledger_bucket_def)

definition stable_meta :: "bytes \<Rightarrow> bool" where
  "stable_meta k = (k \<notin> {''mutation_generation'', ''compaction_session''})"

lemma stable_meta_simps [simp]:
  "stable_meta ''version''" "stable_meta ''identity''" "stable_meta ''archive_floor''"
  "stable_meta ''legacy_through''" "stable_meta ''backfilled_through''" "stable_meta ''legacy_age_floor''"
  "stable_meta ''cache_bytes''" "stable_meta ''recovery_fence''" "stable_meta ''captured_through''"
  by (simp_all add: stable_meta_def)

text \<open>\<open>same_content d d'\<close>: the two databases differ in nothing but the commit bookkeeping.\<close>

definition same_content :: "db \<Rightarrow> db \<Rightarrow> bool" where
  "same_content d d' =
     ((\<forall>b. db_has d' b = db_has d b) \<and> (\<forall>b. db_seq d' b = db_seq d b)
      \<and> (\<forall>b. ledger_bucket b \<longrightarrow> db_entries d' b = db_entries d b)
      \<and> (\<forall>k. stable_meta k \<longrightarrow> meta_get d' k = meta_get d k))"

lemma same_contentD:
  assumes "same_content d d'"
  shows "db_has d' b = db_has d b" "db_seq d' b = db_seq d b"
    "ledger_bucket b \<Longrightarrow> db_entries d' b = db_entries d b"
    "ledger_bucket b \<Longrightarrow> db_get d' b k = db_get d b k"
    "stable_meta k \<Longrightarrow> meta_get d' k = meta_get d k"
  using assms by (simp_all add: same_content_def db_get_def)

lemma finish_same_content: "finish_update io t = Inr d' \<Longrightarrow> same_content (mt_db t) d'"
  using finish_update_frame [of io t d']
  by (simp add: same_content_def ledger_bucket_def stable_meta_def)

lemma same_content_slot:
  assumes "same_content d d'"
  shows "legacy_seq d' n = legacy_seq d n" "slot_ok cr d' n x = slot_ok cr d n x"
    "versioned d' = versioned d"
proof -
  note D = same_contentD [OF assms]
  show leg: "legacy_seq d' n = legacy_seq d n" by (simp add: legacy_seq_def D)
  have "receipt_ok d' n x = receipt_ok d n x" by (simp add: fun_eq_iff receipt_ok_def D)
  then show "slot_ok cr d' n x = slot_ok cr d n x" by (simp only: slot_ok_def leg) (simp add: D)
  show "versioned d' = versioned d" by (simp add: versioned_def D)
qed

lemma represents_same_content:
  "same_content d d' \<Longrightarrow> represents cr d' L = represents cr d L"
  using same_contentD [of d d'] by (simp add: represents_def same_content_slot)

section \<open>Inserting appends\<close>

definition receipt_doc :: "crypto \<Rightarrow> db \<Rightarrow> u64 \<Rightarrow> bytes \<Rightarrow> doc \<Rightarrow> doc" where
  "receipt_doc cr d n dg body =
     (if as_text (version_of d) \<noteq> Some ''1''
      then DBinding \<lparr>rb_seq = n, rb_content = dg, rb_record = sha cr body\<rparr> else Raw (sequence_key n))"

lemma insert_body_effect:
  assumes "insert_body cr c now e dg (begin_tx d) = Inr (u, t)"
  defines "n \<equiv> db_seq d ''events'' + 1"
  defines "body \<equiv> DRecord \<lparr>br_seq = n, br_digest = dg, br_event = e\<rparr>"
  shows "db_get d ''ids'' (ev_id e) = None" "db_seq d ''events'' \<noteq> - 1" "mt_writes t \<noteq> []"
    "db_has (mt_db t) b = db_has d b"
    "db_seq (mt_db t) b = (if b = ''events'' then n else db_seq d b)"
    "meta_get (mt_db t) k = meta_get d k"
    "db_get (mt_db t) ''events'' k = (if k = sequence_key n then Some body else db_get d ''events'' k)"
    "db_get (mt_db t) ''ids'' k = (if k = ev_id e then Some (receipt_doc cr d n dg body) else db_get d ''ids'' k)"
    "db_get (mt_db t) ''receipt_ids'' k =
       (if k = sequence_key n \<and> as_text (version_of d) \<noteq> Some ''1'' then Some (Raw (ev_id e))
        else db_get d ''receipt_ids'' k)"
    "db_get (mt_db t) ''receipt_times'' k =
       (if k = sequence_key n \<and> as_text (version_of d) \<noteq> Some ''1'' then Some (DTime (utc now))
        else db_get d ''receipt_times'' k)"
    "b \<notin> {''events'', ''ids'', ''receipt_ids'', ''receipt_times''} \<Longrightarrow> db_entries (mt_db t) b = db_entries d b"
  using assms(1)
  by (auto simp: insert_body_def new_receipt_def receipt_doc_def n_def body_def Let_def begin_tx_def
      split: option.splits sum.splits if_splits)

definition sha_hex :: "crypto \<Rightarrow> bool" where
  "sha_hex cr = (\<forall>x. valid_digest (sha cr x))"

lemma versioned_text:
  "versioned d \<Longrightarrow> (as_text (version_of d) = Some ''1'') = (version_of d = Some (Raw ''1''))"
  by (auto simp: versioned_def)

lemma insert_body_represents:
  assumes rep: "represents cr d L" and ins: "insert_body cr c now e dg (begin_tx d) = Inr (u, t)"
    and e: "bindable e" "bound_event e = e" "content_digest cr e = dg"
    and hex: "sha_hex cr" and now: "\<not> is_zero now"
  shows "ev_id e \<notin> fst ` set L" "represents cr (mt_db t) (L @ [(ev_id e, dg)])"
proof -
  note E = insert_body_effect [OF ins]
  let ?h = "db_seq d ''events''" and ?d = "mt_db t" and ?L = "L @ [(ev_id e, dg)]"
  have ver: "versioned d" and len: "length L = unat ?h" and dist: "distinct (map fst L)"
    and digs: "list_all (\<lambda>x. valid_digest (snd x)) L"
    and none: "\<And>i. i \<notin> fst ` set L \<Longrightarrow> db_get d ''ids'' i = None"
    and slots: "\<And>n. 1 \<le> n \<Longrightarrow> n \<le> ?h \<Longrightarrow> slot_ok cr d n (entry L n)"
    using rep by (auto simp: represents_def)
  have used: "db_get d ''ids'' i \<noteq> None" if "i \<in> fst ` set L" for i
  proof -
    from that obtain x where x: "x \<in> set L" "fst x = i" by auto
    from x(1) len obtain n where "1 \<le> n" "n \<le> ?h" "entry L n = x" by (rule set_entry)
    with slots [of n] x show ?thesis by (auto simp: slot_ok_def split: if_splits)
  qed
  show fresh: "ev_id e \<notin> fst ` set L" using used E(1) by blast
  have top: "unat (?h + 1) = Suc (unat ?h)" "?h < ?h + 1"
    using u64_Suc [OF E(2)] by blast+
  have legacy: "legacy_seq ?d n = legacy_seq d n" for n by (simp add: legacy_seq_def E)
  have ver': "versioned ?d"
    using ver top by (auto simp: versioned_def E intro: order.trans less_imp_le)
  have old: "slot_ok cr ?d n (entry ?L n)" if n: "1 \<le> n" "n \<le> ?h" for n
  proof -
    have un: "unat n \<le> length L" using n len by (simp add: word_le_nat_alt)
    have "fst (entry L n) \<in> fst ` set L" using entry_in_set [OF n(1) un] by simp
    then have "fst (entry L n) \<noteq> ev_id e" using fresh by metis
    moreover have "n \<noteq> ?h + 1" using n(2) top(2) by auto
    ultimately have "slot_ok cr ?d n (entry L n)"
      by (intro slot_ok_frame [OF slots [OF n]]) (simp_all add: E legacy db_get_def [of _ "''archive_cache''"])
    then show ?thesis using entry_append [OF un n(1)] by simp
  qed
  have new: "slot_ok cr ?d (?h + 1) (ev_id e, dg)"
  proof -
    have "archive_floor d \<le> ?h" using ver by (simp add: versioned_def)
    then have fl: "archive_floor d < ?h + 1" using top(2) by (rule order.strict_trans1)
    have leg: "legacy_seq d (?h + 1) = (version_of d = Some (Raw ''1''))"
      using ver top(2) by (auto simp: legacy_seq_def versioned_def)
    show ?thesis
      using fl e now hex ver leg
      by (auto simp: slot_ok_def E legacy body_ok_def receipt_ok_def receipt_doc_def versioned_text sha_hex_def)
  qed
  show "represents cr ?d ?L"
    unfolding represents_def
  proof (intro conjI allI impI)
    show "list_all (\<lambda>x. valid_digest (snd x)) ?L"
      using digs e(3) hex by (auto simp: content_digest_def sha_hex_def)
    fix n assume n: "1 \<le> n \<and> n \<le> db_seq ?d ''events''"
    show "slot_ok cr ?d n (entry ?L n)"
    proof (cases "n = ?h + 1")
      case True
      with new top(1) len show ?thesis by (simp add: entry_last)
    next
      case False
      with n have "n \<le> ?h" using u64_Suc(3) [OF E(2)] by (simp add: E)
      with n old show ?thesis by blast
    qed
  next
    fix n assume "archive_floor ?d < n"
    then show "db_get ?d ''archive_cache'' (sequence_key n) = None"
      using rep by (simp add: represents_def E db_get_def [of _ "''archive_cache''"])
  qed (use ver' dist fresh len top none in \<open>auto simp: E\<close>)
qed

text \<open>Records that have not outgrown the bound.\<close>

definition small_record :: "doc \<Rightarrow> bool" where
  "small_record body =
     (case body of DRecord r \<Rightarrow> fits (br_event r) \<and> event_json_len (br_event r) \<le> max_event_bytes | _ \<Rightarrow> True)"

definition small_records :: "db \<Rightarrow> bool" where
  "small_records d =
     (\<forall>k body. db_get d ''events'' k = Some body \<or> db_get d ''archive_cache'' k = Some body \<longrightarrow> small_record body)"

lemma small_recordsD:
  assumes "small_records d"
  shows "db_get d ''events'' k = Some body \<Longrightarrow> small_record body"
    and "db_get d ''archive_cache'' k = Some body \<Longrightarrow> small_record body"
  using assms by (auto simp: small_records_def)

lemma body_ok_binding:
  assumes "body_ok cr n x body" "small_record body"
  obtains r where "body = DRecord r" "br_seq r = n" "br_digest r = snd x" "ev_id (br_event r) = fst x"
    "billing_binding cr (br_event r) = Inr (bound_event (br_event r), snd x)"
proof -
  from assms obtain e where "body = DRecord \<lparr>br_seq = n, br_digest = snd x, br_event = e\<rparr>"
      "ev_id e = fst x" "bindable e" "content_digest cr (bound_event e) = snd x" "fits e"
    by (auto simp: body_ok_def small_record_def)
  then show thesis by (intro that) (auto simp: billing_binding_Inr)
qed

lemma represents_entry:
  assumes "represents cr d L" "x \<in> set L"
  obtains n where "1 \<le> n" "n \<le> db_seq d ''events''" "slot_ok cr d n x" "valid_digest (snd x)"
    "entry L n = x"
proof -
  have len: "length L = unat (db_seq d ''events'')" using assms(1) by (simp add: represents_def)
  from assms(2) len obtain n where n: "1 \<le> n" "n \<le> db_seq d ''events''" "entry L n = x"
    by (rule set_entry)
  show thesis
    by (rule that [of n]) (use assms n in \<open>auto simp: represents_def list_all_iff\<close>)
qed

text \<open>
  The verdict on a second submission: the stored digest decides, unless the identifier is bound in
  the first format, by the key of its record, and the record has outgrown the bound.
\<close>

definition outgrown :: "db \<Rightarrow> bytes \<Rightarrow> bool" where
  "outgrown d i =
     (case db_get d ''ids'' i of
        Some (Raw key) \<Rightarrow> (case db_get d ''events'' key of Some (DRecord r) \<Rightarrow> \<not> fits (br_event r) | _ \<Rightarrow> False)
      | _ \<Rightarrow> False)"

lemma small_not_outgrown:
  assumes "small_records d"
  shows "\<not> outgrown d i"
  using small_recordsD(1) [OF assms] by (fastforce simp: outgrown_def small_record_def split: option.splits doc.splits)

lemma existing_receipt_verdict:
  assumes rep: "represents cr d L" and x: "(i, dg0) \<in> set L"
  obtains (verdict) key where "db_get d ''ids'' i = Some key"
    "existing_receipt cr d i dg key =
       (if outgrown d i then ErrBillingUnavailable else if dg0 = dg then ErrDuplicateEvent else ErrBillingConflict)"
proof -
  from rep x obtain n where n: "1 \<le> n" "n \<le> db_seq d ''events''" "slot_ok cr d n (i, dg0)"
      "valid_digest dg0"
    by (rule represents_entry) auto
  have ver: "versioned d" using rep by (simp add: represents_def)
  have n0: "n \<noteq> 0" using n(1) by auto
  have settled: thesis if b: "db_get d ''ids'' i = Some (DBinding b)" "receipt_ok d n (i, dg0) b"
      "\<And>body. db_get d ''events'' (sequence_key n) = Some body \<Longrightarrow> rb_record b = sha cr body" for b
  proof -
    have "db_has d ''receipt_ids''" using b(2) by (auto simp: receipt_ok_def dest: db_get_has)
    with b n n0 show thesis
      by (intro verdict [of "DBinding b"])
         (auto simp: existing_receipt_def receipt_ok_def outgrown_def split: option.splits)
  qed
  show thesis
  proof (cases "archive_floor d < n")
    case True
    from n(3) True show thesis
    proof (cases rule: slot_live)
      case (legacy body)
      from legacy(2) obtain r where r: "body = DRecord r" "br_seq r = n" "br_digest r = dg0" "ev_id (br_event r) = i"
          "bindable (br_event r)" "content_digest cr (bound_event (br_event r)) = dg0"
        by (auto simp: body_ok_def)
      have out: "outgrown d i = (\<not> fits (br_event r))" using legacy(1,4) r(1) by (simp add: outgrown_def)
      show thesis
      proof (cases "fits (br_event r)")
        case True
        with r have "billing_binding cr (br_event r) = Inr (bound_event (br_event r), dg0)" by (simp add: billing_binding_Inr)
        with legacy r out True show thesis
          by (intro verdict [of "Raw (sequence_key n)"]) (auto simp: existing_receipt_def)
      next
        case False
        then obtain x where "billing_binding cr (br_event r) = Inl x"
          by (cases "billing_binding cr (br_event r)") (auto simp: billing_binding_Inr)
        with legacy r out False show thesis
          by (intro verdict [of "Raw (sequence_key n)"]) (auto simp: existing_receipt_def)
      qed
    next
      case (bound body b)
      then show thesis by (intro settled [of b]) auto
    qed
  next
    case False
    from n(3) False show thesis by (rule slot_retired) (use settled in auto)
  qed
qed

section \<open>Pages are slices\<close>

definition summary :: "billing_record \<Rightarrow> bytes \<times> bytes" where
  "summary r = (ev_id (br_event r), br_digest r)"

lemma page_fetch_body:
  assumes "represents cr d L" "1 \<le> n" "n \<le> db_seq d ''events''"
    and "page_fetch d (archive_floor d) n = Inr body"
  shows "body_ok cr n (entry L n) body"
proof -
  have slot: "slot_ok cr d n (entry L n)" using assms(1-3) by (simp add: represents_def)
  show ?thesis
  proof (cases "archive_floor d < n")
    case True
    from slot True show ?thesis
      by (cases rule: slot_live) (use assms(4) in \<open>auto simp: page_fetch_def\<close>)
  next
    case False
    from slot False show ?thesis
      by (rule slot_retired) (use assms(4) in \<open>auto simp: page_fetch_def split: option.splits if_splits\<close>)
  qed
qed

lemma page_check_body:
  "body_ok cr n x body \<Longrightarrow> page_check cr d n body = Inr r \<Longrightarrow> body = DRecord r \<and> br_seq r = n \<and> summary r = x"
  by (auto simp: page_check_def body_ok_def summary_def Let_def split: sum.splits if_splits option.splits)

lemma take_Cons_drop_entry:
  assumes "unat n \<le> length L" "unat n = Suc (unat m)"
  shows "drop (unat m) L = entry L n # drop (unat n) L"
  using assms by (simp add: entry_def Cons_nth_drop_Suc)

lemma page_loop_slice:
  assumes rep: "represents cr d L" and thr: "through \<le> db_seq d ''events''"
  shows "pos \<le> through \<Longrightarrow> page_loop cr c d (archive_floor d) through k n bytes pos = Inr (pos', rs) \<Longrightarrow>
     pos' \<le> through \<and> unat pos' = unat pos + length rs \<and> length rs \<le> k
     \<and> map summary rs = take (length rs) (drop (unat pos) L)
     \<and> map (\<lambda>r. unat (br_seq r)) rs = [Suc (unat pos)..<Suc (unat pos')]"
proof (induction k arbitrary: n bytes pos pos' rs)
  case (Suc k)
  have len: "length L = unat (db_seq d ''events'')" using rep by (simp add: represents_def)
  show ?case
  proof (cases "pos < through")
    case False
    with Suc.prems show ?thesis by simp
  next
    case True
    have next_unat: "unat (pos + 1) = Suc (unat pos)" using True by (rule u64_less_Suc)
    have le: "1 \<le> pos + 1" "pos + 1 \<le> through" "pos + 1 \<le> db_seq d ''events''"
      using next_unat True thr by (auto simp: word_le_nat_alt word_less_nat_alt)
    show ?thesis
    proof (cases "rs = []")
      case True
      with Suc.prems \<open>pos < through\<close> show ?thesis
        by (auto simp: split: if_splits)
    next
      case False
      with Suc.prems(2) True obtain body r pos1 rs1 where step:
          "page_fetch d (archive_floor d) (pos + 1) = Inr body" "page_check cr d (pos + 1) body = Inr r"
          "page_loop cr c d (archive_floor d) through k (n + 1) (bytes + body_len body) (pos + 1) = Inr (pos1, rs1)"
          "rs = r # rs1" "pos' = pos1"
        by (auto split: if_splits)
      have body: "body_ok cr (pos + 1) (entry L (pos + 1)) body"
        by (rule page_fetch_body [OF rep le(1,3) step(1)])
      note r = page_check_body [OF body step(2)]
      have un: "unat (pos + 1) \<le> length L" using le(3) len by (simp add: word_le_nat_alt)
      have IH: "pos1 \<le> through \<and> unat pos1 = unat (pos + 1) + length rs1 \<and> length rs1 \<le> k
          \<and> map summary rs1 = take (length rs1) (drop (unat (pos + 1)) L)
          \<and> map (\<lambda>r. unat (br_seq r)) rs1 = [Suc (unat (pos + 1))..<Suc (unat pos1)]"
        using Suc.IH [OF le(2) step(3)] .
      have "[Suc (unat pos)..<Suc (unat pos1)] = Suc (unat pos) # [Suc (Suc (unat pos))..<Suc (unat pos1)]"
        using IH next_unat by (simp add: upt_conv_Cons del: upt_Suc)
      with IH r step(4,5) next_unat take_Cons_drop_entry [OF un next_unat] show ?thesis
        by (simp del: upt_Suc)
    qed
  qed
qed auto

text \<open>Where the next page starts, and what it may serve.\<close>

lemma page_start_bounds:
  assumes "page_start d text = Inr cu"
  shows "bc_after cu \<le> bc_through cu" "bc_through cu \<le> db_seq d ''events''"
  using assms by (auto simp: page_start_def Let_def not_less split: cursor_text.splits if_splits)

definition cursor_after :: "cursor_text \<Rightarrow> u64" where
  "cursor_after text = (case text of Cursor cu \<Rightarrow> bc_after cu | _ \<Rightarrow> 0)"

lemma page_start_after: "page_start d text = Inr cu \<Longrightarrow> bc_after cu = cursor_after text"
  by (auto simp: page_start_def cursor_after_def Let_def split: cursor_text.splits if_splits)

lemma page_view_slice:
  assumes rep: "represents cr d L" and view: "page_view cr c d text k = Inr p"
  shows "map summary (bp_records p) = take (length (bp_records p)) (drop (unat (cursor_after text)) L)"
    and "unat (bc_after (bp_next p)) = unat (cursor_after text) + length (bp_records p)"
    and "map (\<lambda>r. unat (br_seq r)) (bp_records p) =
           [Suc (unat (cursor_after text))..<Suc (unat (bc_after (bp_next p)))]"
    and "bc_after (bp_next p) \<le> bp_high p" "bp_high p \<le> db_seq d ''events''"
    and "length (bp_records p) \<le> k"
    and "bp_more p = (bc_after (bp_next p) < bp_high p)"
    and "bc_through (bp_next p) = (if bp_more p then bp_high p else 0)"
    and "bc_store (bp_next p) = bp_store p"
proof -
  from view obtain cu pos rs where cu: "page_start d text = Inr cu"
    and loop: "page_loop cr c d (archive_floor d) (bc_through cu) k 0 0 (bc_after cu) = Inr (pos, rs)"
    and p: "p = \<lparr>bp_store = bc_store cu, bp_high = bc_through cu, bp_records = rs,
              bp_next = cu\<lparr>bc_after := pos, bc_through := (if pos < bc_through cu then bc_through cu else 0)\<rparr>,
              bp_more = pos < bc_through cu\<rparr>"
    by (auto simp: page_view_def Let_def)
  note slice = page_loop_slice [OF rep page_start_bounds(2) [OF cu] page_start_bounds(1) [OF cu] loop]
  show "map summary (bp_records p) = take (length (bp_records p)) (drop (unat (cursor_after text)) L)"
    "unat (bc_after (bp_next p)) = unat (cursor_after text) + length (bp_records p)"
    "map (\<lambda>r. unat (br_seq r)) (bp_records p) =
       [Suc (unat (cursor_after text))..<Suc (unat (bc_after (bp_next p)))]"
    "bc_after (bp_next p) \<le> bp_high p" "bp_high p \<le> db_seq d ''events''" "length (bp_records p) \<le> k"
    "bp_more p = (bc_after (bp_next p) < bp_high p)"
    "bc_through (bp_next p) = (if bp_more p then bp_high p else 0)" "bc_store (bp_next p) = bp_store p"
    using slice page_start_after [OF cu] page_start_bounds(2) [OF cu] by (simp_all add: p)
qed

section \<open>Pages are served\<close>

text \<open>On a database that represents a ledger of small records, the loop fails only because the
  context ended or because a retired sequence has not been rehydrated.\<close>

definition available :: "db \<Rightarrow> u64 \<Rightarrow> bool" where
  "available d n =
     (db_get d ''events'' (sequence_key n) \<noteq> None \<or> db_get d ''archive_cache'' (sequence_key n) \<noteq> None)"

lemma page_check_ok:
  assumes rep: "represents cr d L" and small: "small_records d" and n: "1 \<le> n" "n \<le> db_seq d ''events''"
    and body: "page_fetch d (archive_floor d) n = Inr body"
  shows "\<exists>r. page_check cr d n body = Inr r"
proof -
  have slot: "slot_ok cr d n (entry L n)" using rep n by (simp add: represents_def)
  have ok: "body_ok cr n (entry L n) body" using rep n body by (rule page_fetch_body)
  have "small_record body"
    using body small_recordsD [OF small] by (auto simp: page_fetch_def split: option.splits if_splits)
  from ok this obtain r where r: "body = DRecord r" "br_seq r = n" "br_digest r = snd (entry L n)"
      "ev_id (br_event r) = fst (entry L n)"
      "billing_binding cr (br_event r) = Inr (bound_event (br_event r), snd (entry L n))"
    by (rule body_ok_binding)
  have served: "page_check cr d n body = Inr r"
    if "db_get d ''ids'' (fst (entry L n)) = Some (Raw (sequence_key n))
        \<or> (\<exists>b. db_get d ''ids'' (fst (entry L n)) = Some (DBinding b) \<and> receipt_ok d n (entry L n) b
             \<and> rb_record b = sha cr body)"
    using that r by (auto simp: page_check_def receipt_ok_def Let_def)
  show ?thesis
  proof (cases "archive_floor d < n")
    case True
    from slot True show ?thesis
      by (cases rule: slot_live) (use served body in \<open>auto simp: page_fetch_def\<close>)
  next
    case False
    from slot False show ?thesis
    proof (rule slot_retired)
      fix b
      assume ev: "db_get d ''events'' (sequence_key n) = None"
        and b: "db_get d ''ids'' (fst (entry L n)) = Some (DBinding b)" "receipt_ok d n (entry L n) b"
        and cache: "\<And>x. db_get d ''archive_cache'' (sequence_key n) = Some x \<Longrightarrow>
             body_ok cr n (entry L n) x \<and> rb_record b = sha cr x"
      have "db_get d ''archive_cache'' (sequence_key n) = Some body"
        using body ev by (auto simp: page_fetch_def split: option.splits if_splits)
      with cache b served show ?thesis by blast
    qed
  qed
qed

lemma page_fetch_error:
  assumes "represents cr d L" "1 \<le> n" "n \<le> db_seq d ''events''" "page_fetch d (archive_floor d) n = Inl x"
  shows "x = ErrBillingArchiveUnavailable \<and> \<not> available d n"
proof -
  have slot: "slot_ok cr d n (entry L n)" using assms(1-3) by (simp add: represents_def)
  show ?thesis
  proof (cases "archive_floor d < n")
    case True
    from slot True show ?thesis
      by (cases rule: slot_live) (use assms(4) in \<open>auto simp: page_fetch_def\<close>)
  next
    case False
    with assms(4) show ?thesis
      by (auto simp: page_fetch_def available_def not_less split: option.splits if_splits)
  qed
qed

lemma page_loop_error:
  assumes rep: "represents cr d L" and small: "small_records d" and thr: "through \<le> db_seq d ''events''"
  shows "page_loop cr c d (archive_floor d) through k n bytes pos = Inl x \<Longrightarrow>
     (\<exists>m. c m = Some x)
     \<or> x = ErrBillingArchiveUnavailable \<and> (\<exists>m. pos < m \<and> m \<le> through \<and> \<not> available d m)"
proof (induction k arbitrary: n bytes pos)
  case (Suc k)
  have pos: "pos < through" using Suc.prems by (auto split: if_splits)
  have next_unat: "unat (pos + 1) = Suc (unat pos)" using pos by (rule u64_less_Suc)
  have le: "1 \<le> pos + 1" "pos + 1 \<le> through" "pos + 1 \<le> db_seq d ''events''" "pos < pos + 1"
    using next_unat pos thr by (auto simp: word_le_nat_alt word_less_nat_alt)
  consider "\<exists>m. c m = Some x" | "page_fetch d (archive_floor d) (pos + 1) = Inl x"
    | body where "page_fetch d (archive_floor d) (pos + 1) = Inr body" "page_check cr d (pos + 1) body = Inl x"
    | body where "page_loop cr c d (archive_floor d) through k (n + 1) (bytes + body_len body) (pos + 1) = Inl x"
    using Suc.prems by (auto simp: andThen_Inl split: if_splits)
  then show ?case
  proof cases
    case 2
    with page_fetch_error [OF rep le(1,3)] le show ?thesis by blast
  next
    case (3 body)
    with page_check_ok [OF rep small le(1,3)] show ?thesis by force
  next
    case (4 body)
    from Suc.IH [OF 4] le(4) show ?thesis by (meson order.strict_trans)
  qed simp
qed simp

lemma page_loop_progress:
  assumes "page_loop cr c d fl through (Suc k) 0 0 pos = Inr (pos', rs)" "pos < through"
  shows "rs \<noteq> []"
  using assms by auto

section \<open>New events are accepted\<close>

text \<open>When the bookkeeping of a commit cannot fail.\<close>

definition writable :: "db \<Rightarrow> bool" where
  "writable d =
     (db_has d ''meta'' \<and> meta_uint d ''mutation_generation'' \<noteq> - 1
      \<and> (meta_get d ''compaction_session'' \<noteq> None \<longrightarrow> db_has d ''mutation_journal''))"

lemma finish_update_ok: "writable (mt_db t) \<Longrightarrow> \<exists>d'. finish_update io t = Inr d'"
  by (auto simp: finish_update_def writable_def Let_def t_put_def db_put_def db_del_def)

lemma t_put_ok: "db_has (mt_db t) b \<Longrightarrow> k \<noteq> [] \<Longrightarrow> length k \<le> 32768 \<Longrightarrow>
  t_put b k v t = Inr (t\<lparr>mt_db := set_key b k v (mt_db t), mt_writes := mt_writes t @ [Mutation b k v ''put'' 0]\<rparr>)"
  by simp

lemma insert_body_accepts:
  assumes ver: "versioned d" and e: "bindable e" and new: "db_get d ''ids'' (ev_id e) = None"
    and top: "db_seq d ''events'' \<noteq> - 1" and ctx: "c 1 = None"
  shows "\<exists>t. insert_body cr c now e dg (begin_tx d) = Inr ((), t)
    \<and> (\<forall>b. db_has (mt_db t) b = db_has d b) \<and> (\<forall>k. meta_get (mt_db t) k = meta_get d k)"
proof -
  have k: "ev_id e \<noteq> []" "length (ev_id e) \<le> 32768" using bindable_id [OF e] by auto
  have n: "db_seq d ''events'' + 1 \<noteq> 0" using u64_Suc(1) [OF top] by auto
  have "\<exists>t. insert_body cr c now e dg (begin_tx d) = Inr ((), t)"
  proof (cases "as_text (version_of d) = Some ''1''")
    case True
    then show ?thesis using ver new top ctx k n
      by (simp add: insert_body_def t_next_sequence_def t_set_sequence_def db_set_seq_def versioned_def new_receipt_def Let_def t_put_ok)
  next
    case False
    then have "db_has d ''receipt_ids''" "db_has d ''receipt_times''" using ver by (auto simp: versioned_def)
    then show ?thesis using ver new top ctx k n False
      by (simp add: insert_body_def t_next_sequence_def t_set_sequence_def db_set_seq_def versioned_def new_receipt_def Let_def t_put_ok)
  qed
  then obtain t where t: "insert_body cr c now e dg (begin_tx d) = Inr ((), t)" by blast
  show ?thesis by (intro exI [of _ t] conjI allI t insert_body_effect(4,6) [OF t])
qed

lemma run_insert_accepts:
  assumes "versioned d" "bindable e" "db_get d ''ids'' (ev_id e) = None"
    "db_seq d ''events'' \<noteq> - 1" "c 1 = None" and w: "writable d"
  shows "\<exists>d'. run_update io (insert_body cr c now e dg) d = Inr ((), d')"
proof -
  from insert_body_accepts [where c = c, OF assms(1-5)] obtain t where t: "insert_body cr c now e dg (begin_tx d) = Inr ((), t)"
    "\<And>b. db_has (mt_db t) b = db_has d b" "\<And>k. meta_get (mt_db t) k = meta_get d k" by blast
  have "writable (mt_db t)" using w by (simp add: writable_def t)
  with t finish_update_ok show ?thesis by (auto simp: run_update_Inr)
qed

end
