(* ===== verification/Sample.thy ===== *)
theory Sample
  imports Ledger
begin

text \<open>
  Concrete inputs: an instance of the cryptographic functions, a usage event and fresh
  databases of both formats, with the evaluations that the instances of the general theorems
  share.
\<close>

definition toy_crypto :: crypto where
  "toy_crypto = \<lparr>sha = (\<lambda>_. replicate 64 (CHR ''0'')), ed_sign = (\<lambda>k _. k), ed_verify = (\<lambda>k _ s. s = k)\<rparr>"

lemma toy_crypto_hex: "sha_hex toy_crypto"
  by (simp add: sha_hex_def toy_crypto_def valid_digest_def is_lower_hex_def list_all_length)

definition toy_time :: gtime where "toy_time = GTime (738000 * day) 0"

lemma fraction_digits_zero [simp]: "fraction_digits k 0 = 0"
  by (induction k) auto

definition toy_event :: "bytes \<Rightarrow> log_event" where
  "toy_event i =
     \<lparr>ev_id = i, ev_time = toy_time, ev_level = ''i'', ev_msg = ''m'', ev_service = ''s'', ev_env = ''e'',
      ev_version = ''v'', ev_host = ''h'', ev_unit = ''u'', ev_source = ''billing_usage'',
      ev_stream = ''billing_usage'', ev_trace = [], ev_request = [], ev_operation = [], ev_device = [],
      ev_org = [], ev_user = [], ev_component = [], ev_errcat = [], ev_actor = [], ev_actor_type = [],
      ev_outcome = [], ev_status_code = [], ev_status_class = [],
      ev_fields = [(''usage_event'', JBool True)]\<rparr>"

lemma toy_time_facts: "\<not> is_zero toy_time" "time_json_ok toy_time" "utc toy_time = toy_time"
  "time_text_len toy_time = 20"
  by (simp_all add: toy_time_def is_zero_def utc_def time_json_ok_def day_def hour_def minute_def
      second_def Let_def time_text_len_def)

lemma usage_event_name: "\<not> sensitive_field_name ''usage_event''"
  by (simp add: sensitive_field_name_def replace_char_def to_lower_ascii ascii_lower_def sensitive_names_def
      starts_with_def del: to_lower.simps(2))

lemma toy_msg: "redact_text ''m'' = ''m''"
  by (simp add: redact_text_def to_lower_ascii ascii_lower_def text_markers_def starts_with_def
      del: to_lower.simps(2))

lemma toy_event_bindable:
  assumes "i \<in> {''a'', ''b''}"
  shows "bindable (toy_event i)" "bound_event (toy_event i) = toy_event i" "ev_id (toy_event i) = i"
proof -
  have vis: "\<not> blank i" "\<not> blank ''m''" "\<not> blank ''i''" "\<not> blank ''s''" "\<not> blank ''e''" "\<not> blank ''v''"
    "\<not> blank ''h''" "\<not> blank ''u''" "\<not> blank ''billing_usage''"
    using assms by (auto intro!: visible_not_blank simp: visible_def)
  show "bindable (toy_event i)"
    using vis assms toy_time_facts usage_event_name
    by (auto simp: bindable_def Let_def validate_event_Inr toy_event_def max_event_id_def)
  show "bound_event (toy_event i) = toy_event i"
    using toy_time_facts(3) usage_event_name toy_msg
    by (simp add: bound_event_def redact_event_def Let_def toy_event_def)
  show "ev_id (toy_event i) = i" by (simp add: toy_event_def)
qed

lemma text_json_len_ascii:
  "of_char c < (128 :: nat) \<Longrightarrow> text_json_len (c # s) = char_json_len c + text_json_len s"
  by (auto dest: starts_with_bs_byte)

lemma toy_event_small: "i \<in> {''a'', ''b''} \<Longrightarrow> event_json_len (toy_event i) \<le> 1000"
  by (auto simp: event_json_len_def event_members_def members_len_def toy_event_def opt_field_def
      str_json_len_def text_json_len_ascii char_json_len_def toy_time_facts Let_def
      simp del: text_json_len.simps(2))

lemma toy_event_fits: "i \<in> {''a'', ''b''} \<Longrightarrow> fits (toy_event i)"
  using fits_bound_event [of "toy_event i"] toy_event_small [of i] toy_event_bindable [of i]
  by (simp add: max_event_bytes_def)

lemma toy_event_binding:
  assumes "i \<in> {''a'', ''b''}"
  shows "billing_binding cr (toy_event i) = Inr (toy_event i, content_digest cr (toy_event i))"
  using toy_event_bindable [OF assms] toy_event_fits [OF assms] by (simp add: billing_binding_Inr)

text \<open>A fresh database of the first format, as \<open>OpenBillingInbox\<close> creates it, and an empty one of the
  second format.\<close>

definition toy_store :: bytes where "toy_store = replicate 32 (CHR ''a'')"

definition fresh_db :: db where
  "fresh_db =
     [(''events'', empty_bucket), (''ids'', empty_bucket),
      (''meta'', \<lparr>bk_entries = [(''identity'', Raw toy_store), (''version'', Raw ''1'')], bk_seq = 0\<rparr>)]"

definition toy_call :: call where
  "toy_call = \<lparr>cl_ctx = background, cl_now = (\<lambda>_. toy_time), cl_file_ok = (\<lambda>_. True),
     cl_io = \<lparr>io_commit = Committed, io_journal_inuse = 0\<rparr>\<rparr>"

definition open_inbox :: "db \<Rightarrow> inbox" where
  "open_inbox d = \<lparr>ib_db = d, ib_failed = False, ib_closed = False, ib_recovering = False, ib_cfg = no_lifecycle\<rparr>"

lemmas db_defs = db_get_def db_entries_def db_has_def db_seq_def

lemma fresh_db_represents: "represents cr fresh_db []"
  by (auto simp: represents_def versioned_def fresh_db_def db_defs empty_bucket_def)

definition toy_digest :: bytes where "toy_digest = replicate 64 (CHR ''0'')"

lemma toy_digest: "content_digest toy_crypto e = toy_digest" "valid_digest toy_digest"
  by (simp_all add: content_digest_def toy_crypto_def toy_digest_def valid_digest_def is_lower_hex_def list_all_length)

lemma toy_call_simps [simp]:
  "cl_ctx toy_call = background" "cl_now toy_call k = toy_time" "cl_file_ok toy_call k"
  "io_commit (cl_io toy_call) = Committed" "background k = None"
  by (simp_all add: toy_call_def background_def)

lemma open_inbox_simps [simp]:
  "ib_db (open_inbox d) = d" "\<not> ib_failed (open_inbox d)" "\<not> ib_closed (open_inbox d)"
  "\<not> ib_recovering (open_inbox d)" "ib_cfg (open_inbox d) = no_lifecycle" "(open_inbox d)\<lparr>ib_db := d'\<rparr> = open_inbox d'"
  by (simp_all add: open_inbox_def)

lemma toy_health [simp]: "health toy_call n k (open_inbox d) = Inr ()"
  by (simp add: health_Inr)

text \<open>The inbox after one event.\<close>

lemma fresh_db_ready: "versioned fresh_db" "writable fresh_db" "db_get fresh_db ''ids'' i = None"
    "db_seq fresh_db ''events'' = 0"
  by (auto simp: versioned_def writable_def fresh_db_def db_defs empty_bucket_def)

definition one_db :: db where
  "one_db = ib_db (snd (insert_event toy_crypto toy_call (toy_event ''a'') (open_inbox fresh_db)))"

lemma toy_insert:
  "insert_event toy_crypto toy_call (toy_event ''a'') (open_inbox fresh_db) = (Inr (), open_inbox one_db)"
proof -
  let ?body = "insert_body toy_crypto background toy_time (toy_event ''a'') toy_digest"
  have "\<exists>d. run_update (cl_io toy_call) ?body fresh_db = Inr ((), d)"
    by (rule run_insert_accepts) (use toy_event_bindable [of "''a''"] fresh_db_ready in auto)
  then obtain d where d: "run_update (cl_io toy_call) ?body fresh_db = Inr ((), d)" by blast
  have "insert_event toy_crypto toy_call (toy_event ''a'') (open_inbox fresh_db) = (Inr (), open_inbox d)"
    using toy_event_binding [of "''a''" toy_crypto] d
    by (simp add: insert_event_def update_locked_def toy_digest)
  then show ?thesis by (simp add: one_db_def)
qed

lemma one_db_effect:
  obtains t where "insert_body toy_crypto background toy_time (toy_event ''a'') toy_digest (begin_tx fresh_db) = Inr ((), t)"
    "same_content (mt_db t) one_db"
proof -
  let ?body = "insert_body toy_crypto background toy_time (toy_event ''a'') toy_digest"
  have "update_locked (cl_io toy_call) ?body (open_inbox fresh_db) = (Inr (), open_inbox one_db)"
    using toy_insert toy_event_binding [of "''a''" toy_crypto]
    by (auto simp: insert_event_def toy_digest split: prod.splits sum.splits if_splits)
  then have "run_update (cl_io toy_call) ?body fresh_db = Inr ((), one_db)"
    using update_locked_Inr(3) by fastforce
  then show thesis using that finish_same_content by (auto simp: run_update_Inr)
qed

definition one_body :: doc where
  "one_body = DRecord \<lparr>br_seq = 1, br_digest = toy_digest, br_event = toy_event ''a''\<rparr>"

lemma one_db_facts:
  "represents toy_crypto one_db [(''a'', toy_digest)]"
  "db_seq one_db ''events'' = 1"
  "db_get one_db ''events'' k = (if k = sequence_key 1 then Some one_body else None)"
  "db_get one_db ''archive_cache'' k = None"
  "archive_floor one_db = 0"
  "meta_get one_db ''identity'' = Some (Raw toy_store)"
proof -
  from one_db_effect obtain t where
    t: "insert_body toy_crypto background toy_time (toy_event ''a'') toy_digest (begin_tx fresh_db) = Inr ((), t)"
    and same: "same_content (mt_db t) one_db" .
  note E = insert_body_effect [OF t] and S = same_contentD [OF same]
  have "represents toy_crypto (mt_db t) ([] @ [(ev_id (toy_event ''a''), toy_digest)])"
    using toy_event_bindable [of "''a''"] toy_time_facts
    by (intro insert_body_represents [OF fresh_db_represents t] toy_crypto_hex) (auto simp: toy_digest)
  then show "represents toy_crypto one_db [(''a'', toy_digest)]"
    using represents_same_content [OF same] toy_event_bindable(3) [of "''a''"] by simp
  show "db_seq one_db ''events'' = 1" by (simp add: S E fresh_db_ready)
  show "db_get one_db ''events'' k = (if k = sequence_key 1 then Some one_body else None)"
    by (simp add: S E fresh_db_ready one_body_def) (simp add: fresh_db_def db_defs empty_bucket_def)
  show "db_get one_db ''archive_cache'' k = None"
    by (simp add: S E db_get_def [of _ "''archive_cache''"]) (simp add: fresh_db_def db_defs)
  show "archive_floor one_db = 0" "meta_get one_db ''identity'' = Some (Raw toy_store)"
    by (simp_all add: S E) (simp_all add: fresh_db_def db_defs)
qed

lemma one_db_meta:
  "version_of one_db = Some (Raw ''1'')" "meta_get one_db ''recovery_fence'' = None"
  "meta_get one_db ''backfilled_through'' = None" "meta_get one_db ''legacy_through'' = None"
proof -
  from one_db_effect obtain t where
    t: "insert_body toy_crypto background toy_time (toy_event ''a'') toy_digest (begin_tx fresh_db) = Inr ((), t)"
    and same: "same_content (mt_db t) one_db" .
  note E = insert_body_effect [OF t] and S = same_contentD [OF same]
  show "version_of one_db = Some (Raw ''1'')" "meta_get one_db ''recovery_fence'' = None"
    "meta_get one_db ''backfilled_through'' = None" "meta_get one_db ''legacy_through'' = None"
    by (simp_all add: S E) (simp_all add: fresh_db_def db_defs)
qed

lemma one_db_writable: "writable one_db"
proof -
  let ?body = "insert_body toy_crypto background toy_time (toy_event ''a'') toy_digest"
  have "update_locked (cl_io toy_call) ?body (open_inbox fresh_db) = (Inr (), open_inbox one_db)"
    using toy_insert toy_event_binding [of "''a''" toy_crypto]
    by (auto simp: insert_event_def toy_digest split: prod.splits sum.splits if_splits)
  then have "run_update (cl_io toy_call) ?body fresh_db = Inr ((), one_db)"
    using update_locked_Inr(3) by fastforce
  then obtain t where t: "?body (begin_tx fresh_db) = Inr ((), t)" "finish_update (cl_io toy_call) t = Inr one_db"
    by (auto simp: run_update_Inr)
  note E = insert_body_effect [OF t(1)]
  have meta: "meta_get (mt_db t) ''compaction_session'' = None" "meta_get (mt_db t) ''mutation_generation'' = None"
    by (simp_all add: E) (simp_all add: fresh_db_def db_defs)
  from t(2) show ?thesis
  proof (cases rule: finish_update_cases)
    case (plain g)
    then have "g = 0" using meta(2) by simp
    with plain(4) meta(1) show ?thesis unfolding writable_def plain(6) by simp
  qed (use E(3) meta(1) in simp_all)
qed

lemma one_db_small: "small_records one_db"
  using toy_event_small [of "''a''"] toy_event_fits [of "''a''"]
  by (auto simp: small_records_def one_db_facts one_body_def small_record_def max_event_bytes_def)

lemma toy_page: "\<exists>p. page toy_crypto toy_call NoCursor 1 (open_inbox one_db) = (Inr p, open_inbox one_db)"
proof -
  have "available one_db m" if "0 < m" "m \<le> 1" for m
  proof -
    have "m = 1" using that by (metis inc_le antisym add_0)
    then show ?thesis by (simp add: available_def one_db_facts)
  qed
  then have "\<exists>r. page_loop toy_crypto background one_db 0 1 (Suc 0) 0 0 0 = Inr r"
    using page_loop_error [OF one_db_facts(1) one_db_small, of 1 background "Suc 0" 0 0 0] one_db_facts(2,5)
    by (cases "page_loop toy_crypto background one_db 0 1 (Suc 0) 0 0 0") (auto simp: background_def)
  then show ?thesis
    by (auto simp: page_def page_view_def page_start_def one_db_facts Let_def max_query_limit_def
        simp del: page_loop.simps)
qed

end
