(* ===== verification/InboxProperties.thy ===== *)
theory InboxProperties
  imports Sample
begin

text \<open>
  The properties of the inbox: inserting refines appending to the ledger, a second submission
  is settled by the stored digest, pages are consecutive slices, and an honest store is never
  declared unavailable by reading it.
\<close>

lemma insert_event_cases:
  assumes "insert_event cr c e ib = (r, ib')"
  obtains
    (refused) x where "r = Inl x" "ib' = ib"
  | (run) e' dg r' ib1 where "health c 0 0 ib = Inr ()" "billing_binding cr e = Inr (e', dg)"
      "update_locked (cl_io c) (insert_body cr (cl_ctx c) (cl_now c 0) e' dg) ib = (r', ib1)"
      "(case r' of Inr u \<Rightarrow> r = Inr u \<and> ib' = ib1
        | Inl x \<Rightarrow> if benign_error x \<or> x = ErrPanic then r = Inl x \<and> ib' = ib1
                  else r = Inl ErrBillingUnavailable \<and> ib' = ib1\<lparr>ib_failed := True\<rparr>)"
proof (cases "health c 0 0 ib")
  case (Inl x)
  with assms show thesis by (intro refused [of x]) (auto simp: insert_event_def)
next
  case (Inr u)
  show thesis
  proof (cases "billing_binding cr e")
    case (Inl x)
    with assms Inr show thesis by (intro refused [of x]) (auto simp: insert_event_def)
  next
    case (Inr b)
    obtain e' dg where b: "b = (e', dg)" by (cases b)
    obtain r' ib1 where upd:
        "update_locked (cl_io c) (insert_body cr (cl_ctx c) (cl_now c 0) e' dg) ib = (r', ib1)"
      by fastforce
    have "health c 0 0 ib = Inr ()" using \<open>health c 0 0 ib = Inr u\<close> by simp
    moreover have "(case r' of Inr u \<Rightarrow> r = Inr u \<and> ib' = ib1
        | Inl x \<Rightarrow> if benign_error x \<or> x = ErrPanic then r = Inl x \<and> ib' = ib1
                  else r = Inl ErrBillingUnavailable \<and> ib' = ib1\<lparr>ib_failed := True\<rparr>)"
      using assms \<open>health c 0 0 ib = Inr u\<close> Inr b upd
      by (auto simp: insert_event_def health_Inr split: sum.splits if_splits)
    ultimately show thesis using Inr b upd by (intro run) auto
  qed
qed

lemma insert_event_ledger:
  assumes rep: "represents cr (ib_db ib) L" and hex: "sha_hex cr" and now: "\<not> is_zero (cl_now c 0)"
    and ins: "insert_event cr c e ib = (r, ib')"
  defines "L' \<equiv> L @ [(ev_id e, content_digest cr (bound_event e))]"
  shows "case r of
      Inr _ \<Rightarrow> ev_id e \<notin> fst ` set L \<and> represents cr (ib_db ib') L' \<and> ib' = ib\<lparr>ib_db := ib_db ib'\<rparr>
    | Inl _ \<Rightarrow> represents cr (ib_db ib') L \<or> ib_failed ib' \<and> represents cr (ib_db ib') L'"
  using ins
proof (cases rule: insert_event_cases)
  case (refused x)
  with rep show ?thesis by simp
next
  case (run e' dg r' ib1)
  have e': "bindable e'" "bound_event e' = e'" "content_digest cr e' = dg" "ev_id e' = ev_id e"
      "L' = L @ [(ev_id e', dg)]"
    using run(2) bindable_bound_event [of e] by (auto simp: billing_binding_Inr L'_def)
  have grown: "ev_id e' \<notin> fst ` set L \<and> represents cr d' L'"
    if "run_update (cl_io c) (insert_body cr (cl_ctx c) (cl_now c 0) e' dg) (ib_db ib) = Inr (u, d')" for u d'
  proof -
    from that obtain t where t: "insert_body cr (cl_ctx c) (cl_now c 0) e' dg (begin_tx (ib_db ib)) = Inr (u, t)"
        "finish_update (cl_io c) t = Inr d'"
      by (auto simp: run_update_Inr)
    from insert_body_represents [OF rep t(1) e'(1-3) hex now] finish_same_content [OF t(2)] e'(5)
    show ?thesis by (simp add: represents_same_content)
  qed
  from run(3) show ?thesis
  proof (cases rule: update_locked_cases)
    case (committed u d)
    with run(4) grown [OF committed(1)] e'(4) show ?thesis by auto
  next
    case (unknown u d)
    with run(4) grown [OF unknown(1)] show ?thesis by (auto simp: benign_error_def)
  qed (use run(4) rep in \<open>auto split: if_splits\<close>)
qed

text \<open>C3: \<open>InsertEvent\<close> refines appending to the ledger. When it reports success, the identifier
  was new and the committed database represents the ledger with one more entry, the identifier
  with the digest of its usage fields; when it reports an error, the database represents the
  same ledger, or, after a commit whose outcome is not known, the inbox has failed closed and
  the ledger is the old one or the appended one.\<close>

theorem insert_event_refines:
  assumes rep: "represents cr (ib_db ib) L" and hex: "sha_hex cr" and now: "\<not> is_zero (cl_now c 0)"
    and ins: "insert_event cr c e ib = (r, ib')"
  defines "L' \<equiv> L @ [(ev_id e, content_digest cr (bound_event e))]"
  shows "case r of
      Inr _ \<Rightarrow> ev_id e \<notin> fst ` set L \<and> represents cr (ib_db ib') L' \<and> ib' = ib\<lparr>ib_db := ib_db ib'\<rparr>
    | Inl _ \<Rightarrow> represents cr (ib_db ib') L \<or> ib_failed ib' \<and> represents cr (ib_db ib') L'"
  unfolding L'_def by (rule insert_event_ledger [OF rep hex now ins])

theorem insert_event_refines_witness:
  "represents toy_crypto one_db [(''a'', toy_digest)]"
  using insert_event_refines [OF _ toy_crypto_hex _ toy_insert, of "[]"] fresh_db_represents
    toy_time_facts(1) toy_event_bindable [of "''a''"] by (simp add: toy_digest)

text \<open>C6: The verdict on an identifier the inbox has seen is settled by the first content it committed:
  the same usage fields are a duplicate, any other content is a conflict, also after the payload
  has been retired to the archive, and nothing changes. There is one exception. In the
  first format of the store the stored record itself is bound again; where redaction has made it
  larger than the bound, the answer is unavailable whatever the content, and the inbox is marked
  as failed. In every case the event is not accepted and the data are as they were.\<close>

theorem resubmission_is_settled:
  assumes rep: "represents cr (ib_db ib) L"
    and known: "(ev_id e, dg0) \<in> set L" and bind: "billing_binding cr e = Inr (e', dg)"
    and ready: "health c 0 0 ib = Inr ()" "cl_ctx c 1 = None"
  shows "insert_event cr c e ib =
     (if outgrown (ib_db ib) (ev_id e) then (Inl ErrBillingUnavailable, ib\<lparr>ib_failed := True\<rparr>)
      else (Inl (if dg0 = dg then ErrDuplicateEvent else ErrBillingConflict), ib))"
proof -
  have flags: "\<not> ib_failed ib" "\<not> ib_closed ib" "\<not> ib_recovering ib" using ready by (simp_all add: health_Inr)
  have id: "ev_id e' = ev_id e" using bind by (simp add: billing_binding_Inr)
  define answer where "answer =
    (if outgrown (ib_db ib) (ev_id e) then ErrBillingUnavailable else if dg0 = dg then ErrDuplicateEvent else ErrBillingConflict)"
  from rep known obtain key where key: "db_get (ib_db ib) ''ids'' (ev_id e) = Some key"
      "existing_receipt cr (ib_db ib) (ev_id e) dg key = answer"
    unfolding answer_def
    by (rule existing_receipt_verdict)
  have "update_locked (cl_io c) (insert_body cr (cl_ctx c) (cl_now c 0) e' dg) ib =
          (Inl answer, ib)"
    using key id ready(2) flags
    by (simp add: update_locked_def run_update_def insert_body_def begin_tx_def ctx_check_def)
  then show ?thesis using ready bind flags by (simp add: insert_event_def benign_error_def answer_def)
qed

theorem resubmission_is_settled_witness:
  "insert_event toy_crypto toy_call (toy_event ''a'') (open_inbox one_db)
     = (Inl ErrDuplicateEvent, open_inbox one_db)"
  using resubmission_is_settled [of toy_crypto "open_inbox one_db" "[(''a'', toy_digest)]" "toy_event ''a''"
      toy_digest "toy_event ''a''" toy_digest toy_call]
    one_db_facts(1) small_not_outgrown [OF one_db_small] toy_event_binding [of "''a''" toy_crypto]
    toy_event_bindable(3) [of "''a''"]
  by (simp add: toy_digest)

text \<open>C4: A page is the slice of the ledger that follows its cursor: the records are the entries after
  the cursor, in sequence order, without a gap and without a repetition; the new cursor is the
  end of the slice, no record lies beyond the horizon, and reading changes nothing.\<close>

theorem page_is_slice:
  assumes rep: "represents cr (ib_db ib) L" and page: "page cr c text limit ib = (Inr p, ib')"
  shows "ib' = ib
      \<and> map summary (bp_records p) = take (length (bp_records p)) (drop (unat (cursor_after text)) L)
      \<and> map (\<lambda>r. unat (br_seq r)) (bp_records p) =
          [Suc (unat (cursor_after text))..<Suc (unat (bc_after (bp_next p)))]
      \<and> unat (bc_after (bp_next p)) \<le> unat (bp_high p) \<and> unat (bp_high p) \<le> length L
      \<and> bp_more p = (bc_after (bp_next p) < bp_high p)"
proof -
  from page have view: "page_view cr (cl_ctx c) (ib_db ib) text (nat limit) = Inr p" and same: "ib' = ib"
    by (auto simp: page_def split: sum.splits if_splits)
  have "length L = unat (db_seq (ib_db ib) ''events'')" using rep by (simp add: represents_def)
  with page_view_slice [OF rep view] same show ?thesis by (simp add: word_le_nat_alt)
qed

theorem page_is_slice_witness:
  "\<exists>p. page toy_crypto toy_call NoCursor 1 (open_inbox one_db) = (Inr p, open_inbox one_db)
     \<and> map summary (bp_records p) = take (length (bp_records p)) [(''a'', toy_digest)]"
proof -
  obtain p where p: "page toy_crypto toy_call NoCursor 1 (open_inbox one_db) = (Inr p, open_inbox one_db)"
    using toy_page by blast
  with page_is_slice [OF _ p, of "[(''a'', toy_digest)]"] one_db_facts(1) show ?thesis
    by (auto simp: cursor_after_def)
qed

text \<open>C11: Reading an honest store never declares it unavailable. On a store none of whose records has
  been made larger than the bound by redaction, and with an acceptable cursor and limit, a page either holds at least one record when any is left below its horizon, or fails because a
  retired sequence it needs has not been rehydrated; the inbox does not change.\<close>

theorem page_is_served:
  assumes rep: "represents cr (ib_db ib) L" and small: "small_records (ib_db ib)"
    and ready: "health c 0 0 ib = Inr ()" "cl_ctx c = background" "1 \<le> limit" "limit \<le> max_query_limit"
    and cursor: "page_start (ib_db ib) text = Inr cu"
  shows "\<exists>r. page cr c text limit ib = (r, ib)
     \<and> (case r of
          Inr p \<Rightarrow> bc_after cu < bc_through cu \<longrightarrow> bp_records p \<noteq> []
        | Inl x \<Rightarrow> x = ErrBillingArchiveUnavailable
            \<and> (\<exists>m. bc_after cu < m \<and> m \<le> bc_through cu \<and> \<not> available (ib_db ib) m))"
proof -
  let ?d = "ib_db ib"
  obtain k where k: "nat limit = Suc k" using ready(3) by (metis gr0_implies_Suc zero_less_nat_eq zero_less_one order_less_le_trans)
  have flags: "\<not> (limit < 1 \<or> limit > max_query_limit)" using ready(3,4) by simp
  show ?thesis
  proof (cases "page_loop cr background ?d (archive_floor ?d) (bc_through cu) (Suc k) 0 0 (bc_after cu)")
    case (Inl x)
    from page_loop_error [OF rep small page_start_bounds(2) [OF cursor] Inl]
    have x: "x = ErrBillingArchiveUnavailable"
      "\<exists>m. bc_after cu < m \<and> m \<le> bc_through cu \<and> \<not> available ?d m"
      by (auto simp: background_def)
    have "page cr c text limit ib = (Inl x, ib)"
      using Inl ready flags cursor k x(1) by (simp add: page_def page_view_def)
    with x show ?thesis by auto
  next
    case (Inr res)
    obtain pos rs where res: "res = (pos, rs)" by (cases res)
    then obtain p where p: "page cr c text limit ib = (Inr p, ib)" "bp_records p = rs"
      using Inr ready flags cursor k by (simp add: page_def page_view_def Let_def)
    have "bc_after cu < bc_through cu \<longrightarrow> rs \<noteq> []"
      using page_loop_progress Inr res by blast
    with p show ?thesis by auto
  qed
qed

theorem page_is_served_witness:
  "\<exists>p. page toy_crypto toy_call NoCursor 1 (open_inbox one_db) = (Inr p, open_inbox one_db)
     \<and> bp_records p \<noteq> []"
proof -
  have "page_start one_db NoCursor = Inr \<lparr>bc_store = toy_store, bc_after = 0, bc_through = 1\<rparr>"
    by (simp add: page_start_def one_db_facts)
  with page_is_served [of toy_crypto "open_inbox one_db" "[(''a'', toy_digest)]" toy_call 1 NoCursor]
    one_db_facts(1) one_db_small toy_page show ?thesis
    by (auto simp: max_query_limit_def)
qed

end
