(* ===== verification/Oversize.thy ===== *)
theory Oversize
  imports InboxProperties
begin

text \<open>
  A gap of the content binding. The size of an event is checked before its message is redacted,
  and a redacted message can be longer than the message: an accepted event can be stored in a
  form that the reader rejects.
\<close>

definition token_event :: "nat \<Rightarrow> log_event" where
  "token_event n = (toy_event ''a'')\<lparr>ev_msg := ''token'', ev_trace := replicate n (CHR ''x'')\<rparr>"

definition base_len :: nat where
  "base_len = event_json_len (token_event 0) + 14"

definition padding :: nat where "padding = max_event_bytes - base_len"

definition boundary_event :: log_event where "boundary_event = token_event padding"

lemma text_len_padding: "text_json_len (replicate n (CHR ''x'')) = n"
  by (induction n) (auto simp: text_json_len_ascii char_json_len_def simp del: text_json_len.simps(2))

lemma token_redacted: "redact_text ''token'' = redacted_value"
  by (simp add: redact_text_def to_lower_ascii ascii_lower_def text_markers_def starts_with_def
      del: to_lower.simps(2))

lemma token_event_len: "0 < n \<Longrightarrow> event_json_len (token_event n) = base_len + n"
  by (simp add: base_len_def event_json_len_def event_members_def members_len_def token_event_def toy_event_def
      opt_field_def str_json_len_def text_len_padding del: text_json_len.simps)

lemma base_len_small: "base_len \<le> 2000"
  by (simp add: base_len_def event_json_len_def event_members_def members_len_def token_event_def toy_event_def
      opt_field_def str_json_len_def text_json_len_ascii char_json_len_def toy_time_facts Let_def
      del: text_json_len.simps(2))

lemma boundary_len: "0 < padding" "event_json_len boundary_event = max_event_bytes"
  using base_len_small token_event_len [of padding]
  by (simp_all add: padding_def boundary_event_def max_event_bytes_def)

lemma boundary_bindable: "bindable boundary_event" "ev_id boundary_event = ''a''"
proof -
  have vis: "\<not> blank ''token''" by (rule visible_not_blank) (simp add: visible_def)
  have "bindable (toy_event ''a'')" by (rule toy_event_bindable) simp
  then show "bindable boundary_event"
    using vis by (auto simp: bindable_def Let_def validate_event_Inr boundary_event_def token_event_def)
  show "ev_id boundary_event = ''a''" by (simp add: boundary_event_def token_event_def toy_event_def)
qed

lemma boundary_stored:
  "bound_event boundary_event = boundary_event\<lparr>ev_msg := redacted_value\<rparr>"
  "event_json_len (bound_event boundary_event) = max_event_bytes + 5"
proof -
  have f: "ev_fields boundary_event = [(''usage_event'', JBool True)]"
    by (simp add: boundary_event_def token_event_def toy_event_def)
  have t: "ev_time boundary_event = toy_time" "ev_msg boundary_event = ''token''"
    by (simp_all add: boundary_event_def token_event_def toy_event_def)
  show stored: "bound_event boundary_event = boundary_event\<lparr>ev_msg := redacted_value\<rparr>"
    using f t usage_event_name toy_time_facts(3) token_redacted
    by (simp add: bound_event_def redact_event_def Let_def)
  have "event_json_len (boundary_event\<lparr>ev_msg := redacted_value\<rparr>) = event_json_len boundary_event + 5"
    by (simp add: boundary_event_def event_json_len_def event_members_def members_len_def token_event_def toy_event_def
        opt_field_def str_json_len_def redacted_value_def text_json_len_ascii char_json_len_def
        del: text_json_len.simps(2))
  then show "event_json_len (bound_event boundary_event) = max_event_bytes + 5"
    by (simp add: stored boundary_len)
qed

lemma boundary_fits: "fits boundary_event" "\<not> fits (bound_event boundary_event)"
proof -
  have "canon_map (ev_fields boundary_event) = ev_fields boundary_event"
    by (simp add: boundary_event_def token_event_def toy_event_def)
  then show "fits boundary_event" by (simp only: fits_def same_fields) (simp add: boundary_len)
  show "\<not> fits (bound_event boundary_event)"
    using fits_bound_event [OF boundary_bindable(1)] boundary_stored(2) by simp
qed

lemma boundary_insert:
  obtains d where
    "insert_event toy_crypto toy_call boundary_event (open_inbox fresh_db) = (Inr (), open_inbox d)"
    "db_get d ''events'' (sequence_key 1) =
       Some (DRecord \<lparr>br_seq = 1, br_digest = toy_digest, br_event = bound_event boundary_event\<rparr>)"
    "db_seq d ''events'' = 1" "meta_get d ''archive_floor'' = None" "db_get d ''ids'' ''a'' = Some (Raw (sequence_key 1))"
proof -
  let ?e = "bound_event boundary_event"
  let ?body = "insert_body toy_crypto background toy_time ?e toy_digest"
  have e: "bindable ?e" using bindable_bound_event [OF boundary_bindable(1)] by simp
  have "\<exists>d. run_update (cl_io toy_call) ?body fresh_db = Inr ((), d)"
    by (rule run_insert_accepts) (use e fresh_db_ready in auto)
  then obtain d where d: "run_update (cl_io toy_call) ?body fresh_db = Inr ((), d)" by blast
  then obtain t where t: "?body (begin_tx fresh_db) = Inr ((), t)" "same_content (mt_db t) d"
    using finish_same_content by (auto simp: run_update_Inr)
  note E = insert_body_effect [OF t(1)] and S = same_contentD [OF t(2)]
  have ins: "insert_event toy_crypto toy_call boundary_event (open_inbox fresh_db) = (Inr (), open_inbox d)"
  proof -
    have "billing_binding toy_crypto boundary_event = Inr (?e, toy_digest)"
      by (simp only: billing_binding_Inr) (simp add: boundary_bindable boundary_fits toy_digest)
    then show ?thesis using d by (simp add: insert_event_def update_locked_def)
  qed
  show thesis
  proof (rule that [OF ins])
    show "db_get d ''events'' (sequence_key 1) = Some (DRecord \<lparr>br_seq = 1, br_digest = toy_digest, br_event = ?e\<rparr>)"
      by (simp add: S E fresh_db_ready)
    show "db_seq d ''events'' = 1" by (simp add: S E fresh_db_ready)
    show "meta_get d ''archive_floor'' = None" by (simp add: S E) (simp add: fresh_db_def db_defs)
    have "version_of fresh_db = Some (Raw ''1'')" by (simp add: fresh_db_def db_defs)
    then show "db_get d ''ids'' ''a'' = Some (Raw (sequence_key 1))"
      by (simp add: S E boundary_bindable(2) receipt_doc_def) (simp add: fresh_db_ready)
  qed
qed

text \<open>C18: An accepted event can make the inbox unavailable. An event of exactly the maximal size whose
  message is a single marker is accepted and committed; redaction lengthens its message by five
  bytes, and the next page that reaches it is refused as unavailable and marks the inbox as
  failed, so that every later call is refused too. The same happens when the event is submitted
  again to a store in the first format, as this one is: the producer that repeats what was
  committed is not told that it is a duplicate.\<close>

theorem accepted_event_fails_the_inbox:
  "\<exists>ib. insert_event toy_crypto toy_call boundary_event (open_inbox fresh_db) = (Inr (), ib)
     \<and> page toy_crypto toy_call NoCursor 1 ib = (Inl ErrBillingUnavailable, ib\<lparr>ib_failed := True\<rparr>)
     \<and> insert_event toy_crypto toy_call boundary_event ib = (Inl ErrBillingUnavailable, ib\<lparr>ib_failed := True\<rparr>)"
proof -
  from boundary_insert obtain d where d:
    "insert_event toy_crypto toy_call boundary_event (open_inbox fresh_db) = (Inr (), open_inbox d)"
    "db_get d ''events'' (sequence_key 1) =
       Some (DRecord \<lparr>br_seq = 1, br_digest = toy_digest, br_event = bound_event boundary_event\<rparr>)"
    "db_seq d ''events'' = 1" "meta_get d ''archive_floor'' = None" "db_get d ''ids'' ''a'' = Some (Raw (sequence_key 1))" .
  have unbound: "\<exists>x. billing_binding toy_crypto (bound_event boundary_event) = Inl x"
    using boundary_fits(2) by (cases "billing_binding toy_crypto (bound_event boundary_event)")
      (auto simp: billing_binding_Inr)
  from unbound have "page_view toy_crypto background d NoCursor 1 = Inl ErrBillingUnavailable"
    using d by (auto simp: page_view_def page_start_def Let_def page_fetch_def page_check_def One_nat_def)
  then have "page toy_crypto toy_call NoCursor 1 (open_inbox d) =
      (Inl ErrBillingUnavailable, (open_inbox d)\<lparr>ib_failed := True\<rparr>)"
    by (simp add: page_def max_query_limit_def)
  moreover have "insert_event toy_crypto toy_call boundary_event (open_inbox d) =
      (Inl ErrBillingUnavailable, (open_inbox d)\<lparr>ib_failed := True\<rparr>)"
  proof -
    have "billing_binding toy_crypto boundary_event = Inr (bound_event boundary_event, toy_digest)"
      by (simp only: billing_binding_Inr) (simp add: boundary_bindable boundary_fits toy_digest)
    moreover have "existing_receipt toy_crypto d ''a'' toy_digest (Raw (sequence_key 1)) = ErrBillingUnavailable"
      using unbound d(2) by (auto simp: existing_receipt_def)
    ultimately show ?thesis
      using d(5) boundary_bindable(2)
      by (simp add: insert_event_def update_locked_def run_update_def insert_body_def begin_tx_def benign_error_def)
  qed
  ultimately show ?thesis using d(1) by blast
qed

end
