(* ===== verification/Archive.thy ===== *)
theory Archive
  imports Documents
begin

text \<open>
  The package \<open>billingarchive\<close>: the bounds of a backup set, the validation of its manifest,
  the signed completion of the independent verifier, the reconciliation range proof, the
  recovery approval, and the canonical usage binding of \<open>usage.go\<close>.
\<close>

section \<open>Bounds (archive.go)\<close>

definition archive_version :: int where "archive_version = 1"
definition default_part_bytes :: int where "default_part_bytes = 268435456"
definition max_cipher_part_bytes :: int where "max_cipher_part_bytes = 285212672"
definition max_set_bytes :: int where "max_set_bytes = 68719476736"
definition max_parts :: nat where "max_parts = 1024"
definition max_manifest_bytes :: nat where "max_manifest_bytes = 4194304"
definition signature_domain :: bytes where "signature_domain = ''rtk-billing-backup-verification-v1'' @ bs [0]"
definition range_domain :: bytes where "range_domain = ''rtk-billing-backup-range-verification-v1'' @ bs [0]"
definition recovery_domain :: bytes where "recovery_domain = ''rtk-billing-inbox-recovery-admission-v1'' @ bs [0]"

lemmas bounds_defs = archive_version_def default_part_bytes_def max_cipher_part_bytes_def
  max_set_bytes_def max_parts_def

definition valid_sha :: "bytes \<Rightarrow> bool" where
  "valid_sha v = hex_of_bytes 32 v"

text \<open>\<open>path.Base\<close>.\<close>

definition path_base :: "bytes \<Rightarrow> bytes" where
  "path_base p =
     (if p = [] then ''.''
      else let q = rev (dropWhile (\<lambda>c. c = CHR ''/'') (rev p))
           in if q = [] then ''/'' else rev (takeWhile (\<lambda>c. c \<noteq> CHR ''/'') (rev q)))"

section \<open>Manifest.Validate\<close>

fun distinct_safe :: "bytes list \<Rightarrow> bytes list \<Rightarrow> bool" where
  "distinct_safe seen [] = True"
| "distinct_safe seen (e # es) = (safe_id e \<and> e \<notin> set seen \<and> distinct_safe (e # seen) es)"

text \<open>
  The loop over the parts: the names seen, and per kind the last ordinal and the bytes so
  far. The sums stay below \<open>MaxSetBytes\<close>, far from the \<open>int64\<close> range.
\<close>

record part_scan =
  ps_seen :: "bytes list"
  ps_snapshot_ord :: int
  ps_events_ord :: int
  ps_snapshot_off :: int
  ps_events_off :: int
  ps_total :: int

definition part_scan_init :: part_scan where
  "part_scan_init = \<lparr>ps_seen = [], ps_snapshot_ord = 0, ps_events_ord = 0, ps_snapshot_off = 0,
     ps_events_off = 0, ps_total = 0\<rparr>"

definition part_ok :: "part_scan \<Rightarrow> part \<Rightarrow> bool" where
  "part_ok s p =
     ((pt_kind p = ''snapshot'' \<or> pt_kind p = ''events'')
      \<and> pt_name p = path_base (pt_name p) \<and> safe_id (pt_name p) \<and> pt_name p \<notin> set (ps_seen s)
      \<and> pt_ordinal p = (if pt_kind p = ''snapshot'' then ps_snapshot_ord s else ps_events_ord s) + 1
      \<and> pt_offset p = (if pt_kind p = ''snapshot'' then ps_snapshot_off s else ps_events_off s)
      \<and> 1 \<le> pt_plain p \<and> pt_plain p \<le> default_part_bytes
      \<and> 1 \<le> pt_cipher p \<and> pt_cipher p \<le> max_cipher_part_bytes
      \<and> valid_sha (pt_plain_sha p) \<and> valid_sha (pt_cipher_sha p)
      \<and> ps_total s \<le> max_set_bytes - pt_plain p)"

definition part_next :: "part_scan \<Rightarrow> part \<Rightarrow> part_scan" where
  "part_next s p =
     (let s = s\<lparr>ps_seen := pt_name p # ps_seen s, ps_total := ps_total s + pt_plain p\<rparr>
      in if pt_kind p = ''snapshot''
         then s\<lparr>ps_snapshot_ord := ps_snapshot_ord s + 1, ps_snapshot_off := ps_snapshot_off s + pt_plain p\<rparr>
         else s\<lparr>ps_events_ord := ps_events_ord s + 1, ps_events_off := ps_events_off s + pt_plain p\<rparr>)"

fun scan_parts :: "part_scan \<Rightarrow> part list \<Rightarrow> part_scan option" where
  "scan_parts s [] = Some s"
| "scan_parts s (p # ps) = (if part_ok s p then scan_parts (part_next s p) ps else None)"

definition validate_manifest :: "manifest \<Rightarrow> go_error + unit" where
  "validate_manifest m =
     (if length (mf_sources m) < 1 \<or> length (mf_sources m) > 8
      then Inl (ErrMsg ''explicit source event environments required'')
      else if \<not> distinct_safe [] (mf_sources m)
      then Inl (ErrMsg ''invalid source event environment allowlist'')
      else if mf_version m \<noteq> archive_version \<or> \<not> safe_id (mf_env m) \<or> \<not> safe_id (mf_stack m)
           \<or> \<not> safe_id (mf_set m) \<or> \<not> safe_id (mf_key_id m) \<or> length (mf_store m) \<noteq> 32
           \<or> \<not> valid_sha (mf_snapshot_sha m) \<or> \<not> valid_sha (mf_bindings m)
           \<or> mf_snapshot_bytes m < 1 \<or> mf_snapshot_bytes m > max_set_bytes
           \<or> is_zero (mf_created m) \<or> length (mf_parts m) < 1 \<or> length (mf_parts m) > max_parts
      then Inl (ErrMsg ''invalid billing manifest identity or bounds'')
      else if \<not> hex_of_bytes 16 (mf_store m) then Inl (ErrMsg ''invalid store identity'')
      else if mf_count m = 0 \<and> (mf_from m \<noteq> 0 \<or> mf_through m \<noteq> 0 \<or> \<not> is_zero (mf_max_received m))
      then Inl (ErrMsg ''invalid empty range'')
      else if mf_count m \<noteq> 0
           \<and> (mf_from m = 0 \<or> mf_through m < mf_from m \<or> mf_through m > mf_high m
              \<or> mf_through m - mf_from m + 1 \<noteq> mf_count m \<or> is_zero (mf_max_received m)
              \<or> after (mf_max_received m) (mf_created m))
      then Inl (ErrMsg ''invalid receipt range'')
      else if mf_recipients m = [] \<or> length (mf_recipients m) > 16
      then Inl (ErrMsg ''recipient fingerprints required'')
      else if \<not> list_all valid_sha (mf_recipients m)
      then Inl (ErrMsg ''invalid recipient fingerprint'')
      else case scan_parts part_scan_init (mf_parts m) of
        None \<Rightarrow> Inl (ErrMsg ''invalid, unordered or oversized archive part'')
      | Some s \<Rightarrow>
          if ps_snapshot_off s \<noteq> mf_snapshot_bytes m \<or> (mf_count m > 0 \<and> ps_events_ord s = 0)
             \<or> (mf_count m = 0 \<and> ps_events_ord s \<noteq> 0)
          then Inl (ErrMsg ''incomplete snapshot or export'')
          else Inr ())"

section \<open>The size of a manifest and its codec\<close>

definition quoted_uint_len :: "u64 \<Rightarrow> nat" where
  "quoted_uint_len n = 2 + length (dec_nat (unat n))"

definition quoted_int_len :: "int \<Rightarrow> nat" where
  "quoted_int_len i = 2 + length (dec_int i)"

definition texts_len :: "bytes list \<Rightarrow> nat" where
  "texts_len xs = jval_len (JArr (map JStr xs))"

definition part_len :: "part \<Rightarrow> nat" where
  "part_len p = members_len
     [(''name'', str_json_len (pt_name p)), (''kind'', str_json_len (pt_kind p)),
      (''ordinal'', length (dec_int (pt_ordinal p))), (''offset'', quoted_int_len (pt_offset p)),
      (''plain_bytes'', quoted_int_len (pt_plain p)), (''plain_sha256'', str_json_len (pt_plain_sha p)),
      (''cipher_bytes'', quoted_int_len (pt_cipher p)),
      (''cipher_sha256'', str_json_len (pt_cipher_sha p))]"

definition manifest_len :: "manifest \<Rightarrow> nat" where
  "manifest_len m = members_len
     [(''version'', length (dec_int (mf_version m))), (''environment'', str_json_len (mf_env m)),
      (''source_event_environments'', texts_len (mf_sources m)),
      (''stack'', str_json_len (mf_stack m)), (''store_id'', str_json_len (mf_store m)),
      (''set_id'', str_json_len (mf_set m)), (''created_at'', 2 + time_text_len (mf_created m)),
      (''high_water'', quoted_uint_len (mf_high m)), (''from_sequence'', quoted_uint_len (mf_from m)),
      (''through_sequence'', quoted_uint_len (mf_through m)),
      (''record_count'', quoted_uint_len (mf_count m)),
      (''max_received_at'', 2 + time_text_len (mf_max_received m)),
      (''records_bindings_sha256'', str_json_len (mf_bindings m)),
      (''snapshot_bytes'', quoted_int_len (mf_snapshot_bytes m)),
      (''snapshot_sha256'', str_json_len (mf_snapshot_sha m)),
      (''encryption_key_id'', str_json_len (mf_key_id m)),
      (''recipient_fingerprints'', texts_len (mf_recipients m)),
      (''parts'', 2 + (\<Sum>p \<leftarrow> mf_parts m. part_len p + 1))]"

definition manifest_json_ok :: "manifest \<Rightarrow> bool" where
  "manifest_json_ok m = (time_json_ok (mf_created m) \<and> time_json_ok (mf_max_received m))"

definition marshal_manifest :: "manifest \<Rightarrow> go_error + doc" where
  "marshal_manifest m =
     andThen (validate_manifest m) (\<lambda>_.
       if \<not> manifest_json_ok m then Inl (ErrMsg ''json: unsupported time'')
       else if manifest_len m > max_manifest_bytes then Inl (ErrMsg ''manifest exceeds bound'')
       else Inr (DManifest m))"

definition decode_manifest :: "doc \<Rightarrow> go_error + manifest" where
  "decode_manifest d =
     (case d of
        DManifest m \<Rightarrow>
          if manifest_len m > max_manifest_bytes then Inl (ErrMsg ''JSON exceeds bound'')
          else andThen (validate_manifest m) (\<lambda>_. Inr m)
      | _ \<Rightarrow> Inl (ErrMsg ''invalid JSON''))"

section \<open>Completions\<close>

definition payload_for :: "crypto \<Rightarrow> manifest \<Rightarrow> doc \<Rightarrow> bytes \<Rightarrow> bytes \<Rightarrow> bytes \<Rightarrow> gtime \<Rightarrow> verification_payload" where
  "payload_for c m mb key policy release now =
     \<lparr>vp_version = archive_version, vp_verdict = ''verified'', vp_key = key, vp_env = mf_env m,
      vp_stack = mf_stack m, vp_store = mf_store m, vp_set = mf_set m,
      vp_manifest_sha = sha c mb, vp_objects_sha = sha c (DParts (mf_parts m)),
      vp_high = mf_high m, vp_from = mf_from m, vp_through = mf_through m, vp_count = mf_count m,
      vp_max_received = mf_max_received m, vp_bindings = mf_bindings m, vp_key_id = mf_key_id m,
      vp_recipients = mf_recipients m, vp_verified_at = utc now, vp_policy = policy,
      vp_release = release\<rparr>"

definition payload_len :: "verification_payload \<Rightarrow> nat" where
  "payload_len p = members_len
     [(''version'', length (dec_int (vp_version p))), (''verdict'', str_json_len (vp_verdict p)),
      (''verifier_key_id'', str_json_len (vp_key p)), (''environment'', str_json_len (vp_env p)),
      (''stack'', str_json_len (vp_stack p)), (''store_id'', str_json_len (vp_store p)),
      (''set_id'', str_json_len (vp_set p)), (''manifest_sha256'', str_json_len (vp_manifest_sha p)),
      (''object_list_sha256'', str_json_len (vp_objects_sha p)),
      (''high_water'', quoted_uint_len (vp_high p)), (''from_sequence'', quoted_uint_len (vp_from p)),
      (''through_sequence'', quoted_uint_len (vp_through p)),
      (''record_count'', quoted_uint_len (vp_count p)),
      (''max_received_at'', 2 + time_text_len (vp_max_received p)),
      (''records_bindings_sha256'', str_json_len (vp_bindings p)),
      (''encryption_key_id'', str_json_len (vp_key_id p)),
      (''recipient_fingerprints'', texts_len (vp_recipients p)),
      (''verified_at'', 2 + time_text_len (vp_verified_at p)),
      (''policy_version'', str_json_len (vp_policy p)),
      (''verifier_version'', str_json_len (vp_release p))]"

definition sign_completion :: "crypto \<Rightarrow> verification_payload \<Rightarrow> bytes \<Rightarrow> go_error + doc signed_doc" where
  "sign_completion c p key =
     (if length key \<noteq> 64 \<or> \<not> safe_id (vp_key p) \<or> vp_version p \<noteq> archive_version
         \<or> vp_verdict p \<noteq> ''verified'' \<or> is_zero (vp_verified_at p) \<or> vp_policy p = []
         \<or> vp_release p = []
      then Inl (ErrMsg ''invalid signing inputs'')
      else if \<not> time_json_ok (vp_max_received p) \<or> \<not> time_json_ok (vp_verified_at p)
      then Inl (ErrMsg ''json: unsupported time'')
      else Inr (SignedDoc (vp_key p) (B64 (DPayload p))
             (B64 (Raw (ed_sign c key (DSigned signature_domain (DPayload p)))))))"

text \<open>A public key registered under an id; a missing key has length zero, not 32.\<close>

definition registered_key :: "(bytes \<times> bytes) list \<Rightarrow> bytes \<Rightarrow> bytes" where
  "registered_key keys k = (case aget keys k of None \<Rightarrow> [] | Some v \<Rightarrow> v)"

definition sig_bytes :: "doc b64 \<Rightarrow> bytes option" where
  "sig_bytes s = (case s of B64 (Raw b) \<Rightarrow> Some b | _ \<Rightarrow> None)"

definition verify_completion ::
  "crypto \<Rightarrow> (bytes \<times> bytes) list \<Rightarrow> doc signed_doc \<Rightarrow> manifest \<Rightarrow> doc \<Rightarrow> go_error + verification_payload" where
  "verify_completion c keys s m mb =
     andThen (decode_manifest mb) (\<lambda>parsed.
       if parsed \<noteq> m then Inl (ErrMsg ''manifest DTO differs from exact signed bytes'')
       else let key = registered_key keys (sd_key s)
            in case sd_payload s of
                 NotB64 _ \<Rightarrow> Inl (ErrMsg ''untrusted verification key or payload'')
               | B64 b \<Rightarrow>
                   if (case b of DPayload p \<Rightarrow> payload_len p > 16384 | _ \<Rightarrow> False) \<or> length key \<noteq> 32
                   then Inl (ErrMsg ''untrusted verification key or payload'')
                   else (case sig_bytes (sd_sig s) of
                     None \<Rightarrow> Inl (ErrMsg ''invalid verification signature'')
                   | Some sig \<Rightarrow>
                       if \<not> ed_verify c key (DSigned signature_domain b) sig
                       then Inl (ErrMsg ''invalid verification signature'')
                       else (case b of
                         DPayload p \<Rightarrow>
                           if p \<noteq> payload_for c m mb (sd_key s) (vp_policy p) (vp_release p) (vp_verified_at p)
                              \<or> vp_key p \<noteq> sd_key s \<or> vp_policy p = [] \<or> vp_release p = []
                              \<or> is_zero (vp_verified_at p)
                           then Inl (ErrMsg ''verification scope or manifest mismatch'')
                           else Inr p
                       | _ \<Rightarrow> Inl (ErrMsg ''invalid JSON''))))"

end
