(* ===== verification/Attestation.thy ===== *)
theory Attestation
  imports Archive
begin

text \<open>
  \<open>billingarchive/range.go\<close> and \<open>billingarchive/recovery.go\<close>: the two other signed
  statements, each under its own signature domain, and the separation of the three domains.
\<close>

section \<open>Range proofs\<close>

definition validate_range :: "range_proof \<Rightarrow> go_error + unit" where
  "validate_range p =
     (if rg_version p \<noteq> archive_version \<or> rg_purpose p \<noteq> ''billing-raw-reconciliation''
         \<or> \<not> safe_id (rg_key p) \<or> \<not> safe_id (rg_env p) \<or> \<not> safe_id (rg_stack p)
         \<or> \<not> safe_id (rg_set p) \<or> length (rg_store p) \<noteq> 32 \<or> \<not> valid_sha (rg_manifest_sha p)
         \<or> \<not> valid_sha (rg_bindings p) \<or> rg_from p = 0 \<or> rg_through p < rg_from p
         \<or> rg_through p > rg_high p \<or> rg_count p \<noteq> rg_through p - rg_from p + 1
         \<or> rg_count p > 1000 \<or> is_zero (rg_max_received p) \<or> is_zero (rg_verified_at p)
         \<or> after (rg_max_received p) (rg_verified_at p) \<or> rg_policy p = [] \<or> rg_release p = []
      then Inl (ErrMsg ''invalid reconciliation range proof'')
      else Inr ())"

definition sign_range :: "crypto \<Rightarrow> range_proof \<Rightarrow> bytes \<Rightarrow> go_error + doc signed_doc" where
  "sign_range c p key =
     andThen (validate_range p) (\<lambda>_.
       if length key \<noteq> 64 then Inl (ErrMsg ''invalid signing key'')
       else if \<not> time_json_ok (rg_max_received p) \<or> \<not> time_json_ok (rg_verified_at p)
       then Inl (ErrMsg ''json: unsupported time'')
       else Inr (SignedDoc (rg_key p) (B64 (DRange p))
              (B64 (Raw (ed_sign c key (DSigned range_domain (DRange p)))))))"

definition range_len :: "range_proof \<Rightarrow> nat" where
  "range_len p = members_len
     [(''version'', length (dec_int (rg_version p))), (''purpose'', str_json_len (rg_purpose p)),
      (''verifier_key_id'', str_json_len (rg_key p)), (''environment'', str_json_len (rg_env p)),
      (''stack'', str_json_len (rg_stack p)), (''store_id'', str_json_len (rg_store p)),
      (''set_id'', str_json_len (rg_set p)), (''manifest_sha256'', str_json_len (rg_manifest_sha p)),
      (''high_water'', quoted_uint_len (rg_high p)), (''from_sequence'', quoted_uint_len (rg_from p)),
      (''through_sequence'', quoted_uint_len (rg_through p)),
      (''record_count'', quoted_uint_len (rg_count p)),
      (''max_received_at'', 2 + time_text_len (rg_max_received p)),
      (''records_bindings_sha256'', str_json_len (rg_bindings p)),
      (''verified_at'', 2 + time_text_len (rg_verified_at p)),
      (''policy_version'', str_json_len (rg_policy p)),
      (''verifier_version'', str_json_len (rg_release p))]"

definition verify_range :: "crypto \<Rightarrow> (bytes \<times> bytes) list \<Rightarrow> doc signed_doc \<Rightarrow> go_error + range_proof" where
  "verify_range c keys s =
     (let key = registered_key keys (sd_key s)
      in case sd_payload s of
           NotB64 _ \<Rightarrow> Inl (ErrMsg ''untrusted range proof key'')
         | B64 b \<Rightarrow>
             if (case b of DRange p \<Rightarrow> range_len p > 16384 | _ \<Rightarrow> False) \<or> length key \<noteq> 32
             then Inl (ErrMsg ''untrusted range proof key'')
             else (case sig_bytes (sd_sig s) of
               None \<Rightarrow> Inl (ErrMsg ''invalid range proof signature'')
             | Some sig \<Rightarrow>
                 if \<not> ed_verify c key (DSigned range_domain b) sig
                 then Inl (ErrMsg ''invalid range proof signature'')
                 else (case b of
                   DRange p \<Rightarrow>
                     if rg_key p \<noteq> sd_key s then Inl (ErrMsg ''range proof key mismatch'')
                     else andThen (validate_range p) (\<lambda>_. Inr p)
                 | _ \<Rightarrow> Inl (ErrMsg ''invalid JSON''))))"

section \<open>Recovery approvals\<close>

definition validate_approval :: "recovery_approval \<Rightarrow> gtime \<Rightarrow> go_error + unit" where
  "validate_approval p now =
     (if ra_version p \<noteq> archive_version \<or> ra_purpose p \<noteq> ''billing-inbox-recovery-admission''
         \<or> \<not> safe_id (ra_key p) \<or> \<not> safe_id (ra_env p) \<or> length (ra_store p) \<noteq> 32
         \<or> ra_floor p > ra_high p \<or> ra_frontier p \<noteq> ra_high p \<or> \<not> valid_sha (ra_history p)
         \<or> \<not> valid_sha (ra_checkpoint p) \<or> \<not> valid_sha (ra_dependency p)
         \<or> ra_financial p = [] \<or> length (ra_financial p) > 512
         \<or> ra_recovery p = [] \<or> length (ra_recovery p) > 512 \<or> is_zero (ra_approved p)
         \<or> after (ra_approved p) (add_ns now minute) \<or> \<not> after (ra_expires p) now
         \<or> \<not> after (ra_expires p) (ra_approved p)
         \<or> instant (ra_expires p) - instant (ra_approved p) > 15 * minute
      then Inl (ErrMsg ''invalid or expired recovery admission'')
      else Inr ())"

definition sign_approval :: "crypto \<Rightarrow> recovery_approval \<Rightarrow> bytes \<Rightarrow> go_error + doc signed_doc" where
  "sign_approval c p key =
     andThen (validate_approval p (ra_approved p)) (\<lambda>_.
       if length key \<noteq> 64 then Inl (ErrMsg ''invalid recovery signing key'')
       else if \<not> time_json_ok (ra_approved p) \<or> \<not> time_json_ok (ra_expires p)
       then Inl (ErrMsg ''json: unsupported time'')
       else Inr (SignedDoc (ra_key p) (B64 (DApproval p))
              (B64 (Raw (ed_sign c key (DSigned recovery_domain (DApproval p)))))))"

definition approval_len :: "recovery_approval \<Rightarrow> nat" where
  "approval_len p = members_len
     [(''version'', length (dec_int (ra_version p))), (''purpose'', str_json_len (ra_purpose p)),
      (''recovery_key_id'', str_json_len (ra_key p)), (''environment'', str_json_len (ra_env p)),
      (''store_id'', str_json_len (ra_store p)), (''high_water'', quoted_uint_len (ra_high p)),
      (''archive_floor'', quoted_uint_len (ra_floor p)),
      (''operation_history_sha256'', str_json_len (ra_history p)),
      (''allocation_frontier'', quoted_uint_len (ra_frontier p)),
      (''consumer_checkpoint_sha256'', str_json_len (ra_checkpoint p)),
      (''archive_dependency_sha256'', str_json_len (ra_dependency p)),
      (''financial_approval_ref'', str_json_len (ra_financial p)),
      (''recovery_approval_ref'', str_json_len (ra_recovery p)),
      (''approved_at'', 2 + time_text_len (ra_approved p)),
      (''expires_at'', 2 + time_text_len (ra_expires p))]"

definition verify_approval ::
  "crypto \<Rightarrow> (bytes \<times> bytes) list \<Rightarrow> doc signed_doc \<Rightarrow> gtime \<Rightarrow> go_error + recovery_approval" where
  "verify_approval c keys s now =
     (let key = registered_key keys (sd_key s)
      in case sd_payload s of
           NotB64 _ \<Rightarrow> Inl (ErrMsg ''untrusted recovery custodian'')
         | B64 b \<Rightarrow>
             if (case b of DApproval p \<Rightarrow> approval_len p > 16384 | _ \<Rightarrow> False) \<or> length key \<noteq> 32
             then Inl (ErrMsg ''untrusted recovery custodian'')
             else (case sig_bytes (sd_sig s) of
               None \<Rightarrow> Inl (ErrMsg ''invalid recovery admission signature'')
             | Some sig \<Rightarrow>
                 if \<not> ed_verify c key (DSigned recovery_domain b) sig
                 then Inl (ErrMsg ''invalid recovery admission signature'')
                 else (case b of
                   DApproval p \<Rightarrow>
                     if ra_key p \<noteq> sd_key s then Inl (ErrMsg ''recovery key mismatch'')
                     else andThen (validate_approval p now) (\<lambda>_. Inr p)
                 | _ \<Rightarrow> Inl (ErrMsg ''invalid JSON''))))"

section \<open>Accepted statements\<close>

text \<open>
  Acceptance by one of the three verifiers means a signature under that verifier's own domain
  over the returned statement.
\<close>

lemma verify_range_sound:
  assumes "verify_range c keys s = Inr p"
  shows "sd_payload s = B64 (DRange p) \<and> rg_key p = sd_key s \<and> validate_range p = Inr ()
     \<and> (\<exists>sig. sig_bytes (sd_sig s) = Some sig
            \<and> ed_verify c (registered_key keys (rg_key p)) (DSigned range_domain (DRange p)) sig)"
  using assms
  by (auto simp: verify_range_def Let_def split: b64.splits if_splits option.splits doc.splits)

lemma verify_approval_sound:
  assumes "verify_approval c keys s now = Inr p"
  shows "sd_payload s = B64 (DApproval p) \<and> ra_key p = sd_key s \<and> validate_approval p now = Inr ()
     \<and> (\<exists>sig. sig_bytes (sd_sig s) = Some sig
            \<and> ed_verify c (registered_key keys (ra_key p)) (DSigned recovery_domain (DApproval p)) sig)"
  using assms
  by (auto simp: verify_approval_def Let_def split: b64.splits if_splits option.splits doc.splits)

lemma verify_completion_sound:
  assumes "verify_completion c keys s m mb = Inr p"
  shows "decode_manifest mb = Inr m \<and> sd_payload s = B64 (DPayload p) \<and> vp_key p = sd_key s
     \<and> p = payload_for c m mb (sd_key s) (vp_policy p) (vp_release p) (vp_verified_at p)
     \<and> (\<exists>sig. sig_bytes (sd_sig s) = Some sig
            \<and> ed_verify c (registered_key keys (vp_key p)) (DSigned signature_domain (DPayload p)) sig)"
  using assms
  by (auto simp: verify_completion_def Let_def split: b64.splits if_splits option.splits doc.splits)

lemma decode_manifest_Inr:
  "(decode_manifest d = Inr m) =
     (d = DManifest m \<and> manifest_len m \<le> max_manifest_bytes \<and> validate_manifest m = Inr ())"
  by (auto simp: decode_manifest_def split: doc.splits if_splits)

text \<open>An approval lives at most fifteen minutes, and its window contains the decision.\<close>

lemma validate_approval_window:
  assumes "validate_approval p now = Inr ()"
  shows "instant (ra_approved p) \<le> instant now + minute"
    and "instant now < instant (ra_expires p)"
    and "instant (ra_expires p) \<le> instant (ra_approved p) + 15 * minute"
    and "ra_floor p \<le> ra_high p" and "ra_frontier p = ra_high p"
  using assms by (auto simp: validate_approval_def time_defs split: if_splits)

text \<open>
  The sets of statements a key has signed, and the promise of Ed25519 that only a signed
  message verifies.
\<close>

definition unforgeable :: "crypto \<Rightarrow> (bytes \<Rightarrow> doc \<Rightarrow> bool) \<Rightarrow> bool" where
  "unforgeable c was_signed = (\<forall>k m s. ed_verify c k m s \<longrightarrow> was_signed k m)"

lemma domains_distinct:
  "signature_domain \<noteq> range_domain" "signature_domain \<noteq> recovery_domain"
  "range_domain \<noteq> recovery_domain"
  by (simp_all add: signature_domain_def range_domain_def recovery_domain_def)

end
