(* ===== verification/Usage.thy ===== *)
theory Usage
  imports Archive "HOL-Library.Multiset"
begin

text \<open>
  \<open>billingarchive/usage.go\<close>: the canonical form of a usage event and the consumer's record
  binding. The event is given as the struct that \<open>StrictDecode\<close> reads from the raw JSON.
\<close>

section \<open>Validation\<close>

definition max_int64 :: nat where
  "max_int64 = 9223372036854775807"

definition metric_allowed :: "bytes \<Rightarrow> usage_measurement \<Rightarrow> bool" where
  "metric_allowed service m =
     ((service = ''mqtt'' \<and> um_scale m = 0
       \<and> (if um_metric m = ''publish_bytes'' \<or> um_metric m = ''delivery_bytes''
          then um_unit m = ''bytes''
          else if um_metric m = ''publish_count'' \<or> um_metric m = ''delivery_count''
          then um_unit m = ''requests'' else False))
      \<or> (service = ''ota''
         \<and> (if um_metric m = ''device_task'' then um_unit m = ''tasks'' \<and> um_scale m = 0
            else if um_metric m = ''successful_download_gib''
            then um_unit m = ''GiB'' \<and> um_scale m = 9
            else if um_metric m = ''artifact_storage_gib_month''
            then um_unit m = ''GiB-month'' \<and> um_scale m = 9
            else if um_metric m = ''artifact_write''
            then um_unit m = ''requests'' \<and> um_scale m = 0 else False)))"

fun measurements_ok :: "bytes \<Rightarrow> bytes list \<Rightarrow> usage_measurement list \<Rightarrow> bool" where
  "measurements_ok service seen [] = True"
| "measurements_ok service seen (m # ms) =
     (um_metric m \<notin> set seen \<and> unat (um_quantity m) \<le> max_int64 \<and> metric_allowed service m
      \<and> measurements_ok service (um_metric m # seen) ms)"

definition validate_usage :: "usage_event \<Rightarrow> go_error + unit" where
  "validate_usage e =
     (if ue_id e = [] \<or> length (ue_id e) > 128 \<or> ue_service e = [] \<or> ue_cloud e = []
         \<or> ue_epoch e = [] \<or> ue_source e = [] \<or> is_zero (ue_time e) \<or> is_zero (ue_start e)
         \<or> is_zero (ue_end e) \<or> \<not> after (ue_end e) (ue_start e)
         \<or> unat (ue_seq e) > max_int64 \<or> ue_measurements e = []
      then Inl (ErrMsg ''invalid canonical billing usage event'')
      else if \<not> measurements_ok (ue_service e) [] (ue_measurements e)
      then Inl (ErrMsg ''invalid or unknown billing measurement'')
      else Inr ())"

section \<open>The deterministic identifier\<close>

text \<open>
  The input of the hash: the six values separated by a zero byte (none before the first byte
  written), then the dimensions in key order.
\<close>

fun separated :: "bool \<Rightarrow> doc list \<Rightarrow> doc list" where
  "separated started [] = []"
| "separated started (v # vs) =
     (if started then [Raw (bs [0])] else []) @ v # separated (started \<or> v \<noteq> Raw []) vs"

definition dimension_pieces :: "(bytes \<times> bytes) list \<Rightarrow> doc list" where
  "dimension_pieces ds =
     concat (map (\<lambda>(k, v). [Raw (bs [0]), Raw k, Raw ''='', Raw v]) (sort_key fst ds))"

definition usage_hash_input :: "usage_event \<Rightarrow> doc" where
  "usage_hash_input e =
     DJoin (separated False
              [Raw (ue_service e), Raw (ue_cloud e), Raw (ue_epoch e), Raw (dec_nat (unat (ue_seq e))),
               DTime (utc (ue_start e)), DTime (utc (ue_end e))]
            @ dimension_pieces (ue_dimensions e))"

definition archived_usage_id :: "crypto \<Rightarrow> usage_event \<Rightarrow> bytes" where
  "archived_usage_id c e = ''usage-'' @ take 24 (sha c (usage_hash_input e))"

section \<open>The canonical binding\<close>

definition truncate_us :: "gtime \<Rightarrow> gtime" where
  "truncate_us t = GTime (instant t - instant t mod 1000) (zone t)"

definition trimmed_usage :: "usage_event \<Rightarrow> usage_event" where
  "trimmed_usage e =
     e\<lparr>ue_id := trim_space (ue_id e), ue_service := trim_space (ue_service e),
       ue_cloud := trim_space (ue_cloud e), ue_epoch := trim_space (ue_epoch e),
       ue_source := trim_space (ue_source e), ue_time := utc (ue_time e),
       ue_start := utc (ue_start e), ue_end := utc (ue_end e)\<rparr>"

definition stored_usage :: "usage_event \<Rightarrow> usage_event" where
  "stored_usage e =
     e\<lparr>ue_time := truncate_us (ue_time e), ue_start := truncate_us (ue_start e),
       ue_end := truncate_us (ue_end e),
       ue_measurements := sort_key um_metric (ue_measurements e)\<rparr>"

definition usage_json_ok :: "usage_event \<Rightarrow> bool" where
  "usage_json_ok e = (time_json_ok (ue_time e) \<and> time_json_ok (ue_start e) \<and> time_json_ok (ue_end e))"

text \<open>
  \<open>CanonicalUsageBinding\<close>; \<open>decoded\<close> is the outcome of \<open>StrictDecode\<close> on the raw event.
\<close>

definition canonical_usage_binding ::
  "crypto \<Rightarrow> u64 \<Rightarrow> bytes \<Rightarrow> go_error + usage_event \<Rightarrow> go_error + record_binding" where
  "canonical_usage_binding c seq digest decoded =
     (if seq = 0 \<or> unat seq > max_int64 \<or> \<not> valid_sha digest
      then Inl (ErrMsg ''invalid billing usage record binding'')
      else andThen decoded (\<lambda>e0.
        let e1 = trimmed_usage e0;
            e2 = (if ue_id e1 = [] then e1\<lparr>ue_id := archived_usage_id c e1\<rparr> else e1)
        in andThen (validate_usage e2) (\<lambda>_.
             let e3 = stored_usage e2
             in andThen (validate_usage e3) (\<lambda>_.
                  if \<not> usage_json_ok e3 then Inl (ErrMsg ''json: unsupported time'')
                  else Inr \<lparr>rf_seq = seq, rf_digest = digest, rf_usage = ue_id e3,
                            rf_event_sha = sha c (DUsage e3)\<rparr>))))"

section \<open>The order in which a producer lists its measurements does not matter\<close>

lemma measurements_ok_iff:
  "measurements_ok s seen ms =
     (distinct (map um_metric ms) \<and> set (map um_metric ms) \<inter> set seen = {}
      \<and> (\<forall>m \<in> set ms. unat (um_quantity m) \<le> max_int64 \<and> metric_allowed s m))"
  by (induction s seen ms rule: measurements_ok.induct) auto

lemma measurements_ok_mset:
  assumes "mset ms = mset ns"
  shows "measurements_ok s [] ms = measurements_ok s [] ns"
proof -
  have "distinct (map um_metric ms) = distinct (map um_metric ns)"
    using assms by (metis mset_eq_imp_distinct_iff mset_map)
  moreover have "set ms = set ns" using assms by (rule mset_eq_setD)
  ultimately show ?thesis by (simp add: measurements_ok_iff)
qed

lemma sort_key_mset:
  assumes "mset ms = mset ns" "distinct (map um_metric ms)"
  shows "sort_key um_metric ms = sort_key um_metric ns"
proof (rule sort_key_inj_key_eq)
  show "mset ms = mset (sort_key um_metric ns)" using assms(1) by simp
  show "inj_on um_metric (set ms)" using assms(2) by (simp add: distinct_map)
  show "sorted (map um_metric (sort_key um_metric ns))" by simp
qed

lemma validate_usage_mset:
  assumes "mset ms = mset ns"
  shows "validate_usage (e\<lparr>ue_measurements := ms\<rparr>) = validate_usage (e\<lparr>ue_measurements := ns\<rparr>)"
proof -
  have "(ms = []) = (ns = [])" using assms by auto
  then show ?thesis by (simp add: validate_usage_def measurements_ok_mset [OF assms])
qed

lemma if_errors: "(if a then Inl x else if b then Inl y else Inr ()) = Inr u \<Longrightarrow> \<not> a \<and> \<not> b"
  by (simp split: if_splits)

lemma validate_usage_distinct:
  assumes "validate_usage e = Inr u"
  shows "distinct (map um_metric (ue_measurements e))"
proof -
  have "measurements_ok (ue_service e) [] (ue_measurements e)"
    using if_errors [OF assms [unfolded validate_usage_def]] by blast
  then show ?thesis by (simp add: measurements_ok_iff)
qed

end
