(* ===== verification/Lifecycle.thy ===== *)
theory Lifecycle
  imports Archive Ledger
begin

text \<open>
  \<open>billing_lifecycle.go\<close>: the migration of the receipts to the second format, the lifecycle
  configuration, and the retirement of payloads that a verified backup covers. Each
  transaction is a body on \<open>mtx\<close> that \<open>update_locked\<close> commits.
\<close>

section \<open>Stored records\<close>

definition max_record_bytes :: nat where "max_record_bytes = 2097152"

definition decode_billing_record :: "crypto \<Rightarrow> doc option \<Rightarrow> u64 \<Rightarrow> go_error + billing_record" where
  "decode_billing_record cr body n =
     (case as_record body of
        None \<Rightarrow> Inl ErrBillingUnavailable
      | Some r \<Rightarrow>
          if record_len r > max_record_bytes \<or> br_seq r \<noteq> n then Inl ErrBillingUnavailable
          else (case billing_binding cr (br_event r) of
                  Inl _ \<Rightarrow> Inl ErrBillingUnavailable
                | Inr (_, digest) \<Rightarrow>
                    if digest \<noteq> br_digest r then Inl ErrBillingUnavailable else Inr r))"

definition receipt_time :: "db \<Rightarrow> u64 \<Rightarrow> go_error + gtime" where
  "receipt_time d n =
     (if \<not> db_has d ''receipt_times'' then Inl ErrLifecycleConflict
      else
        let value = db_get d ''receipt_times'' (sequence_key n);
            value = (if value = Some (Raw ''legacy'') then meta_get d ''legacy_age_floor'' else value)
        in case as_time value of
             None \<Rightarrow> Inl ErrBillingUnavailable
           | Some t \<Rightarrow> if is_zero t then Inl ErrBillingUnavailable else Inr (utc t))"

text \<open>The binding of a live or rehydrated record, as the loops of the lifecycle check it.\<close>

definition bound_receipt :: "crypto \<Rightarrow> db \<Rightarrow> billing_record \<Rightarrow> u64 \<Rightarrow> doc option \<Rightarrow> bool" where
  "bound_receipt cr d r n body =
     (case as_binding (db_get d ''ids'' (ev_id (br_event r))) of
        None \<Rightarrow> False
      | Some b \<Rightarrow> rb_seq b = n \<and> rb_content b = br_digest r \<and> body \<noteq> None \<and> rb_record b = sha cr (the body))"

section \<open>Migration\<close>

record migration_status =
  mg_version :: bytes
  mg_store :: bytes
  mg_legacy :: u64
  mg_backfilled :: u64
  mg_age_floor :: gtime

definition text_or_empty :: "doc option \<Rightarrow> bytes" where
  "text_or_empty x = (case as_text x of None \<Rightarrow> [] | Some s \<Rightarrow> s)"

definition migration :: "call \<Rightarrow> nat \<Rightarrow> nat \<Rightarrow> inbox \<Rightarrow> go_error + migration_status" where
  "migration c n k ib =
     andThen (health c n k ib) (\<lambda>_.
       let d = ib_db ib
       in Inr \<lparr>mg_version = text_or_empty (meta_get d ''version''), mg_store = text_or_empty (meta_get d ''identity''),
               mg_legacy = meta_uint d ''legacy_through'', mg_backfilled = meta_uint d ''backfilled_through'',
               mg_age_floor = (case as_time (meta_get d ''legacy_age_floor'') of None \<Rightarrow> zero_time | Some t \<Rightarrow> t)\<rparr>)"

definition v2_buckets :: "bytes list" where
  "v2_buckets = [''receipt_times'', ''receipt_ids'', ''catalog'', ''archive_cache'', ''operations'',
     ''mutation_journal'', ''captures'']"

text \<open>The first batch of a database of the first format.\<close>

definition migrate_start :: "mtx \<Rightarrow> go_error + mtx" where
  "migrate_start t =
     andThen (for_state t_create v2_buckets t) (\<lambda>t.
       t_puts [(''meta'', ''version'', Raw ''2-migrating''),
               (''meta'', ''legacy_through'', Raw (sequence_key (db_seq (mt_db t) ''events'')))] t)"

definition migrate_record :: "crypto \<Rightarrow> u64 \<Rightarrow> mtx \<Rightarrow> go_error + mtx" where
  "migrate_record cr n t =
     (let body = db_get (mt_db t) ''events'' (sequence_key n)
      in andThen (decode_billing_record cr body n) (\<lambda>r.
           let old = db_get (mt_db t) ''ids'' (ev_id (br_event r))
           in if \<not> is_key8 old \<or> read_uint old \<noteq> n then Inl ErrBillingUnavailable
              else t_puts
                [(''ids'', ev_id (br_event r),
                    DBinding \<lparr>rb_seq = n, rb_content = br_digest r, rb_record = sha cr (the body)\<rparr>),
                 (''receipt_times'', sequence_key n, Raw ''legacy''),
                 (''receipt_ids'', sequence_key n, Raw (ev_id (br_event r)))] t))"

fun migrate_loop :: "crypto \<Rightarrow> ctx \<Rightarrow> u64 \<Rightarrow> nat \<Rightarrow> nat \<Rightarrow> u64 \<Rightarrow> mtx \<Rightarrow> go_error + (u64 \<times> mtx)" where
  "migrate_loop cr c upto_seq 0 n pos t = Inr (pos, t)"
| "migrate_loop cr c upto_seq (Suc k) n pos t =
     (if \<not> pos < upto_seq then Inr (pos, t)
      else andThen (ctx_check c (n + 2)) (\<lambda>_.
             andThen (migrate_record cr (pos + 1) t) (migrate_loop cr c upto_seq k (n + 1) (pos + 1))))"

definition migrate_body :: "crypto \<Rightarrow> ctx \<Rightarrow> gtime \<Rightarrow> nat \<Rightarrow> mtx \<Rightarrow> go_error + (unit \<times> mtx)" where
  "migrate_body cr c now batch t =
     andThen (ctx_check c 1) (\<lambda>_.
       if as_text (meta_get (mt_db t) ''recovery_fence'') = Some ''1'' then Inl ErrBillingUnavailable
       else
         let v = as_text (meta_get (mt_db t) ''version'')
         in if v = Some ''2'' then Inr ((), t)
            else
              andThen (if v = Some ''1'' then migrate_start t else Inr t) (\<lambda>t.
                let upto_seq = meta_uint (mt_db t) ''legacy_through''
                in andThen (migrate_loop cr c upto_seq batch 0 (meta_uint (mt_db t) ''backfilled_through'') t) (\<lambda>(pos, t).
                     andThen (t_put ''meta'' ''backfilled_through'' (Raw (sequence_key pos)) t) (\<lambda>t.
                       andThen (if pos = upto_seq
                                then t_puts [(''meta'', ''legacy_age_floor'', DTime (utc now)),
                                             (''meta'', ''version'', Raw ''2'')] t
                                else Inr t) (\<lambda>t. Inr ((), t))))))"

definition migrate :: "crypto \<Rightarrow> call \<Rightarrow> int \<Rightarrow> inbox \<Rightarrow> (go_error + migration_status) \<times> inbox" where
  "migrate cr c batch ib =
     (if batch < 1 \<or> batch > 1000 then (Inl ErrLifecycleConflict, ib)
      else case health c 0 0 ib of
             Inl x \<Rightarrow> (Inl x, ib)
           | Inr _ \<Rightarrow>
               (case update_locked (cl_io c) (migrate_body cr (cl_ctx c) (cl_now c 0) (nat batch)) ib of
                  (Inl x, ib) \<Rightarrow> (Inl x, ib)
                | (Inr _, ib) \<Rightarrow> (migration c (nat batch + 2) 1 ib, ib)))"

section \<open>Configuration\<close>

text \<open>The fields of \<open>url.Parse\<close> the program reads; \<open>pu_loopback\<close> says that the lower-case host name is
  the text of a loopback address.\<close>

record parsed_url =
  pu_scheme :: bytes
  pu_host :: bytes
  pu_hostname :: bytes
  pu_user :: bool
  pu_query :: bytes
  pu_fragment :: bytes
  pu_path :: bytes
  pu_loopback :: bool

definition ends_with :: "bytes \<Rightarrow> bytes \<Rightarrow> bool" where
  "ends_with s p = (length p \<le> length s \<and> drop (length s - length p) s = p)"

definition trim_suffix :: "bytes \<Rightarrow> bytes \<Rightarrow> bytes" where
  "trim_suffix s p = (if ends_with s p then take (length s - length p) s else s)"

definition qualified_authority_url :: "parsed_url \<Rightarrow> bool" where
  "qualified_authority_url u =
     (if pu_host u = [] \<or> pu_user u \<or> pu_query u \<noteq> [] \<or> pu_fragment u \<noteq> []
         \<or> (pu_path u \<noteq> [] \<and> pu_path u \<noteq> ''/'')
      then False
      else if pu_scheme u = ''https'' then True
      else if pu_scheme u \<noteq> ''http'' then False
      else
        let host = to_lower (pu_hostname u)
        in host = ''localhost'' \<or> pu_loopback u
           \<or> (ends_with host ''.svc.cluster.local'' \<and> length (split_on (CHR ''.'') host) \<ge> 5))"

text \<open>What the environment decides of a configuration: which texts are age recipients, whether the
  scratch directory is private, and the parse of the authority URL.\<close>

record config_env =
  cv_age_ok :: "bytes \<Rightarrow> bool"
  cv_private :: "bytes \<Rightarrow> bool"
  cv_url :: "bytes \<Rightarrow> parsed_url option"

definition decode_verifier_key :: "doc b64 \<Rightarrow> go_error + bytes" where
  "decode_verifier_key v =
     (case v of
        B64 (Raw b) \<Rightarrow> if length b \<noteq> 32 then Inl ErrLifecycleConflict else Inr b
      | _ \<Rightarrow> Inl ErrLifecycleConflict)"

definition add_verifier :: "bytes \<times> doc b64 \<Rightarrow> (bytes \<times> bytes) list \<Rightarrow> go_error + (bytes \<times> bytes) list" where
  "add_verifier kv keys =
     (case decode_verifier_key (snd kv) of
        Inl _ \<Rightarrow> Inl ErrLifecycleConflict
      | Inr key \<Rightarrow> if \<not> safe_id (fst kv) then Inl ErrLifecycleConflict else Inr ((fst kv, key) # keys))"

definition add_recovery ::
    "(bytes \<times> doc b64) list \<Rightarrow> (bytes \<times> bytes) list \<Rightarrow> bytes \<times> doc b64 \<Rightarrow> (bytes \<times> bytes) list \<Rightarrow>
     go_error + (bytes \<times> bytes) list" where
  "add_recovery verifier_text verifier_keys kv keys =
     (case decode_verifier_key (snd kv) of
        Inl _ \<Rightarrow> Inl ErrLifecycleConflict
      | Inr key \<Rightarrow>
          if \<not> safe_id (fst kv) then Inl ErrLifecycleConflict
          else if fst kv \<in> set (map fst verifier_text)
          then Inl (ErrMsg ''recovery key ID must be distinct from verifier role'')
          else if key \<in> set (map snd verifier_keys)
          then Inl (ErrMsg ''recovery approval key must differ from verification-only key'')
          else Inr ((fst kv, key) # keys))"

definition gib :: int where "gib = 1073741824"

definition config_defaults :: "lifecycle_config \<Rightarrow> lifecycle_config" where
  "config_defaults c =
     (let c = (if lc_sources c = [] then c\<lparr>lc_sources := [lc_env c]\<rparr> else c);
          c = (if lc_retention_days c = 0 then c\<lparr>lc_retention_days := 90\<rparr> else c);
          c = (if lc_part_bytes c = 0 then c\<lparr>lc_part_bytes := default_part_bytes\<rparr> else c);
          c = (if lc_cache_max c = 0 then c\<lparr>lc_cache_max := gib\<rparr> else c)
      in if lc_interval c = 0 then c\<lparr>lc_interval := 12 * hour\<rparr> else c)"

definition check_config :: "config_env \<Rightarrow> lifecycle_config \<Rightarrow> go_error + lifecycle_config" where
  "check_config ev c0 =
     (let c = config_defaults c0
      in if length (lc_sources c) > 8 \<or> \<not> distinct_safe [] (lc_sources c) then Inl ErrLifecycleConflict
         else if \<not> safe_id (lc_env c) \<or> \<not> safe_id (lc_stack c) \<or> \<not> safe_id (lc_key_id c)
                 \<or> \<not> starts_with (lc_scratch c) ''/'' \<or> lc_recipients c = []
         then Inl ErrLifecycleConflict
         else if lc_retention_days c < 90 \<or> lc_retention_days c > 36500
         then Inl (ErrMsg ''retention must be at least 90 days'')
         else if lc_part_bytes c < 1048576 \<or> lc_part_bytes c > default_part_bytes then Inl ErrLifecycleConflict
         else if lc_scratch_capacity c < 4 * gib
         then Inl (ErrMsg ''explicit scratch volume budget of at least 4 GiB required'')
         else if lc_cache_max c < 2097152 \<or> lc_cache_max c > 64 * gib
         then Inl (ErrMsg ''archive cache budget outside bounded range'')
         else if lc_interval c < minute \<or> lc_interval c > 24 * hour then Inl ErrLifecycleConflict
         else if \<not> cv_private ev (lc_scratch c) then Inl ErrBillingUnavailable
         else if length (lc_recipients c) > 16 then Inl ErrLifecycleConflict
         else if \<not> list_all (cv_age_ok ev) (lc_recipients c) \<or> \<not> distinct (lc_recipients c)
         then Inl (ErrMsg ''unique public-only age recipients required'')
         else
           andThen (for_state add_verifier (lc_verifier_text c) []) (\<lambda>keys.
             if keys = [] then Inl (ErrMsg ''approved verifier public key required'')
             else
               andThen (for_state (add_recovery (lc_verifier_text c) keys) (lc_recovery_text c) []) (\<lambda>recovery.
                 let c = c\<lparr>lc_keys := keys, lc_recovery_keys := recovery\<rparr>
                 in if lc_authority_url c = [] then Inr c
                    else
                      case cv_url ev (lc_authority_url c) of
                        None \<Rightarrow> Inl (ErrMsg ''private HTTPS authority and credential required'')
                      | Some u \<Rightarrow>
                          if \<not> qualified_authority_url u \<or> lc_authority_token c = []
                          then Inl (ErrMsg ''private HTTPS authority and credential required'')
                          else Inr (c\<lparr>lc_authority_url := trim_suffix (lc_authority_url c) ''/''\<rparr>))))"

definition configure_lifecycle :: "config_env \<Rightarrow> lifecycle_config \<Rightarrow> inbox \<Rightarrow> (go_error + unit) \<times> inbox" where
  "configure_lifecycle ev c ib =
     (case check_config ev c of
        Inl x \<Rightarrow> (Inl x, ib)
      | Inr c \<Rightarrow> (Inr (), ib\<lparr>ib_cfg := c\<rparr>))"

section \<open>Readiness\<close>

definition ready :: "lifecycle_config \<Rightarrow> db \<Rightarrow> go_error + unit" where
  "ready cfg d =
     (if as_text (meta_get d ''recovery_fence'') = Some ''1'' then Inl ErrBillingUnavailable
      else if as_text (meta_get d ''version'') \<noteq> Some ''2'' \<or> lc_env cfg = [] then Inl ErrLifecycleConflict
      else Inr ())"

section \<open>Retirement\<close>

definition status_for :: "retirement_plan \<Rightarrow> retirement_status" where
  "status_for p =
     \<lparr>rs_op = rp_op p, rs_env = rp_env p, rs_store = rp_store p, rs_from = rp_from p, rs_through = rp_through p,
      rs_sha = rp_sha p, rs_status = ''pending'', rs_receipt = [], rs_completed = zero_time, rs_retired = 0,
      rs_set = rp_set p\<rparr>"

definition seal_status :: "crypto \<Rightarrow> retirement_status \<Rightarrow> retirement_status" where
  "seal_status cr st = (let st = st\<lparr>rs_receipt := []\<rparr> in st\<lparr>rs_receipt := sha cr (DStatus st)\<rparr>)"

definition retirement :: "call \<Rightarrow> nat \<Rightarrow> nat \<Rightarrow> bytes \<Rightarrow> inbox \<Rightarrow> go_error + retirement_status" where
  "retirement c n k op ib =
     (if \<not> safe_id op then Inl ErrLifecycleConflict
      else andThen (health c n k ib) (\<lambda>_.
             case db_get (ib_db ib) ''operations'' op of
               None \<Rightarrow> Inl ErrOperationNotFound
             | Some x \<Rightarrow> (case as_status (Some x) of None \<Rightarrow> Inl (ErrMsg ''invalid JSON'') | Some st \<Rightarrow> Inr st)))"

definition plan_shape_ok :: "retirement_plan \<Rightarrow> bool" where
  "plan_shape_ok p =
     (safe_id (rp_op p) \<and> safe_id (rp_set p) \<and> valid_digest (rp_sha p) \<and> rp_from p \<noteq> 0
      \<and> rp_from p \<le> rp_through p \<and> rp_through p - rp_from p < 1000)"

text \<open>\<open>retirementCoverage\<close>: a verified catalog entry covers the range and every receipt of it is old
  enough, live and bound.\<close>

definition coverage_record :: "crypto \<Rightarrow> gtime \<Rightarrow> db \<Rightarrow> u64 \<Rightarrow> go_error + unit" where
  "coverage_record cr oldest d n =
     (case receipt_time d n of
        Inl _ \<Rightarrow> Inl ErrLifecycleConflict
      | Inr received \<Rightarrow>
          if after received oldest then Inl ErrLifecycleConflict
          else
            let body = db_get d ''events'' (sequence_key n)
            in andThen (decode_billing_record cr body n) (\<lambda>r.
                 if bound_receipt cr d r n body then Inr () else Inl ErrBillingUnavailable))"

definition retirement_coverage ::
    "crypto \<Rightarrow> lifecycle_config \<Rightarrow> gtime \<Rightarrow> db \<Rightarrow> bytes \<Rightarrow> u64 \<Rightarrow> u64 \<Rightarrow> go_error + unit" where
  "retirement_coverage cr cfg now d sid from through =
     (case as_catalog (db_get d ''catalog'' sid) of
        None \<Rightarrow> Inl ErrLifecycleConflict
      | Some ce \<Rightarrow>
          if ce_status ce \<noteq> ''verified'' \<or> mf_from (ce_manifest ce) > from \<or> mf_through (ce_manifest ce) < through
          then Inl ErrLifecycleConflict
          else (case verify_completion cr (lc_keys cfg) (ce_completion ce) (ce_manifest ce) (ce_bytes ce) of
                  Inl _ \<Rightarrow> Inl ErrLifecycleConflict
                | Inr _ \<Rightarrow>
                    for_each (coverage_record cr (add_ns (utc now) (- lc_retention_days cfg * day)) d)
                      (seq_range from through)))"

definition plan_body ::
    "crypto \<Rightarrow> lifecycle_config \<Rightarrow> ctx \<Rightarrow> gtime \<Rightarrow> retirement_plan \<Rightarrow> mtx \<Rightarrow> go_error + (retirement_status \<times> mtx)" where
  "plan_body cr cfg c now p t =
     andThen (ctx_check c 0) (\<lambda>_.
       andThen (ready cfg (mt_db t)) (\<lambda>_.
         if rp_env p \<noteq> lc_env cfg \<or> as_text (meta_get (mt_db t) ''identity'') \<noteq> Some (rp_store p)
         then Inl ErrLifecycleConflict
         else case db_get (mt_db t) ''operations'' (rp_op p) of
                Some old \<Rightarrow>
                  (case as_status (Some old) of
                     None \<Rightarrow> Inl ErrBillingUnavailable
                   | Some st \<Rightarrow>
                       if st = (status_for p)\<lparr>rs_status := rs_status st, rs_completed := rs_completed st,
                                 rs_receipt := rs_receipt st, rs_retired := rs_retired st\<rparr>
                       then Inr (st, t) else Inl ErrLifecycleConflict)
              | None \<Rightarrow>
                  let fl = meta_uint (mt_db t) ''archive_floor''
                  in if rp_from p \<noteq> fl + 1 \<or> rp_through p > db_seq (mt_db t) ''events''
                     then Inl ErrLifecycleConflict
                     else
                       andThen (retirement_coverage cr cfg now (mt_db t) (rp_set p) (rp_from p) (rp_through p)) (\<lambda>_.
                         let st = (status_for p)\<lparr>rs_retired := fl\<rparr>
                         in andThen (t_put ''operations'' (rp_op p) (DStatus st) t) (\<lambda>t. Inr (st, t)))))"

definition plan_retirement ::
    "crypto \<Rightarrow> call \<Rightarrow> retirement_plan \<Rightarrow> inbox \<Rightarrow> (go_error + retirement_status) \<times> inbox" where
  "plan_retirement cr c p ib =
     (if \<not> lc_retire (ib_cfg ib) then (Inl ErrLifecycleConflict, ib)
      else if \<not> plan_shape_ok p then (Inl ErrLifecycleConflict, ib)
      else update_locked (cl_io c) (plan_body cr (ib_cfg ib) (cl_ctx c) (cl_now c 0) p) ib)"

text \<open>The authority that releases or stops an operation, a local function or a private HTTP endpoint
  that answers with a status code and a body.\<close>

record authority_body =
  au_op :: bytes
  au_env :: bytes
  au_store :: bytes
  au_from :: u64
  au_through :: u64
  au_sha :: bytes
  au_set :: bytes
  au_status :: bytes

datatype authority =
    LocalAuthority "retirement_status \<Rightarrow> go_error + unit"
  | HttpAuthority "go_error + (nat \<times> authority_body option)"

definition validate_authority ::
    "lifecycle_config \<Rightarrow> authority \<Rightarrow> retirement_status \<Rightarrow> bytes \<Rightarrow> go_error + unit" where
  "validate_authority cfg auth st expected =
     (case auth of
        LocalAuthority f \<Rightarrow> f st
      | HttpAuthority reply \<Rightarrow>
          if lc_authority_url cfg = [] \<or> lc_authority_token cfg = [] then Inl ErrLifecycleConflict
          else andThen reply (\<lambda>(code, body).
                 if code \<noteq> 200 then Inl ErrLifecycleConflict
                 else case body of
                        None \<Rightarrow> Inl ErrLifecycleConflict
                      | Some a \<Rightarrow>
                          if au_status a \<noteq> expected \<or> au_op a \<noteq> rs_op st \<or> au_env a \<noteq> rs_env st
                             \<or> au_store a \<noteq> rs_store st \<or> au_from a \<noteq> rs_from st \<or> au_through a \<noteq> rs_through st
                             \<or> au_sha a \<noteq> rs_sha st \<or> au_set a \<noteq> rs_set st
                          then Inl ErrLifecycleConflict else Inr ()))"

definition apply_body ::
    "crypto \<Rightarrow> lifecycle_config \<Rightarrow> ctx \<Rightarrow> (nat \<Rightarrow> gtime) \<Rightarrow> bytes \<Rightarrow> retirement_status \<Rightarrow> mtx \<Rightarrow>
     go_error + (retirement_status \<times> mtx)" where
  "apply_body cr cfg c now op st t =
     andThen (ready cfg (mt_db t)) (\<lambda>_.
       if as_status (db_get (mt_db t) ''operations'' op) \<noteq> Some st \<or> rs_status st \<noteq> ''pending''
       then Inl ErrLifecycleConflict
       else
         andThen (ctx_check c 1) (\<lambda>_.
           if meta_uint (mt_db t) ''archive_floor'' + 1 \<noteq> rs_from st then Inl ErrLifecycleConflict
           else
             andThen (retirement_coverage cr cfg (now 0) (mt_db t) (rs_set st) (rs_from st) (rs_through st)) (\<lambda>_.
               andThen (for_state (\<lambda>n. t_del ''events'' (sequence_key n)) (seq_range (rs_from st) (rs_through st)) t) (\<lambda>t.
                 andThen (t_put ''meta'' ''archive_floor'' (Raw (sequence_key (rs_through st))) t) (\<lambda>t.
                   let st = seal_status cr (st\<lparr>rs_status := ''completed'', rs_completed := utc (now 1),
                              rs_retired := rs_through st\<rparr>)
                   in andThen (t_put ''operations'' op (DStatus st) t) (\<lambda>t. Inr (st, t)))))))"

definition apply_retirement ::
    "crypto \<Rightarrow> call \<Rightarrow> authority \<Rightarrow> bytes \<Rightarrow> inbox \<Rightarrow> (go_error + retirement_status) \<times> inbox" where
  "apply_retirement cr c auth op ib =
     (case retirement c 0 0 op ib of
        Inl x \<Rightarrow> (Inl x, ib)
      | Inr st \<Rightarrow>
          if rs_status st = ''completed'' then (Inr st, ib)
          else if rs_status st \<noteq> ''pending'' then (Inl ErrLifecycleConflict, ib)
          else if \<not> lc_retire (ib_cfg ib) then (Inl ErrLifecycleConflict, ib)
          else case validate_authority (ib_cfg ib) auth st ''ACTIVE'' of
                 Inl x \<Rightarrow> (Inl x, ib)
               | Inr _ \<Rightarrow> update_locked (cl_io c) (apply_body cr (ib_cfg ib) (cl_ctx c) (cl_now c) op st) ib)"

definition terminal :: "retirement_status \<Rightarrow> bool" where
  "terminal st = (rs_status st = ''completed'' \<or> rs_status st = ''aborted'')"

definition abort_body ::
    "crypto \<Rightarrow> lifecycle_config \<Rightarrow> ctx \<Rightarrow> gtime \<Rightarrow> retirement_plan \<Rightarrow> retirement_status \<Rightarrow> mtx \<Rightarrow>
     go_error + (retirement_status \<times> mtx)" where
  "abort_body cr cfg c now p st t =
     andThen (ctx_check c 1) (\<lambda>_.
       andThen (ready cfg (mt_db t)) (\<lambda>_.
         if rp_env p \<noteq> lc_env cfg \<or> as_text (meta_get (mt_db t) ''identity'') \<noteq> Some (rp_store p)
         then Inl ErrLifecycleConflict
         else
           let finish = (\<lambda>st.
             let st = seal_status cr (st\<lparr>rs_status := ''aborted'', rs_completed := utc now,
                        rs_retired := meta_uint (mt_db t) ''archive_floor''\<rparr>)
             in andThen (t_put ''operations'' (rp_op p) (DStatus st) t) (\<lambda>t. Inr (st, t)))
           in case db_get (mt_db t) ''operations'' (rp_op p) of
                None \<Rightarrow> finish st
              | Some old \<Rightarrow>
                  (case as_status (Some old) of
                     None \<Rightarrow> Inl ErrBillingUnavailable
                   | Some live \<Rightarrow> if terminal live then Inr (live, t) else finish live)))"

definition abort_plan ::
    "crypto \<Rightarrow> call \<Rightarrow> authority \<Rightarrow> retirement_plan \<Rightarrow> inbox \<Rightarrow> (go_error + retirement_status) \<times> inbox" where
  "abort_plan cr c auth p ib =
     (let stop = (\<lambda>st.
        if \<not> plan_shape_ok p then (Inl ErrLifecycleConflict, ib)
        else case validate_authority (ib_cfg ib) auth st ''ABORT_REQUESTED'' of
               Inl x \<Rightarrow> (Inl x, ib)
             | Inr _ \<Rightarrow> update_locked (cl_io c) (abort_body cr (ib_cfg ib) (cl_ctx c) (cl_now c 0) p st) ib)
      in case retirement c 0 0 (rp_op p) ib of
           Inr st \<Rightarrow>
             if st \<noteq> (status_for p)\<lparr>rs_retired := rs_retired st, rs_status := rs_status st,
                       rs_completed := rs_completed st, rs_receipt := rs_receipt st\<rparr>
             then (Inl ErrLifecycleConflict, ib)
             else if terminal st then (Inr st, ib)
             else stop st
         | Inl x \<Rightarrow> if x \<noteq> ErrOperationNotFound then (Inl x, ib) else stop (status_for p))"

text \<open>The rest of a call after its first \<open>Health\<close>.\<close>

definition later_call :: "call \<Rightarrow> call" where
  "later_call c = c\<lparr>cl_ctx := (\<lambda>n. cl_ctx c (n + 1)), cl_file_ok := (\<lambda>n. cl_file_ok c (n + 1))\<rparr>"

definition abort_retirement ::
    "crypto \<Rightarrow> call \<Rightarrow> authority \<Rightarrow> bytes \<Rightarrow> inbox \<Rightarrow> (go_error + retirement_status) \<times> inbox" where
  "abort_retirement cr c auth op ib =
     (case retirement c 0 0 op ib of
        Inl x \<Rightarrow> (Inl x, ib)
      | Inr st \<Rightarrow>
          abort_plan cr (later_call c) auth
            \<lparr>rp_op = rs_op st, rp_env = rs_env st, rp_store = rs_store st, rp_from = rs_from st,
             rp_through = rs_through st, rp_sha = rs_sha st, rp_set = rs_set st\<rparr> ib)"

end
