(* ===== verification/Retirement.thy ===== *)
theory Retirement
  imports Lifecycle
begin

text \<open>
  The lifecycle on the ledger: planning and aborting touch only the operations, applying a
  retirement drops payloads and raises the archive floor, and none of them changes the ledger.
\<close>

section \<open>Writes the ledger does not read\<close>

definition ledger_same :: "db \<Rightarrow> db \<Rightarrow> bool" where
  "ledger_same d d' =
     ((\<forall>b \<in> {''meta'', ''events'', ''ids'', ''receipt_ids'', ''receipt_times''}. db_has d' b = db_has d b)
      \<and> db_seq d' ''events'' = db_seq d ''events''
      \<and> (\<forall>b \<in> {''events'', ''ids'', ''receipt_ids'', ''receipt_times'', ''archive_cache''}. \<forall>k.
           db_get d' b k = db_get d b k)
      \<and> version_of d' = version_of d
      \<and> (\<forall>k \<in> {''archive_floor'', ''legacy_through'', ''backfilled_through''}. meta_uint d' k = meta_uint d k))"

lemma ledger_same_refl [simp]: "ledger_same d d"
  by (simp add: ledger_same_def)

lemma ledger_same_trans [trans]: "ledger_same a b \<Longrightarrow> ledger_same b c \<Longrightarrow> ledger_same a c"
  by (simp add: ledger_same_def)

lemma ledger_same_represents:
  assumes "ledger_same d d'"
  shows "represents cr d' L = represents cr d L"
proof -
  have leg: "legacy_seq d' n = legacy_seq d n" for n using assms by (simp add: legacy_seq_def ledger_same_def)
  have ver: "versioned d' = versioned d" using assms by (simp add: versioned_def ledger_same_def)
  have rec: "receipt_ok d' n x = receipt_ok d n x" for n x
    using assms by (simp add: fun_eq_iff receipt_ok_def ledger_same_def)
  have slot: "slot_ok cr d' n x = slot_ok cr d n x" for n x
    using assms by (simp only: slot_ok_def leg rec) (simp add: ledger_same_def)
  show ?thesis using assms by (simp add: represents_def ver slot) (simp add: ledger_same_def)
qed

lemma ledger_same_set_key:
  "b \<notin> {''meta'', ''events'', ''ids'', ''receipt_ids'', ''receipt_times'', ''archive_cache''} \<Longrightarrow>
     ledger_same d (set_key b k v d)"
  "k \<notin> {''version'', ''archive_floor'', ''legacy_through'', ''backfilled_through''} \<Longrightarrow>
     ledger_same d (set_key ''meta'' k v d)"
  "k \<notin> {''version'', ''archive_floor'', ''legacy_through'', ''backfilled_through''} \<Longrightarrow>
     ledger_same d (del_key ''meta'' k d)"
  by (simp_all only: ledger_same_def db_has_after db_seq_after db_get_after insert_iff empty_iff) fastforce+

lemma same_content_ledger_same: "same_content d d' \<Longrightarrow> ledger_same d d'"
  using same_contentD [of d d'] by (simp add: ledger_same_def)

section \<open>Planning and aborting\<close>

lemma plan_body_effect:
  assumes "plan_body cr cfg c now p t = Inr (st, t')"
  shows "mt_db t' = mt_db t \<and> mt_writes t' = mt_writes t \<and> db_get (mt_db t) ''operations'' (rp_op p) = Some (DStatus st)
    \<or> db_get (mt_db t) ''operations'' (rp_op p) = None \<and> mt_db t' = set_key ''operations'' (rp_op p) (DStatus st) (mt_db t)
      \<and> mt_writes t' = mt_writes t @ [Mutation ''operations'' (rp_op p) (DStatus st) ''put'' 0]
      \<and> st = (status_for p)\<lparr>rs_retired := archive_floor (mt_db t)\<rparr>
      \<and> rp_from p = archive_floor (mt_db t) + 1 \<and> rp_through p \<le> db_seq (mt_db t) ''events''
      \<and> retirement_coverage cr cfg now (mt_db t) (rp_set p) (rp_from p) (rp_through p) = Inr ()"
    and "ready cfg (mt_db t) = Inr ()" "rp_env p = lc_env cfg"
    "as_text (meta_get (mt_db t) ''identity'') = Some (rp_store p)"
  using assms
  by (auto simp: plan_body_def Let_def split: option.splits if_splits)

lemma abort_body_effect:
  assumes "abort_body cr cfg c now p st t = Inr (st', t')"
  shows "mt_db t' = mt_db t \<and> mt_writes t' = mt_writes t
        \<and> db_get (mt_db t) ''operations'' (rp_op p) = Some (DStatus st') \<and> terminal st'
    \<or> (\<exists>live. (db_get (mt_db t) ''operations'' (rp_op p) = Some (DStatus live) \<and> \<not> terminal live
              \<or> db_get (mt_db t) ''operations'' (rp_op p) = None \<and> live = st)
        \<and> st' = seal_status cr (live\<lparr>rs_status := ''aborted'', rs_completed := utc now,
                                rs_retired := archive_floor (mt_db t)\<rparr>)
        \<and> mt_db t' = set_key ''operations'' (rp_op p) (DStatus st') (mt_db t)
        \<and> mt_writes t' = mt_writes t @ [Mutation ''operations'' (rp_op p) (DStatus st') ''put'' 0])"
    and "ready cfg (mt_db t) = Inr ()" "rp_env p = lc_env cfg"
    "as_text (meta_get (mt_db t) ''identity'') = Some (rp_store p)"
  using assms
  by (auto simp: abort_body_def Let_def split: option.splits if_splits)

section \<open>Applying\<close>

lemma delete_events:
  "for_state (\<lambda>n. t_del ''events'' (sequence_key n)) ns t = Inr t' \<Longrightarrow>
     (\<forall>b. db_has (mt_db t') b = db_has (mt_db t) b) \<and> (\<forall>b. db_seq (mt_db t') b = db_seq (mt_db t) b)
     \<and> (\<forall>b k. db_get (mt_db t') b k =
          (if b = ''events'' \<and> k \<in> sequence_key ` set ns then None else db_get (mt_db t) b k))
     \<and> (\<forall>b. b \<noteq> ''events'' \<longrightarrow> db_entries (mt_db t') b = db_entries (mt_db t) b)"
proof (induction ns arbitrary: t)
  case (Cons n ns)
  from Cons.prems obtain u where u: "t_del ''events'' (sequence_key n) t = Inr u"
      "for_state (\<lambda>n. t_del ''events'' (sequence_key n)) ns u = Inr t'" by auto
  from Cons.IH [OF u(2)] u(1) show ?case by auto
qed auto

lemma apply_body_effect:
  assumes "apply_body cr cfg c now op st t = Inr (st', t')"
  defines "done \<equiv> seal_status cr (st\<lparr>rs_status := ''completed'', rs_completed := utc (now 1), rs_retired := rs_through st\<rparr>)"
  shows "st' = done" "ready cfg (mt_db t) = Inr ()" "db_get (mt_db t) ''operations'' op = Some (DStatus st)"
    "rs_status st = ''pending''" "archive_floor (mt_db t) + 1 = rs_from st"
    "retirement_coverage cr cfg (now 0) (mt_db t) (rs_set st) (rs_from st) (rs_through st) = Inr ()"
    "db_has (mt_db t') b = db_has (mt_db t) b" "db_seq (mt_db t') b = db_seq (mt_db t) b"
    "db_get (mt_db t') ''events'' k =
       (if k \<in> sequence_key ` {n. rs_from st \<le> n \<and> n \<le> rs_through st} then None
        else db_get (mt_db t) ''events'' k)"
    "meta_get (mt_db t') k = (if k = ''archive_floor'' then Some (Raw (sequence_key (rs_through st))) else meta_get (mt_db t) k)"
    "db_get (mt_db t') ''operations'' k = (if k = op then Some (DStatus done) else db_get (mt_db t) ''operations'' k)"
    "b \<notin> {''events'', ''meta'', ''operations''} \<Longrightarrow> db_entries (mt_db t') b = db_entries (mt_db t) b"
proof -
  from assms(1) obtain u v where
    del: "for_state (\<lambda>n. t_del ''events'' (sequence_key n)) (seq_range (rs_from st) (rs_through st)) t = Inr u"
    and fl: "t_put ''meta'' ''archive_floor'' (Raw (sequence_key (rs_through st))) u = Inr v"
    and op: "t_put ''operations'' op (DStatus done) v = Inr t'" and st': "st' = done"
    and pre: "ready cfg (mt_db t) = Inr ()" "as_status (db_get (mt_db t) ''operations'' op) = Some st"
      "rs_status st = ''pending''" "archive_floor (mt_db t) + 1 = rs_from st"
      "retirement_coverage cr cfg (now 0) (mt_db t) (rs_set st) (rs_from st) (rs_through st) = Inr ()"
    by (auto simp: apply_body_def Let_def done_def simp del: t_calls_Inr split: if_splits)
  note D = delete_events [OF del]
  show "st' = done" "ready cfg (mt_db t) = Inr ()" "db_get (mt_db t) ''operations'' op = Some (DStatus st)"
    "rs_status st = ''pending''" "archive_floor (mt_db t) + 1 = rs_from st"
    "retirement_coverage cr cfg (now 0) (mt_db t) (rs_set st) (rs_from st) (rs_through st) = Inr ()"
    using st' pre by simp_all
  show "db_has (mt_db t') b = db_has (mt_db t) b" "db_seq (mt_db t') b = db_seq (mt_db t) b"
    "db_get (mt_db t') ''events'' k =
       (if k \<in> sequence_key ` {n. rs_from st \<le> n \<and> n \<le> rs_through st} then None
        else db_get (mt_db t) ''events'' k)"
    "meta_get (mt_db t') k = (if k = ''archive_floor'' then Some (Raw (sequence_key (rs_through st))) else meta_get (mt_db t) k)"
    "db_get (mt_db t') ''operations'' k = (if k = op then Some (DStatus done) else db_get (mt_db t) ''operations'' k)"
    "b \<notin> {''events'', ''meta'', ''operations''} \<Longrightarrow> db_entries (mt_db t') b = db_entries (mt_db t) b"
    using D fl op by (auto simp: set_seq_range)
qed

section \<open>Retiring keeps the ledger\<close>

lemma ready_version: "ready cfg d = Inr u \<Longrightarrow> version_of d = Some (Raw ''2'')"
  by (auto simp: ready_def as_text_def split: if_splits option.splits doc.splits)

lemma version2_not_legacy: "version_of d = Some (Raw ''2'') \<Longrightarrow> \<not> legacy_seq d n"
  by (simp add: legacy_seq_def)

lemma coverage_recordD:
  assumes "coverage_record cr oldest d n = Inr u"
  obtains r b received where "receipt_time d n = Inr received" "\<not> after received oldest"
    "db_get d ''events'' (sequence_key n) = Some (DRecord r)" "br_seq r = n"
    "db_get d ''ids'' (ev_id (br_event r)) = Some (DBinding b)" "rb_seq b = n"
    "rb_content b = br_digest r" "rb_record b = sha cr (DRecord r)"
  using assms
  by (auto simp: coverage_record_def decode_billing_record_def bound_receipt_def Let_def
      split: sum.splits option.splits if_splits)

lemma retirement_coverageD:
  assumes "retirement_coverage cr cfg now d sid from through = Inr u"
  obtains ce where "db_get d ''catalog'' sid = Some (DCatalog ce)" "ce_status ce = ''verified''"
    "mf_from (ce_manifest ce) \<le> from" "through \<le> mf_through (ce_manifest ce)"
    "\<exists>p. verify_completion cr (lc_keys cfg) (ce_completion ce) (ce_manifest ce) (ce_bytes ce) = Inr p"
    "\<And>n. from \<le> n \<Longrightarrow> n \<le> through \<Longrightarrow>
       coverage_record cr (add_ns (utc now) (- lc_retention_days cfg * day)) d n = Inr ()"
  using assms
  by (fastforce simp: retirement_coverage_def set_seq_range split: option.splits sum.splits if_splits)

lemma represents_binding:
  assumes "represents cr d L" "db_get d ''ids'' i = Some (DBinding b)"
  shows "1 \<le> rb_seq b \<and> rb_seq b \<le> db_seq d ''events'' \<and> entry L (rb_seq b) = (i, rb_content b)
    \<and> receipt_ok d (rb_seq b) (i, rb_content b) b"
proof -
  have "i \<in> fst ` set L" using assms by (force simp: represents_def)
  then obtain x where x: "x \<in> set L" "fst x = i" by auto
  from assms(1) x(1) obtain n where n: "1 \<le> n" "n \<le> db_seq d ''events''" "slot_ok cr d n x" "entry L n = x"
    by (rule represents_entry)
  have "receipt_ok d n x b"
  proof (cases "archive_floor d < n")
    case True
    from n(3) True show ?thesis by (cases rule: slot_live) (use assms(2) x(2) in auto)
  next
    case False
    from n(3) False show ?thesis by (rule slot_retired) (use assms(2) x(2) in auto)
  qed
  moreover from this have "rb_seq b = n" "rb_content b = snd x" by (simp_all add: receipt_ok_def)
  ultimately show ?thesis using n x(2) by (cases x) auto
qed

lemma coverage_in_ledger:
  assumes rep: "represents cr d L" and cov: "coverage_record cr oldest d n = Inr u"
  shows "1 \<le> n" "n \<le> db_seq d ''events''" "archive_floor d < n"
proof -
  from cov obtain r b where b: "db_get d ''events'' (sequence_key n) = Some (DRecord r)"
      "db_get d ''ids'' (ev_id (br_event r)) = Some (DBinding b)" "rb_seq b = n"
    by (rule coverage_recordD)
  from represents_binding [OF rep b(2)] b(3) show n: "1 \<le> n" "n \<le> db_seq d ''events''" by auto
  have slot: "slot_ok cr d n (entry L n)" using rep n by (simp add: represents_def)
  show "archive_floor d < n"
  proof (rule ccontr)
    assume "\<not> archive_floor d < n"
    with slot show False by (rule slot_retired) (use b(1) in simp)
  qed
qed

lemma slot_liveI:
  "archive_floor d < n \<Longrightarrow> db_get d ''events'' (sequence_key n) = Some body \<Longrightarrow> body_ok cr n x body \<Longrightarrow>
   \<not> legacy_seq d n \<Longrightarrow> db_get d ''ids'' (fst x) = Some (DBinding b) \<Longrightarrow> receipt_ok d n x b \<Longrightarrow>
   rb_record b = sha cr body \<Longrightarrow> slot_ok cr d n x"
  by (simp add: slot_ok_def)

lemma slot_retiredI:
  "\<not> archive_floor d < n \<Longrightarrow> db_get d ''events'' (sequence_key n) = None \<Longrightarrow> \<not> legacy_seq d n \<Longrightarrow>
   db_get d ''ids'' (fst x) = Some (DBinding b) \<Longrightarrow> receipt_ok d n x b \<Longrightarrow>
   (\<And>body. db_get d ''archive_cache'' (sequence_key n) = Some body \<Longrightarrow> body_ok cr n x body \<and> rb_record b = sha cr body) \<Longrightarrow>
   slot_ok cr d n x"
  by (simp add: slot_ok_def)

lemma apply_body_represents:
  assumes rep: "represents cr (mt_db t) L" and app: "apply_body cr cfg c now op st t = Inr (st', t')"
    and range: "rs_from st \<le> rs_through st"
  shows "represents cr (mt_db t') L" "archive_floor (mt_db t) < archive_floor (mt_db t')"
proof -
  note E = apply_body_effect [OF app]
  let ?d = "mt_db t" and ?d' = "mt_db t'" and ?h = "db_seq (mt_db t) ''events''" and ?f = "archive_floor (mt_db t)"
  have cov: "coverage_record cr (add_ns (utc (now 0)) (- lc_retention_days cfg * day)) ?d n = Inr ()"
    if "rs_from st \<le> n" "n \<le> rs_through st" for n
    by (rule retirement_coverageD [OF E(6)]) (use that in auto)
  have v2: "version_of ?d = Some (Raw ''2'')" "version_of ?d' = Some (Raw ''2'')"
    using ready_version [OF E(2)] by (simp_all add: E)
  have through: "rs_through st \<le> ?h" using coverage_in_ledger [OF rep cov [of "rs_through st"]] range by simp
  have fl': "archive_floor ?d' = rs_through st" by (simp add: E)
  have start: "?f < rs_from st" using coverage_in_ledger(3) [OF rep cov [of "rs_from st"]] range by simp
  have below: "n \<le> ?f" if "n < rs_from st" for n
  proof -
    have "?f \<noteq> - 1" using start by (metis leD word_n1_ge)
    then have "unat (rs_from st) = Suc (unat ?f)" using u64_Suc(1) E(5) by metis
    with that show ?thesis by (simp add: word_less_nat_alt word_le_nat_alt)
  qed
  show "?f < archive_floor ?d'" using start range fl' by simp
  have ids: "db_get ?d' b k = db_get ?d b k" if "b \<in> {''ids'', ''receipt_ids'', ''receipt_times'', ''archive_cache''}" for b k
    using E(12) [of b] that by (auto simp: db_get_def)
  have ver: "versioned ?d" using rep by (simp add: represents_def)
  have ver': "versioned ?d'"
    using ver v2 through by (simp add: versioned_def E)
  have leg: "legacy_seq ?d n = False" "legacy_seq ?d' n = False" for n
    using v2 version2_not_legacy by auto
  have rec: "receipt_ok ?d' n x b = receipt_ok ?d n x b" for n x b
    by (simp add: receipt_ok_def ids E)
  have cacheless: "db_get ?d ''archive_cache'' (sequence_key n) = None" if "?f < n" for n
    using rep that by (simp add: represents_def)
  have slots: "slot_ok cr ?d' n (entry L n)" if n: "1 \<le> n" "n \<le> ?h" for n
  proof -
    have slot: "slot_ok cr ?d n (entry L n)" using rep n by (simp add: represents_def)
    show ?thesis
    proof (cases "?f < n")
      case False
      then have "\<not> rs_from st \<le> n" "\<not> archive_floor ?d' < n" using start range fl' by auto
      from slot False show ?thesis
        by (rule slot_retired, intro slot_retiredI)
           (use \<open>\<not> rs_from st \<le> n\<close> \<open>\<not> archive_floor ?d' < n\<close> in \<open>auto simp: E(9) ids rec leg\<close>)
    next
      case live: True
      from slot live show ?thesis
      proof (cases rule: slot_live)
        case legacy
        then show ?thesis using leg by simp
      next
        case (bound body b)
        show ?thesis
        proof (cases "n \<le> rs_through st")
          case True
          have "rs_from st \<le> n" using below live by (metis not_le)
          with True bound cacheless [OF live] show ?thesis
            by (intro slot_retiredI [where b = b]) (auto simp: E(9) fl' ids rec leg)
        next
          case False
          with bound show ?thesis
            by (intro slot_liveI [where b = b and body = body]) (auto simp: E(9) fl' ids rec leg)
        qed
      qed
    qed
  qed
  have "db_get ?d' ''archive_cache'' (sequence_key n) = None" if "archive_floor ?d' < n" for n
    using that cacheless \<open>?f < archive_floor ?d'\<close> by (simp add: ids)
  with rep ver' slots show "represents cr ?d' L" by (simp add: represents_def E ids)
qed

text \<open>The stored operations have ordered ranges.\<close>

definition ranges_ordered :: "db \<Rightarrow> bool" where
  "ranges_ordered d =
     (\<forall>k st. db_get d ''operations'' k = Some (DStatus st) \<longrightarrow> rs_from st \<le> rs_through st)"

section \<open>Migrating keeps the ledger\<close>

lemma entry_inj:
  assumes "distinct (map fst L)" "1 \<le> n" "1 \<le> m" "unat n \<le> length L" "unat m \<le> length L"
    and "fst (entry L n) = fst (entry L m)"
  shows "n = m"
proof -
  have i: "unat n - 1 < length L" "unat m - 1 < length L" "1 \<le> unat n" "1 \<le> unat m"
    using assms(2-5) by (auto simp: word_le_nat_alt)
  have "map fst L ! (unat n - 1) = map fst L ! (unat m - 1)" using assms(6) i by (simp add: entry_def)
  then have "unat n - 1 = unat m - 1" using nth_eq_iff_index_eq [OF assms(1)] i by simp
  with i have "unat n = unat m" by linarith
  then show ?thesis by (simp only: word_unat_eq_iff)
qed

text \<open>The database in the middle of a batch, read as if its progress were recorded.\<close>

definition progressed :: "u64 \<Rightarrow> db \<Rightarrow> db" where
  "progressed pos d = set_key ''meta'' ''backfilled_through'' (Raw (sequence_key pos)) d"

lemma progressed_reads [simp]:
  "db_has (progressed pos d) b = db_has d b"
  "db_seq (progressed pos d) b = db_seq d b"
  "b \<noteq> ''meta'' \<Longrightarrow> db_get (progressed pos d) b k = db_get d b k"
  "k \<noteq> ''backfilled_through'' \<Longrightarrow> meta_get (progressed pos d) k = meta_get d k"
  "db_has d ''meta'' \<Longrightarrow> meta_get (progressed pos d) ''backfilled_through'' = Some (Raw (sequence_key pos))"
  by (auto simp: progressed_def)

definition migrating :: "crypto \<Rightarrow> ledger \<Rightarrow> u64 \<Rightarrow> db \<Rightarrow> bool" where
  "migrating cr L pos d =
     (represents cr (progressed pos d) L \<and> version_of d = Some (Raw ''2-migrating'')
      \<and> pos \<le> meta_uint d ''legacy_through'')"

lemma migrate_record_effect:
  assumes "migrate_record cr n t = Inr t'"
  obtains r where "db_get (mt_db t) ''events'' (sequence_key n) = Some (DRecord r)"
    "mt_db t' =
       set_key ''receipt_ids'' (sequence_key n) (Raw (ev_id (br_event r)))
         (set_key ''receipt_times'' (sequence_key n) (Raw ''legacy'')
           (set_key ''ids'' (ev_id (br_event r))
              (DBinding \<lparr>rb_seq = n, rb_content = br_digest r, rb_record = sha cr (DRecord r)\<rparr>) (mt_db t)))"
    "db_has (mt_db t) ''ids''" "db_has (mt_db t) ''receipt_ids''" "db_has (mt_db t) ''receipt_times''"
proof -
  from assms obtain r where r: "decode_billing_record cr (db_get (mt_db t) ''events'' (sequence_key n)) n = Inr r"
    and puts: "t_puts
        [(''ids'', ev_id (br_event r), DBinding \<lparr>rb_seq = n, rb_content = br_digest r,
            rb_record = sha cr (the (db_get (mt_db t) ''events'' (sequence_key n)))\<rparr>),
         (''receipt_times'', sequence_key n, Raw ''legacy''),
         (''receipt_ids'', sequence_key n, Raw (ev_id (br_event r)))] t = Inr t'"
    by (auto simp: migrate_record_def Let_def simp del: t_puts.simps split: if_splits)
  have "db_get (mt_db t) ''events'' (sequence_key n) = Some (DRecord r)"
    using r by (auto simp: decode_billing_record_def split: option.splits if_splits sum.splits)
  with puts show thesis by (intro that [of r]) auto
qed

lemma migrate_record_represents:
  assumes mig: "migrating cr L pos (mt_db t)" and rec: "migrate_record cr (pos + 1) t = Inr t'"
    and pos: "pos < meta_uint (mt_db t) ''legacy_through''" and hex: "sha_hex cr"
  shows "migrating cr L (pos + 1) (mt_db t')"
proof -
  let ?n = "pos + 1" and ?d = "mt_db t" and ?D = "progressed pos (mt_db t)" and ?D' = "progressed (pos + 1) (mt_db t')"
  have rep: "represents cr ?D L" and v: "version_of ?d = Some (Raw ''2-migrating'')"
    using mig by (simp_all add: migrating_def)
  have ver: "versioned ?D" using rep by (simp add: represents_def)
  have meta: "db_has ?d ''meta''" using ver by (simp add: versioned_def)
  have un: "unat ?n = Suc (unat pos)" using pos by (rule u64_less_Suc)
  have n: "1 \<le> ?n" "pos < ?n" "?n \<le> meta_uint ?d ''legacy_through''"
    using un pos by (auto simp: word_le_nat_alt word_less_nat_alt)
  have leg: "meta_uint ?d ''legacy_through'' \<le> db_seq ?d ''events''" using ver by (simp add: versioned_def)
  have nh: "?n \<le> db_seq ?d ''events''" using n(3) leg by simp
  have len: "length L = unat (db_seq ?d ''events'')" and dist: "distinct (map fst L)"
    using rep by (simp_all add: represents_def)
  from rec obtain r where r: "db_get ?d ''events'' (sequence_key ?n) = Some (DRecord r)"
    and t': "mt_db t' =
       set_key ''receipt_ids'' (sequence_key ?n) (Raw (ev_id (br_event r)))
         (set_key ''receipt_times'' (sequence_key ?n) (Raw ''legacy'')
           (set_key ''ids'' (ev_id (br_event r))
              (DBinding \<lparr>rb_seq = ?n, rb_content = br_digest r, rb_record = sha cr (DRecord r)\<rparr>) ?d))"
    and has: "db_has ?d ''ids''" "db_has ?d ''receipt_ids''" "db_has ?d ''receipt_times''"
    by (rule migrate_record_effect)
  have R: "db_get (mt_db t') ''events'' k = db_get ?d ''events'' k"
    "db_get (mt_db t') ''archive_cache'' k = db_get ?d ''archive_cache'' k"
    "db_get (mt_db t') ''ids'' k =
       (if k = ev_id (br_event r)
        then Some (DBinding \<lparr>rb_seq = ?n, rb_content = br_digest r, rb_record = sha cr (DRecord r)\<rparr>)
        else db_get ?d ''ids'' k)"
    "db_get (mt_db t') ''receipt_ids'' k =
       (if k = sequence_key ?n then Some (Raw (ev_id (br_event r))) else db_get ?d ''receipt_ids'' k)"
    "db_get (mt_db t') ''receipt_times'' k =
       (if k = sequence_key ?n then Some (Raw ''legacy'') else db_get ?d ''receipt_times'' k)"
    "meta_get (mt_db t') k = meta_get ?d k" "db_has (mt_db t') b = db_has ?d b"
    "db_seq (mt_db t') b = db_seq ?d b" for k b
    using has by (simp_all add: t')
  have fl: "archive_floor ?D = 0" using ver v by (auto simp: versioned_def)
  have slot: "slot_ok cr ?D ?n (entry L ?n)" using rep n(1) nh by (simp add: represents_def)
  have body: "body_ok cr ?n (entry L ?n) (DRecord r)"
  proof (cases "archive_floor ?D < ?n")
    case True
    from slot True show ?thesis by (cases rule: slot_live) (use r in auto)
  next
    case False
    from slot False show ?thesis by (rule slot_retired) (use r in auto)
  qed
  then have r_id: "ev_id (br_event r) = fst (entry L ?n)" "br_digest r = snd (entry L ?n)"
    by (auto simp: body_ok_def)
  have legacy': "legacy_seq ?D' m = (legacy_seq ?D m \<and> m \<noteq> ?n)" for m
  proof -
    have "?n < m \<longleftrightarrow> pos < m \<and> m \<noteq> ?n"
      using un by (auto simp: word_less_nat_alt word_unat_eq_iff)
    then show ?thesis using v meta by (auto simp: legacy_seq_def R)
  qed
  have slots: "slot_ok cr ?D' m (entry L m)" if m: "1 \<le> m" "m \<le> db_seq ?d ''events''" for m
  proof (cases "m = ?n")
    case True
    show ?thesis unfolding True
      by (rule slot_liveI [where body = "DRecord r" and
            b = "\<lparr>rb_seq = ?n, rb_content = br_digest r, rb_record = sha cr (DRecord r)\<rparr>"])
         (use body r r_id n fl hex in \<open>auto simp: R legacy' receipt_ok_def sha_hex_def word_less_nat_alt un\<close>)
  next
    case False
    have "unat m \<le> length L" "unat ?n \<le> length L" using m nh len by (simp_all add: word_le_nat_alt)
    with False have "fst (entry L m) \<noteq> fst (entry L ?n)" using entry_inj [OF dist m(1) n(1)] by blast
    then have other: "fst (entry L m) \<noteq> ev_id (br_event r)" by (simp add: r_id)
    have "slot_ok cr ?D m (entry L m)" using rep m by (simp add: represents_def)
    then show ?thesis
      by (rule slot_ok_frame) (use False other in \<open>auto simp: legacy' R\<close>)
  qed
  have ver': "versioned ?D'"
    using ver v n(3) leg meta by (auto simp: versioned_def R intro: order.trans)
  have "fst (entry L ?n) \<in> fst ` set L"
    using entry_in_set [OF n(1), of L] nh len by (simp add: word_le_nat_alt)
  with rep ver' slots have "represents cr ?D' L"
    by (auto simp: represents_def R r_id)
  then show ?thesis using v n(3) by (simp add: migrating_def R)
qed

lemma migrate_loop_migrating:
  assumes hex: "sha_hex cr"
  shows "migrating cr L pos (mt_db t) \<Longrightarrow> migrate_loop cr c (meta_uint (mt_db t) ''legacy_through'') k n pos t = Inr (pos', t')
    \<Longrightarrow> migrating cr L pos' (mt_db t')
      \<and> meta_uint (mt_db t') ''legacy_through'' = meta_uint (mt_db t) ''legacy_through''
      \<and> unat pos' = min (unat pos + k) (unat (meta_uint (mt_db t) ''legacy_through''))
      \<and> db_entries (mt_db t') ''events'' = db_entries (mt_db t) ''events''
      \<and> db_seq (mt_db t') ''events'' = db_seq (mt_db t) ''events''"
proof (induction k arbitrary: n pos t)
  case 0
  then show ?case by (auto simp: migrating_def word_le_nat_alt)
next
  case (Suc k)
  let ?top = "meta_uint (mt_db t) ''legacy_through''"
  show ?case
  proof (cases "pos < ?top")
    case False
    then have "pos = ?top" using Suc.prems(1) by (simp add: migrating_def)
    moreover have "pos' = pos" "t' = t" using Suc.prems(2) False by simp_all
    ultimately show ?thesis using Suc.prems(1) by simp
  next
    case True
    with Suc.prems(2) obtain u where u: "migrate_record cr (pos + 1) t = Inr u"
        "migrate_loop cr c ?top k (n + 1) (pos + 1) u = Inr (pos', t')"
      by auto
    from u(1) obtain r where r: "mt_db u =
        set_key ''receipt_ids'' (sequence_key (pos + 1)) (Raw (ev_id (br_event r)))
          (set_key ''receipt_times'' (sequence_key (pos + 1)) (Raw ''legacy'')
            (set_key ''ids'' (ev_id (br_event r))
               (DBinding \<lparr>rb_seq = pos + 1, rb_content = br_digest r, rb_record = sha cr (DRecord r)\<rparr>) (mt_db t)))"
      by (rule migrate_record_effect)
    have same: "meta_uint (mt_db u) ''legacy_through'' = ?top"
      "db_entries (mt_db u) ''events'' = db_entries (mt_db t) ''events''"
      "db_seq (mt_db u) ''events'' = db_seq (mt_db t) ''events''"
      by (simp_all add: r)
    from Suc.IH [OF migrate_record_represents [OF Suc.prems(1) u(1) True hex]] u(2) same
      u64_less_Suc [OF True] True
    show ?thesis by (auto simp: word_less_nat_alt)
  qed
qed

lemma slot_legacyI:
  "archive_floor d < n \<Longrightarrow> db_get d ''events'' (sequence_key n) = Some body \<Longrightarrow> body_ok cr n x body \<Longrightarrow>
   legacy_seq d n \<Longrightarrow> db_get d ''ids'' (fst x) = Some (Raw (sequence_key n)) \<Longrightarrow> slot_ok cr d n x"
  by (simp add: slot_ok_def)

lemma create_buckets:
  "for_state t_create bs' t = Inr t' \<Longrightarrow>
     (\<forall>b. db_has (mt_db t') b = (b \<in> set bs' \<or> db_has (mt_db t) b))
     \<and> (\<forall>b. db_entries (mt_db t') b = db_entries (mt_db t) b) \<and> (\<forall>b. db_seq (mt_db t') b = db_seq (mt_db t) b)"
proof (induction bs' arbitrary: t)
  case (Cons b bs')
  from Cons.prems obtain u where u: "t_create b t = Inr u" "for_state t_create bs' u = Inr t'" by auto
  from Cons.IH [OF u(2)] u(1) show ?case by auto
qed simp

lemma migrate_start_effect:
  assumes "migrate_start t = Inr t'"
  shows "db_has (mt_db t') b = (b \<in> set v2_buckets \<or> db_has (mt_db t) b)"
    "db_has (mt_db t) ''meta''"
    "db_seq (mt_db t') b = db_seq (mt_db t) b"
    "b \<noteq> ''meta'' \<Longrightarrow> db_entries (mt_db t') b = db_entries (mt_db t) b"
    "meta_get (mt_db t') k =
       (if k = ''version'' then Some (Raw ''2-migrating'')
        else if k = ''legacy_through'' then Some (Raw (sequence_key (db_seq (mt_db t) ''events'')))
        else meta_get (mt_db t) k)"
proof -
  from assms obtain u where u: "for_state t_create v2_buckets t = Inr u"
      "t_puts [(''meta'', ''version'', Raw ''2-migrating''),
               (''meta'', ''legacy_through'', Raw (sequence_key (db_seq (mt_db u) ''events'')))] u = Inr t'"
    by (auto simp: migrate_start_def)
  note C = create_buckets [OF u(1)]
  have meta: "db_has (mt_db u) ''meta''" using u(2) by auto
  then show "db_has (mt_db t) ''meta''" using C by (simp add: v2_buckets_def)
  have t': "mt_db t' = set_key ''meta'' ''legacy_through'' (Raw (sequence_key (db_seq (mt_db t) ''events'')))
      (set_key ''meta'' ''version'' (Raw ''2-migrating'') (mt_db u))"
    using u(2) C by auto
  show "db_has (mt_db t') b = (b \<in> set v2_buckets \<or> db_has (mt_db t) b)"
    "db_seq (mt_db t') b = db_seq (mt_db t) b"
    "b \<noteq> ''meta'' \<Longrightarrow> db_entries (mt_db t') b = db_entries (mt_db t) b"
    using C by (simp_all add: t')
  show "meta_get (mt_db t') k =
       (if k = ''version'' then Some (Raw ''2-migrating'')
        else if k = ''legacy_through'' then Some (Raw (sequence_key (db_seq (mt_db t) ''events'')))
        else meta_get (mt_db t) k)"
    using C meta by (auto simp: t' db_get_def)
qed

lemma migrate_start_migrating:
  assumes rep: "represents cr (mt_db t) L" and v1: "version_of (mt_db t) = Some (Raw ''1'')"
    and st: "migrate_start t = Inr t'"
  shows "migrating cr L 0 (mt_db t')"
proof -
  let ?d = "mt_db t" and ?D = "progressed 0 (mt_db t')" and ?h = "db_seq (mt_db t) ''events''"
  note E = migrate_start_effect [OF st]
  have ver: "versioned ?d" using rep by (simp add: represents_def)
  have get: "db_get (mt_db t') b k = db_get ?d b k" if "b \<noteq> ''meta''" for b k
    using that E(4) by (simp add: db_get_def)
  have has: "db_has (mt_db t') ''meta''" using E(1,2) by simp
  have fl: "archive_floor ?D = 0" "archive_floor ?d = 0" using ver v1 by (auto simp: versioned_def E)
  have leg: "legacy_seq ?D n" if "1 \<le> n" "n \<le> ?h" for n
    using that has by (auto simp: legacy_seq_def E word_less_nat_alt word_le_nat_alt)
  have slots: "slot_ok cr ?D n (entry L n)" if n: "1 \<le> n" "n \<le> ?h" for n
  proof -
    have slot: "slot_ok cr ?d n (entry L n)" using rep n by (simp add: represents_def)
    have pos: "0 < n" using n(1) by (auto simp: word_less_nat_alt word_le_nat_alt)
    then have "archive_floor ?d < n" by (simp add: fl)
    from slot this show ?thesis
    proof (cases rule: slot_live)
      case (legacy body)
      with pos fl leg [OF n] show ?thesis by (intro slot_legacyI [where body = body]) (auto simp: get)
    next
      case bound
      then show ?thesis using v1 by (simp add: legacy_seq_def)
    qed
  qed
  have "versioned ?D" using ver has v1 fl by (auto simp: versioned_def E v2_buckets_def)
  with rep slots fl show ?thesis by (simp add: migrating_def represents_def E get)
qed

lemma progressed_same: "ledger_same d (progressed (meta_uint d ''backfilled_through'') d)"
  by (auto simp: ledger_same_def progressed_def)

lemma migrate_body_represents:
  assumes rep: "represents cr d L" and hex: "sha_hex cr"
    and mig: "migrate_body cr c now batch (begin_tx d) = Inr (u, t')"
  shows "represents cr (mt_db t') L \<and> db_entries (mt_db t') ''events'' = db_entries d ''events''
    \<and> db_seq (mt_db t') ''events'' = db_seq d ''events''"
proof (cases "version_of d = Some (Raw ''2'')")
  case True
  with mig rep show ?thesis by (auto simp: migrate_body_def Let_def split: if_splits)
next
  case False
  have ver: "versioned d" using rep by (simp add: represents_def)
  then have v: "version_of d = Some (Raw ''1'') \<or> version_of d = Some (Raw ''2-migrating'')"
    using False by (auto simp: versioned_def)
  from mig v obtain t0 pos t1 t2 where
    start: "(if version_of d = Some (Raw ''1'') then migrate_start (begin_tx d) else Inr (begin_tx d)) = Inr t0"
    and loop: "migrate_loop cr c (meta_uint (mt_db t0) ''legacy_through'') batch 0
                 (meta_uint (mt_db t0) ''backfilled_through'') t0 = Inr (pos, t1)"
    and put: "t_put ''meta'' ''backfilled_through'' (Raw (sequence_key pos)) t1 = Inr t2"
    and fin: "(if pos = meta_uint (mt_db t0) ''legacy_through''
               then t_puts [(''meta'', ''legacy_age_floor'', DTime (utc now)), (''meta'', ''version'', Raw ''2'')] t2
               else Inr t2) = Inr t'"
    by (auto simp: migrate_body_def Let_def simp del: t_calls_Inr t_puts.simps split: if_splits)
  have first: "migrating cr L (meta_uint (mt_db t0) ''backfilled_through'') (mt_db t0)
      \<and> db_entries (mt_db t0) ''events'' = db_entries d ''events'' \<and> db_seq (mt_db t0) ''events'' = db_seq d ''events''"
  proof (cases "version_of d = Some (Raw ''1'')")
    case True
    then have st: "migrate_start (begin_tx d) = Inr t0" using start by simp
    have "meta_uint (mt_db t0) ''backfilled_through'' = 0"
      using ver True by (simp add: versioned_def migrate_start_effect [OF st])
    with migrate_start_migrating [of cr "begin_tx d"] rep True st show ?thesis
      by (simp add: migrate_start_effect [OF st])
  next
    case False
    with v have m: "version_of d = Some (Raw ''2-migrating'')" by simp
    have "t0 = begin_tx d" using start False by simp
    moreover have "represents cr (progressed (meta_uint d ''backfilled_through'') d) L"
      using rep ledger_same_represents [OF progressed_same] by simp
    ultimately show ?thesis using m ver by (auto simp: migrating_def versioned_def)
  qed
  note final = migrate_loop_migrating [OF hex conjunct1 [OF first] loop]
  have t2: "mt_db t2 = progressed pos (mt_db t1)" using put by (simp add: progressed_def)
  have rep2: "represents cr (mt_db t2) L" and v1: "version_of (mt_db t1) = Some (Raw ''2-migrating'')"
    using final by (simp_all add: t2 migrating_def)
  have ev2: "db_entries (mt_db t2) ''events'' = db_entries d ''events''" "db_seq (mt_db t2) ''events'' = db_seq d ''events''"
    using final first by (simp_all add: t2 progressed_def)
  show ?thesis
  proof (cases "pos = meta_uint (mt_db t0) ''legacy_through''")
    case False
    with fin rep2 ev2 show ?thesis by simp
  next
    case True
    then have t': "mt_db t' = set_key ''meta'' ''version'' (Raw ''2'')
        (set_key ''meta'' ''legacy_age_floor'' (DTime (utc now)) (mt_db t2))" "db_has (mt_db t2) ''meta''"
      using fin by auto
    have legs: "legacy_seq (mt_db t') n = False" "legacy_seq (mt_db t2) n = False" for n
      using True final t'(2) v1 by (auto simp: legacy_seq_def t' t2 not_less)
    have "slot_ok cr (mt_db t') n (entry L n)" if "1 \<le> n \<and> n \<le> db_seq (mt_db t2) ''events''" for n
      by (rule slot_ok_frame [of cr "mt_db t2"]) (use rep2 that legs in \<open>auto simp: represents_def t'\<close>)
    moreover have "versioned (mt_db t')"
      using rep2 v1 t'(2) by (auto simp: represents_def versioned_def t' t2)
    ultimately show ?thesis using rep2 ev2 by (simp add: represents_def t')
  qed
qed

section \<open>Records of bounded size decode\<close>

lemma dec_nat_length: "n < 10 ^ Suc k \<Longrightarrow> length (dec_nat n) \<le> Suc k"
proof (induction k arbitrary: n)
  case 0
  then show ?case by (simp add: dec_nat.simps [of n])
next
  case (Suc k)
  have "n div 10 < 10 ^ Suc k" using Suc.prems by (simp add: less_mult_imp_div_less)
  with Suc.IH [of "n div 10"] show ?case by (simp add: dec_nat.simps [of n])
qed

lemma sequence_text_length: "length (dec_nat (unat (n :: u64))) \<le> 20"
proof -
  have "unat n < 2 ^ LENGTH(64)" by (rule unsigned_less)
  then have "unat n < 10 ^ Suc 19" by simp
  then show ?thesis using dec_nat_length [of "unat n" 19] by simp
qed

lemma text_json_len_bound: "text_json_len s \<le> 6 * length s"
proof (induction s rule: text_json_len.induct)
  case (2 c s)
  have "char_json_len c \<le> 6" by (simp add: char_json_len_def Let_def)
  with 2 show ?case by (auto intro: order.trans)
qed simp

lemma small_record_len:
  assumes "event_json_len (br_event r) \<le> max_event_bytes" "length (br_digest r) = 64"
  shows "record_len r \<le> max_record_bytes"
  using assms sequence_text_length [of "br_seq r"] text_json_len_bound [of "br_digest r"]
  by (simp add: record_len_def members_len_def str_json_len_def max_event_bytes_def max_record_bytes_def)

lemma decode_small_record:
  assumes "body_ok cr n x body" "small_record body" "valid_digest (snd x)"
  obtains r where "body = DRecord r" "decode_billing_record cr (Some body) n = Inr r" "ev_id (br_event r) = fst x"
    "br_digest r = snd x" "br_seq r = n"
proof -
  from assms(1,2) obtain r where r: "body = DRecord r" "br_seq r = n" "br_digest r = snd x"
      "ev_id (br_event r) = fst x" "billing_binding cr (br_event r) = Inr (bound_event (br_event r), snd x)"
    by (rule body_ok_binding)
  have "record_len r \<le> max_record_bytes"
    using assms(2,3) r by (intro small_record_len) (auto simp: small_record_def valid_digest_def)
  with r show thesis by (intro that) (auto simp: decode_billing_record_def)
qed

lemma migrating_legacy_slot:
  assumes mig: "migrating cr L pos d" and pos: "pos < meta_uint d ''legacy_through''"
  obtains body where "db_get d ''events'' (sequence_key (pos + 1)) = Some body"
    "body_ok cr (pos + 1) (entry L (pos + 1)) body" "valid_digest (snd (entry L (pos + 1)))"
    "db_get d ''ids'' (fst (entry L (pos + 1))) = Some (Raw (sequence_key (pos + 1)))"
    "fst (entry L (pos + 1)) \<noteq> []" "length (fst (entry L (pos + 1))) \<le> 4096"
proof -
  let ?n = "pos + 1" and ?D = "progressed pos d"
  have rep: "represents cr ?D L" and v: "version_of d = Some (Raw ''2-migrating'')"
    using mig by (simp_all add: migrating_def)
  have ver: "versioned ?D" using rep by (simp add: represents_def)
  then have meta: "db_has d ''meta''" and top: "meta_uint d ''legacy_through'' \<le> db_seq d ''events''"
    and fl: "archive_floor ?D = 0"
    using v by (auto simp: versioned_def)
  have un: "unat ?n = Suc (unat pos)" using pos by (rule u64_less_Suc)
  have n: "1 \<le> ?n" "pos < ?n" "?n \<le> meta_uint d ''legacy_through''" "0 < ?n"
    using un pos by (auto simp: word_le_nat_alt word_less_nat_alt)
  then have nh: "?n \<le> db_seq d ''events''" using top by simp
  have slot: "slot_ok cr ?D ?n (entry L ?n)" using rep n(1) nh by (simp add: represents_def)
  have leg: "legacy_seq ?D ?n" using v n meta by (simp add: legacy_seq_def)
  have "entry L ?n \<in> set L"
    using rep n(1) nh by (intro entry_in_set) (auto simp: represents_def word_le_nat_alt)
  then have dig: "valid_digest (snd (entry L ?n))" using rep by (auto simp: represents_def list_all_iff)
  have "archive_floor ?D < ?n" using fl n(4) by simp
  from slot this show thesis
  proof (cases rule: slot_live)
    case (legacy body)
    then obtain e where "ev_id e = fst (entry L ?n)" "bindable e" by (auto simp: body_ok_def)
    then have "fst (entry L ?n) \<noteq> []" "length (fst (entry L ?n)) \<le> 4096" using bindable_id by metis+
    with legacy dig show thesis by (intro that) auto
  qed (use leg in simp)
qed

lemma migrate_record_total:
  assumes mig: "migrating cr L pos (mt_db t)" and small: "small_records (mt_db t)"
    and pos: "pos < meta_uint (mt_db t) ''legacy_through''"
  shows "\<exists>t'. migrate_record cr (pos + 1) t = Inr t'"
proof -
  from mig pos obtain body where b: "db_get (mt_db t) ''events'' (sequence_key (pos + 1)) = Some body"
    "body_ok cr (pos + 1) (entry L (pos + 1)) body" "valid_digest (snd (entry L (pos + 1)))"
    "db_get (mt_db t) ''ids'' (fst (entry L (pos + 1))) = Some (Raw (sequence_key (pos + 1)))"
    "fst (entry L (pos + 1)) \<noteq> []" "length (fst (entry L (pos + 1))) \<le> 4096"
    by (rule migrating_legacy_slot)
  from b(2) small_recordsD(1) [OF small b(1)] b(3) obtain r where
    "body = DRecord r" "decode_billing_record cr (Some body) (pos + 1) = Inr r" "ev_id (br_event r) = fst (entry L (pos + 1))"
    by (rule decode_small_record)
  moreover have "db_has (mt_db t) ''ids''" "db_has (mt_db t) ''receipt_ids''" "db_has (mt_db t) ''receipt_times''"
    using mig by (auto simp: migrating_def represents_def versioned_def)
  ultimately show ?thesis
    using b by (simp add: migrate_record_def Let_def t_put_ok)
qed

lemma migrate_loop_total:
  assumes hex: "sha_hex cr" and ctx: "\<And>m. c m = None"
  shows "migrating cr L pos (mt_db t) \<Longrightarrow> small_records (mt_db t) \<Longrightarrow>
    \<exists>r. migrate_loop cr c (meta_uint (mt_db t) ''legacy_through'') k n pos t = Inr r"
proof (induction k arbitrary: n pos t)
  case (Suc k)
  let ?top = "meta_uint (mt_db t) ''legacy_through''"
  show ?case
  proof (cases "pos < ?top")
    case True
    from migrate_record_total [OF Suc.prems True] obtain u where u: "migrate_record cr (pos + 1) t = Inr u" by blast
    from u obtain r where r: "mt_db u =
        set_key ''receipt_ids'' (sequence_key (pos + 1)) (Raw (ev_id (br_event r)))
          (set_key ''receipt_times'' (sequence_key (pos + 1)) (Raw ''legacy'')
            (set_key ''ids'' (ev_id (br_event r))
               (DBinding \<lparr>rb_seq = pos + 1, rb_content = br_digest r, rb_record = sha cr (DRecord r)\<rparr>) (mt_db t)))"
      by (rule migrate_record_effect)
    have "small_records (mt_db u)" "meta_uint (mt_db u) ''legacy_through'' = ?top"
      using Suc.prems(2) by (simp_all add: r small_records_def)
    with Suc.IH [OF migrate_record_represents [OF Suc.prems(1) u True hex]] u ctx True show ?thesis by simp
  qed simp
qed simp

section \<open>Migration makes progress\<close>

definition migration_target :: "db \<Rightarrow> u64" where
  "migration_target d =
     (if version_of d = Some (Raw ''1'') then db_seq d ''events'' else meta_uint d ''legacy_through'')"

lemma create_buckets_ok: "\<forall>b \<in> set bs'. b \<noteq> [] \<Longrightarrow> \<exists>t'. for_state t_create bs' t = Inr t'"
proof (induction bs' arbitrary: t)
  case (Cons b bs')
  then show ?case by (simp add: t_create_def db_create_def)
qed simp

lemma migrate_start_ok:
  assumes "db_has (mt_db t) ''meta''"
  shows "\<exists>t'. migrate_start t = Inr t'"
proof -
  have "\<forall>b \<in> set v2_buckets. b \<noteq> []" by (simp add: v2_buckets_def)
  from create_buckets_ok [OF this] obtain u where u: "for_state t_create v2_buckets t = Inr u" by blast
  have "db_has (mt_db u) ''meta''" using create_buckets [OF u] assms by simp
  with u show ?thesis by (simp add: migrate_start_def t_put_ok)
qed

lemma migrate_loop_meta:
  "migrate_loop cr c target k n pos t = Inr (pos', t') \<Longrightarrow>
     (\<forall>key. meta_get (mt_db t') key = meta_get (mt_db t) key) \<and> (\<forall>b. db_has (mt_db t') b = db_has (mt_db t) b)"
proof (induction k arbitrary: n pos t)
  case (Suc k)
  show ?case
  proof (cases "pos < target")
    case True
    with Suc.prems obtain u where u: "migrate_record cr (pos + 1) t = Inr u"
        "migrate_loop cr c target k (n + 1) (pos + 1) u = Inr (pos', t')" by auto
    have "(\<forall>key. meta_get (mt_db u) key = meta_get (mt_db t) key) \<and> (\<forall>b. db_has (mt_db u) b = db_has (mt_db t) b)"
      using u(1) by (rule migrate_record_effect) simp
    with Suc.IH [OF u(2)] show ?thesis by simp
  qed (use Suc.prems in simp)
qed simp

lemma migrate_body_progress:
  assumes rep: "represents cr d L" and hex: "sha_hex cr" and small: "small_records d"
    and ctx: "\<And>m. c m = None" and fence: "as_text (meta_get d ''recovery_fence'') \<noteq> Some ''1''"
    and v: "version_of d \<noteq> Some (Raw ''2'')"
  obtains t where "migrate_body cr c now batch (begin_tx d) = Inr ((), t)"
    "unat (meta_uint (mt_db t) ''backfilled_through'') =
       min (unat (meta_uint d ''backfilled_through'') + batch) (unat (migration_target d))"
    "meta_uint (mt_db t) ''legacy_through'' = migration_target d"
    "version_of (mt_db t) =
       Some (Raw (if meta_uint (mt_db t) ''backfilled_through'' = migration_target d then ''2'' else ''2-migrating''))"
    "\<And>b. db_has d b \<Longrightarrow> db_has (mt_db t) b"
    "version_of d \<noteq> Some (Raw ''1'') \<or> db_has (mt_db t) ''mutation_journal''"
    "\<And>k. k \<notin> {''version'', ''legacy_through'', ''backfilled_through'', ''legacy_age_floor''} \<Longrightarrow>
       meta_get (mt_db t) k = meta_get d k"
proof -
  have ver: "versioned d" using rep by (simp add: represents_def)
  then have meta: "db_has d ''meta''" and cases: "version_of d = Some (Raw ''1'') \<or> version_of d = Some (Raw ''2-migrating'')"
    using v by (auto simp: versioned_def)
  obtain t0 where t0: "(if version_of d = Some (Raw ''1'') then migrate_start (begin_tx d) else Inr (begin_tx d)) = Inr t0"
    using migrate_start_ok [of "begin_tx d"] meta by (cases "version_of d = Some (Raw ''1'')") auto
  have start: "migrating cr L (meta_uint d ''backfilled_through'') (mt_db t0) \<and> small_records (mt_db t0)
      \<and> meta_uint (mt_db t0) ''legacy_through'' = migration_target d
      \<and> meta_uint (mt_db t0) ''backfilled_through'' = meta_uint d ''backfilled_through''
      \<and> (\<forall>b. db_has d b \<longrightarrow> db_has (mt_db t0) b)
      \<and> (version_of d \<noteq> Some (Raw ''1'') \<or> db_has (mt_db t0) ''mutation_journal'')
      \<and> (\<forall>k. k \<notin> {''version'', ''legacy_through''} \<longrightarrow> meta_get (mt_db t0) k = meta_get d k)"
  proof (cases "version_of d = Some (Raw ''1'')")
    case True
    with t0 have st: "migrate_start (begin_tx d) = Inr t0" by simp
    have bf: "meta_uint d ''backfilled_through'' = 0" using ver True by (simp add: versioned_def)
    have "small_records (mt_db t0)"
      using small by (simp add: small_records_def db_get_def migrate_start_effect(4) [OF st])
    with migrate_start_migrating [of cr "begin_tx d"] rep True st bf show ?thesis
      by (simp add: migrate_start_effect [OF st] migration_target_def v2_buckets_def)
  next
    case False
    with cases have m: "version_of d = Some (Raw ''2-migrating'')" by simp
    have "t0 = begin_tx d" using t0 False by simp
    moreover have "represents cr (progressed (meta_uint d ''backfilled_through'') d) L"
      using rep ledger_same_represents [OF progressed_same] by simp
    ultimately show ?thesis using m ver small False by (auto simp: migrating_def versioned_def migration_target_def)
  qed
  then obtain pos t1 where loop: "migrate_loop cr c (meta_uint (mt_db t0) ''legacy_through'') batch 0
      (meta_uint (mt_db t0) ''backfilled_through'') t0 = Inr (pos, t1)"
    using migrate_loop_total [where c = c and cr = cr, OF hex ctx] by (metis surj_pair)
  have mig0: "migrating cr L (meta_uint (mt_db t0) ''backfilled_through'') (mt_db t0)" using start by simp
  note final = migrate_loop_migrating [OF hex mig0 loop] and kept = migrate_loop_meta [OF loop]
  have has1: "db_has (mt_db t1) ''meta''" using kept start meta by simp
  define d2 where "d2 = set_key ''meta'' ''backfilled_through'' (Raw (sequence_key pos)) (mt_db t1)"
  have t2: "t_put ''meta'' ''backfilled_through'' (Raw (sequence_key pos)) t1 =
      Inr (t1\<lparr>mt_db := d2, mt_writes := mt_writes t1 @ [Mutation ''meta'' ''backfilled_through'' (Raw (sequence_key pos)) ''put'' 0]\<rparr>)"
    (is "_ = Inr ?t2") using has1 by (simp add: d2_def)
  have "db_has (mt_db ?t2) ''meta''" using has1 by (simp add: d2_def)
  then have "\<exists>t. t_puts [(''meta'', ''legacy_age_floor'', DTime (utc now)), (''meta'', ''version'', Raw ''2'')] ?t2 = Inr t"
    by (simp add: t_put_ok)
  then obtain t where t: "(if pos = meta_uint (mt_db t0) ''legacy_through''
      then t_puts [(''meta'', ''legacy_age_floor'', DTime (utc now)), (''meta'', ''version'', Raw ''2'')] ?t2
      else Inr ?t2) = Inr t"
    by (cases "pos = meta_uint (mt_db t0) ''legacy_through''") (auto simp del: t_puts.simps)
  have db: "mt_db t = (if pos = migration_target d
      then set_key ''meta'' ''version'' (Raw ''2'') (set_key ''meta'' ''legacy_age_floor'' (DTime (utc now)) d2) else d2)"
  proof -
    have "meta_uint (mt_db t0) ''legacy_through'' = migration_target d" using start by blast
    with t show ?thesis by (cases "pos = migration_target d") auto
  qed
  have body: "migrate_body cr c now batch (begin_tx d) = Inr ((), t)"
  proof -
    have "as_text (version_of d) = Some ''1'' \<longleftrightarrow> version_of d = Some (Raw ''1'')" "as_text (version_of d) \<noteq> Some ''2''"
      using cases by auto
    then show ?thesis
      using t0 loop t2 t fence ctx by (simp add: migrate_body_def Let_def del: t_calls_Inr t_puts.simps)
  qed
  have bfpos: "meta_uint (mt_db t) ''backfilled_through'' = pos" using has1 by (simp add: db d2_def)
  show thesis
  proof (rule that [OF body])
    show "unat (meta_uint (mt_db t) ''backfilled_through'') =
       min (unat (meta_uint d ''backfilled_through'') + batch) (unat (migration_target d))"
      unfolding bfpos using final start by simp
    show "meta_uint (mt_db t) ''legacy_through'' = migration_target d"
      using final start has1 by (simp add: db d2_def)
    show "version_of (mt_db t) =
       Some (Raw (if meta_uint (mt_db t) ''backfilled_through'' = migration_target d then ''2'' else ''2-migrating''))"
      unfolding bfpos using final has1 by (simp add: db d2_def migrating_def)
  qed (use start kept has1 in \<open>auto simp: db d2_def\<close>)
qed

end
