(* ===== verification/Backup.thy ===== *)
theory Backup
  imports Retirement
begin

text \<open>
  \<open>billing_backup.go\<close>, the transactions: the records of captures, the catalog of verified backup
  sets, the rehydration of retired payloads into a bounded cache, their eviction, and the
  status the worker reports.
\<close>

section \<open>Captures\<close>

definition captures :: "call \<Rightarrow> inbox \<Rightarrow> go_error + doc capture_status list" where
  "captures c ib =
     andThen (health c 0 0 ib) (\<lambda>_.
       if \<not> db_has (ib_db ib) ''captures'' then Inl ErrLifecycleConflict
       else
         andThen (for_state (\<lambda>kv (n, out).
             andThen (ctx_check (cl_ctx c) n) (\<lambda>_.
               case as_capture (Some (snd kv)) of
                 None \<Rightarrow> Inl ErrBillingUnavailable
               | Some st \<Rightarrow> Inr (n + 1, out @ [st])))
           (db_entries (ib_db ib) ''captures'') (1, [])) (\<lambda>(n, out). Inr out))"

definition save_body :: "doc capture_status \<Rightarrow> mtx \<Rightarrow> go_error + (unit \<times> mtx)" where
  "save_body st t =
     (if \<not> manifest_json_ok (cs_manifest st) then Inl (ErrMsg ''json: unsupported time'')
      else andThen (t_put ''captures'' (cs_set st) (DCapture st) t) (\<lambda>t. Inr ((), t)))"

definition save_capture :: "bolt_io \<Rightarrow> doc capture_status \<Rightarrow> inbox \<Rightarrow> (go_error + unit) \<times> inbox" where
  "save_capture io st ib = update_locked io (save_body st) ib"

text \<open>The transaction that seals a capture: its record and the new captured high-water mark.\<close>

definition seal_body :: "doc capture_status \<Rightarrow> u64 \<Rightarrow> mtx \<Rightarrow> go_error + (unit \<times> mtx)" where
  "seal_body st high t =
     andThen (t_puts [(''captures'', cs_set st, DCapture st),
                      (''meta'', ''captured_through'', Raw (sequence_key high))] t) (\<lambda>t. Inr ((), t))"

section \<open>The catalog\<close>

definition set_capture_status :: "bytes \<Rightarrow> doc capture_status \<Rightarrow> doc capture_status" where
  "set_capture_status s st =
     CaptureStatus (cs_set st) s (cs_manifest st) (cs_manifest_b64 st) (cs_error st)"

definition skew :: int where "skew = 30 * second"

definition verify_body ::
    "crypto \<Rightarrow> lifecycle_config \<Rightarrow> ctx \<Rightarrow> (nat \<Rightarrow> gtime) \<Rightarrow> bytes \<Rightarrow> doc signed_doc \<Rightarrow> mtx \<Rightarrow>
     go_error + (doc catalog_entry \<times> mtx)" where
  "verify_body cr cfg c now sid completion t =
     andThen (ctx_check c 0) (\<lambda>_.
       andThen (ready cfg (mt_db t)) (\<lambda>_.
         case as_capture (db_get (mt_db t) ''captures'' sid) of
           None \<Rightarrow> Inl ErrLifecycleConflict
         | Some st \<Rightarrow>
             if cs_status st \<noteq> ''uploaded'' \<and> cs_status st \<noteq> ''verified'' then Inl ErrLifecycleConflict
             else
               (case cs_manifest_b64 st of
                  NotB64 _ \<Rightarrow> Inl (ErrMsg ''illegal base64 data'')
                | B64 b \<Rightarrow>
                    (case verify_completion cr (lc_keys cfg) completion (cs_manifest st) b of
                       Inl _ \<Rightarrow> Inl ErrLifecycleConflict
                     | Inr proof \<Rightarrow>
                         if after (vp_verified_at proof) (add_ns (utc (now 0)) skew)
                            \<or> after (mf_created (cs_manifest st)) (add_ns (utc (now 1)) skew)
                         then Inl ErrLifecycleConflict
                         else
                           let ce = CatalogEntry ''verified'' (cs_manifest st) b completion
                           in case db_get (mt_db t) ''catalog'' sid of
                                Some existing \<Rightarrow>
                                  if as_catalog (Some existing) \<noteq> Some ce then Inl ErrLifecycleConflict
                                  else Inr (ce, t)
                              | None \<Rightarrow>
                                  andThen (t_puts
                                    [(''catalog'', sid, DCatalog ce),
                                     (''captures'', sid, DCapture (set_capture_status ''verified'' st))] t)
                                    (\<lambda>t. Inr (ce, t))))))"

text \<open>\<open>VerifyCatalog\<close>; \<open>publish\<close> is the outcome of writing, uploading and cleaning up after the commit.\<close>

definition verify_catalog ::
    "crypto \<Rightarrow> call \<Rightarrow> (doc catalog_entry \<Rightarrow> go_error + unit) \<Rightarrow> bytes \<Rightarrow> doc signed_doc \<Rightarrow> inbox \<Rightarrow>
     (go_error + doc catalog_entry) \<times> inbox" where
  "verify_catalog cr c publish sid completion ib =
     (case update_locked (cl_io c) (verify_body cr (ib_cfg ib) (cl_ctx c) (cl_now c) sid completion) ib of
        (Inl x, ib) \<Rightarrow> (Inl x, ib)
      | (Inr ce, ib) \<Rightarrow> (andThen (publish ce) (\<lambda>_. Inr ce), ib))"

section \<open>Rehydration\<close>

record export_record =
  ex_seq :: u64
  ex_content :: bytes
  ex_received :: gtime
  ex_record :: doc

definition validate_export_record :: "crypto \<Rightarrow> export_record \<Rightarrow> go_error + billing_record" where
  "validate_export_record cr e =
     (case decode_billing_record cr (Some (ex_record e)) (ex_seq e) of
        Inl _ \<Rightarrow> Inl ErrBillingUnavailable
      | Inr r \<Rightarrow>
          if ex_content e \<noteq> br_digest r \<or> is_zero (ex_received e) then Inl ErrBillingUnavailable else Inr r)"

definition cached_len :: "doc option \<Rightarrow> u64" where
  "cached_len x = (case x of None \<Rightarrow> 0 | Some body \<Rightarrow> of_nat (body_len body))"

text \<open>One record of \<open>Rehydrate\<close>: \<open>prev\<close> is the sequence of the record before it, \<open>bytes\<close> the cache budget in use.\<close>

definition rehydrate_record ::
    "crypto \<Rightarrow> lifecycle_config \<Rightarrow> ctx \<Rightarrow> manifest \<Rightarrow> u64 \<Rightarrow> export_record \<Rightarrow> nat \<times> u64 option \<times> u64 \<times> mtx \<Rightarrow>
     go_error + (nat \<times> u64 option \<times> u64 \<times> mtx)" where
  "rehydrate_record cr cfg c m fl e s =
     (case s of (i, prev, bytes, t) \<Rightarrow>
        andThen (ctx_check c i) (\<lambda>_.
          if ex_seq e < mf_from m \<or> ex_seq e > mf_through m \<or> ex_seq e > fl
             \<or> (case prev of None \<Rightarrow> False | Some p \<Rightarrow> ex_seq e \<noteq> p + 1)
          then Inl ErrLifecycleConflict
          else
            andThen (validate_export_record cr e) (\<lambda>r.
              if \<not> bound_receipt cr (mt_db t) r (ex_seq e) (Some (ex_record e)) then Inl ErrLifecycleConflict
              else
                (case receipt_time (mt_db t) (ex_seq e) of
                   Inl _ \<Rightarrow> Inl ErrLifecycleConflict
                 | Inr received \<Rightarrow>
                     if \<not> same_instant received (ex_received e) then Inl ErrLifecycleConflict
                     else
                       let key = sequence_key (ex_seq e);
                           old = cached_len (db_get (mt_db t) ''archive_cache'' key)
                       in if old > bytes then Inl ErrBillingUnavailable
                          else
                            let total = bytes - old + cached_len (Some (ex_record e))
                            in if total > of_int (lc_cache_max cfg) then Inl ErrLifecycleConflict
                               else andThen (t_put ''archive_cache'' key (ex_record e) t) (\<lambda>t.
                                      Inr (i + 1, Some (ex_seq e), total, t))))))"

definition rehydrate_body ::
    "crypto \<Rightarrow> lifecycle_config \<Rightarrow> ctx \<Rightarrow> bytes \<Rightarrow> export_record list \<Rightarrow> mtx \<Rightarrow> go_error + (unit \<times> mtx)" where
  "rehydrate_body cr cfg c sid records t =
     andThen (ready cfg (mt_db t)) (\<lambda>_.
       case as_catalog (db_get (mt_db t) ''catalog'' sid) of
         None \<Rightarrow> Inl ErrLifecycleConflict
       | Some ce \<Rightarrow>
           andThen (verify_completion cr (lc_keys cfg) (ce_completion ce) (ce_manifest ce) (ce_bytes ce)) (\<lambda>_.
             andThen (for_state
                 (rehydrate_record cr cfg c (ce_manifest ce) (meta_uint (mt_db t) ''archive_floor''))
                 records (0, None, meta_uint (mt_db t) ''cache_bytes'', t)) (\<lambda>(_, _, total, t).
               andThen (t_put ''meta'' ''cache_bytes'' (Raw (sequence_key total)) t) (\<lambda>t. Inr ((), t)))))"

definition rehydrate ::
    "crypto \<Rightarrow> call \<Rightarrow> bytes \<Rightarrow> export_record list \<Rightarrow> inbox \<Rightarrow> (go_error + unit) \<times> inbox" where
  "rehydrate cr c sid records ib =
     (if length records < 1 \<or> length records > 1000 then (Inl ErrLifecycleConflict, ib)
      else update_locked (cl_io c) (rehydrate_body cr (ib_cfg ib) (cl_ctx c) sid records) ib)"

section \<open>Eviction\<close>

text \<open>The loop of \<open>EvictCache\<close> over the entries in key order, at most a thousand.\<close>

fun evict_loop :: "ctx \<Rightarrow> u64 \<Rightarrow> (bytes \<times> doc) list \<Rightarrow> nat \<Rightarrow> u64 \<Rightarrow> mtx \<Rightarrow> go_error + (u64 \<times> mtx)" where
  "evict_loop c through [] n bytes t = Inr (bytes, t)"
| "evict_loop c through ((k, v) # kvs) n bytes t =
     (if \<not> (key_uint k \<le> through \<and> n < 1000) then Inr (bytes, t)
      else
        andThen (ctx_check c n) (\<lambda>_.
          andThen (t_del ''archive_cache'' k t) (\<lambda>t.
            if cached_len (Some v) > bytes then Inl ErrBillingUnavailable
            else evict_loop c through kvs (n + 1) (bytes - cached_len (Some v)) t)))"

definition evict_body :: "lifecycle_config \<Rightarrow> ctx \<Rightarrow> u64 \<Rightarrow> mtx \<Rightarrow> go_error + (unit \<times> mtx)" where
  "evict_body cfg c through t =
     andThen (ready cfg (mt_db t)) (\<lambda>_.
       andThen (evict_loop c through (db_entries (mt_db t) ''archive_cache'') 0
                  (meta_uint (mt_db t) ''cache_bytes'') t) (\<lambda>(total, t).
         andThen (t_put ''meta'' ''cache_bytes'' (Raw (sequence_key total)) t) (\<lambda>t. Inr ((), t))))"

definition evict_cache :: "call \<Rightarrow> u64 \<Rightarrow> inbox \<Rightarrow> (go_error + unit) \<times> inbox" where
  "evict_cache c through ib = update_locked (cl_io c) (evict_body (ib_cfg ib) (cl_ctx c) through) ib"

end
