(* ===== verification/ArchiveSample.thy ===== *)
theory ArchiveSample
  imports Backup Sample
begin

text \<open>
  A small backup set with its completion, and a database of the second format in which a
  planned retirement is ready to be applied: the concrete inputs of the lifecycle properties.
\<close>

definition toy_sha :: bytes where "toy_sha = replicate 64 (CHR ''0'')"
definition toy_key :: bytes where "toy_key = replicate 32 (CHR ''k'')"

lemma toy_sha_ok [simp]: "valid_sha toy_sha" "valid_digest toy_sha" "sha toy_crypto x = toy_sha" "toy_digest = toy_sha"
  by (simp_all add: toy_sha_def valid_sha_def hex_of_bytes_def valid_digest_def is_lower_hex_def list_all_length
      toy_crypto_def toy_digest_def)

definition toy_part :: "bytes \<Rightarrow> bytes \<Rightarrow> part" where
  "toy_part name kind = \<lparr>pt_name = name, pt_kind = kind, pt_ordinal = 1, pt_offset = 0, pt_plain = 8,
     pt_plain_sha = toy_sha, pt_cipher = 16, pt_cipher_sha = toy_sha\<rparr>"

definition toy_manifest :: manifest where
  "toy_manifest = \<lparr>mf_version = 1, mf_env = ''e'', mf_sources = [''e''], mf_stack = ''s'', mf_store = toy_store,
     mf_set = ''x'', mf_created = toy_time, mf_high = 1, mf_from = 1, mf_through = 1, mf_count = 1,
     mf_max_received = toy_time, mf_bindings = toy_sha, mf_snapshot_bytes = 8, mf_snapshot_sha = toy_sha,
     mf_key_id = ''k'', mf_recipients = [toy_sha],
     mf_parts = [toy_part ''p'' ''snapshot'', toy_part ''q'' ''events'']\<rparr>"

lemma toy_manifest_valid: "validate_manifest toy_manifest = Inr ()"
proof -
  have store: "length toy_store = 32" "hex_of_bytes 16 toy_store"
    by (simp_all add: toy_store_def hex_of_bytes_def is_lower_hex_def list_all_length)
  have safe: "safe_id ''e''" "safe_id ''s''" "safe_id ''x''" "safe_id ''k''" "safe_id ''p''" "safe_id ''q''"
    by (simp_all add: safe_id_def safe_char_def Let_def)
  have base: "path_base ''p'' = ''p''" "path_base ''q'' = ''q''" by (simp_all add: path_base_def)
  show ?thesis
    using store safe base toy_time_facts(1)
    by (simp add: validate_manifest_def toy_manifest_def toy_part_def bounds_defs part_scan_init_def part_ok_def
        part_next_def Let_def after_def)
qed

lemma text_json_len_replicate:
  "of_char c < (128 :: nat) \<Longrightarrow> text_json_len (replicate n c) = n * char_json_len c"
  by (induction n) (auto simp: text_json_len_ascii simp del: text_json_len.simps(2))

lemma toy_text_lens [simp]:
  "str_json_len toy_sha = 66" "str_json_len toy_store = 34" "str_json_len toy_key = 34"
  by (simp_all add: str_json_len_def toy_sha_def toy_store_def toy_key_def text_json_len_replicate
      char_json_len_def)

lemmas small_len_defs = members_len_def str_json_len_def text_json_len_ascii char_json_len_def
  quoted_uint_len_def quoted_int_len_def texts_len_def part_len_def Let_def dec_int_def

lemma small_decimals: "length (dec_nat 0) = 1" "length (dec_nat (Suc 0)) = 1" "length (dec_nat 1) = 1"
  "length (dec_nat 8) = 1" "length (dec_nat 16) = 2"
  by (simp_all add: dec_nat.simps)

lemma toy_manifest_small: "manifest_len toy_manifest \<le> max_manifest_bytes"
  using toy_text_lens toy_time_facts(4)
  by (simp add: manifest_len_def toy_manifest_def toy_part_def max_manifest_bytes_def small_decimals
      small_len_defs del: text_json_len.simps(2))

lemma toy_manifest_decodes: "decode_manifest (DManifest toy_manifest) = Inr toy_manifest"
  using toy_manifest_small toy_manifest_valid by (simp add: decode_manifest_def)

definition toy_payload :: verification_payload where
  "toy_payload = payload_for toy_crypto toy_manifest (DManifest toy_manifest) ''v'' ''p'' ''r'' toy_time"

definition toy_completion :: "doc signed_doc" where
  "toy_completion = SignedDoc ''v'' (B64 (DPayload toy_payload)) (B64 (Raw toy_key))"

lemma toy_payload_small: "payload_len toy_payload \<le> 16384"
  using toy_text_lens toy_time_facts(3,4)
  by (simp add: payload_len_def toy_payload_def payload_for_def toy_manifest_def small_decimals
      archive_version_def small_len_defs del: text_json_len.simps(2))

lemma toy_completion_verifies:
  "verify_completion toy_crypto [(''v'', toy_key)] toy_completion toy_manifest (DManifest toy_manifest) = Inr toy_payload"
proof -
  have fields: "vp_key toy_payload = ''v''" "vp_policy toy_payload = ''p''" "vp_release toy_payload = ''r''"
      "vp_verified_at toy_payload = toy_time"
    by (simp_all add: toy_payload_def payload_for_def toy_time_facts)
  have self: "payload_for toy_crypto toy_manifest (DManifest toy_manifest) ''v'' ''p'' ''r'' toy_time = toy_payload"
    by (simp add: toy_payload_def)
  show ?thesis
    using toy_manifest_decodes toy_payload_small fields self toy_time_facts(1)
    by (simp add: verify_completion_def toy_completion_def registered_key_def sig_bytes_def
        toy_crypto_def [unfolded toy_key_def] Let_def toy_key_def not_less)
qed

section \<open>A database with a planned retirement\<close>

definition toy_config :: lifecycle_config where
  "toy_config = no_lifecycle\<lparr>lc_env := ''e'', lc_sources := [''e''], lc_retire := True, lc_retention_days := 90,
     lc_cache_max := 1073741824, lc_keys := [(''v'', toy_key)]\<rparr>"

definition toy_plan :: retirement_plan where
  "toy_plan = \<lparr>rp_op = ''o'', rp_env = ''e'', rp_store = toy_store, rp_from = 1, rp_through = 1,
     rp_sha = toy_sha, rp_set = ''x''\<rparr>"

definition toy_binding :: receipt_binding where
  "toy_binding = \<lparr>rb_seq = 1, rb_content = toy_sha, rb_record = toy_sha\<rparr>"

definition toy_entries :: "(bytes \<times> (bytes \<times> doc) list) list" where
  "toy_entries =
     [(''archive_cache'', []), (''captures'', []),
      (''catalog'', [(''x'', DCatalog (CatalogEntry ''verified'' toy_manifest (DManifest toy_manifest) toy_completion))]),
      (''events'', [(sequence_key 1, one_body)]), (''ids'', [(''a'', DBinding toy_binding)]),
      (''meta'', [(''identity'', Raw toy_store), (''legacy_age_floor'', DTime toy_time),
                  (''version'', Raw ''2'')]),
      (''mutation_journal'', []), (''operations'', [(''o'', DStatus (status_for toy_plan))]),
      (''receipt_ids'', [(sequence_key 1, Raw ''a'')]), (''receipt_times'', [(sequence_key 1, DTime toy_time)])]"

definition planned_db :: db where
  "planned_db = map (\<lambda>(b, es). (b, \<lparr>bk_entries = es, bk_seq = (if b = ''events'' then 1 else 0)\<rparr>)) toy_entries"

definition planned_inbox :: inbox where
  "planned_inbox = (open_inbox planned_db)\<lparr>ib_cfg := toy_config\<rparr>"

definition late_call :: call where
  "late_call = toy_call\<lparr>cl_now := (\<lambda>_. GTime (738200 * day) 0)\<rparr>"

lemma planned_db_reads [simp]:
  "db_seq planned_db ''events'' = 1"
  "db_get planned_db ''events'' k = (if k = sequence_key 1 then Some one_body else None)"
  "db_get planned_db ''ids'' k = (if k = ''a'' then Some (DBinding toy_binding) else None)"
  "db_get planned_db ''receipt_ids'' k = (if k = sequence_key 1 then Some (Raw ''a'') else None)"
  "db_get planned_db ''receipt_times'' k = (if k = sequence_key 1 then Some (DTime toy_time) else None)"
  "db_get planned_db ''archive_cache'' k = None"
  "db_get planned_db ''operations'' k = (if k = ''o'' then Some (DStatus (status_for toy_plan)) else None)"
  "db_get planned_db ''catalog'' k =
     (if k = ''x'' then Some (DCatalog (CatalogEntry ''verified'' toy_manifest (DManifest toy_manifest) toy_completion))
      else None)"
  "meta_get planned_db ''version'' = Some (Raw ''2'')" "meta_get planned_db ''identity'' = Some (Raw toy_store)"
  "meta_get planned_db ''archive_floor'' = None" "meta_get planned_db ''recovery_fence'' = None"
  "meta_get planned_db ''legacy_through'' = None" "meta_get planned_db ''backfilled_through'' = None"
  "meta_get planned_db ''mutation_generation'' = None" "meta_get planned_db ''compaction_session'' = None"
  "meta_get planned_db ''cache_bytes'' = None" "meta_get planned_db ''legacy_age_floor'' = Some (DTime toy_time)"
  by (simp_all add: planned_db_def toy_entries_def db_defs)

lemma planned_db_has: "db_has planned_db b = (b \<in> fst ` set toy_entries)"
  by (simp add: planned_db_def toy_entries_def db_defs)

lemma one_body_ok: "body_ok toy_crypto 1 (''a'', toy_sha) one_body"
  using toy_event_bindable [of "''a''"] by (simp add: body_ok_def one_body_def toy_digest(1))

lemma one_body_decodes:
  "decode_billing_record toy_crypto (Some one_body) 1 = Inr \<lparr>br_seq = 1, br_digest = toy_sha, br_event = toy_event ''a''\<rparr>"
proof -
  have "record_len \<lparr>br_seq = 1, br_digest = toy_sha, br_event = toy_event ''a''\<rparr> \<le> max_record_bytes"
    using toy_event_small [of "''a''"]
    by (simp add: record_len_def members_len_def small_decimals max_record_bytes_def)
  then show ?thesis
    using toy_event_binding [of "''a''" toy_crypto]
    by (simp add: decode_billing_record_def one_body_def toy_digest(1))
qed

lemma planned_db_represents: "represents toy_crypto planned_db [(''a'', toy_sha)]"
proof -
  have "receipt_ok planned_db 1 (''a'', toy_sha) toy_binding"
    using toy_time_facts(1) by (simp add: receipt_ok_def toy_binding_def)
  then have slot: "slot_ok toy_crypto planned_db 1 (''a'', toy_sha)"
    using one_body_ok
    by (intro slot_liveI [where body = one_body and b = toy_binding]) (auto simp: legacy_seq_def toy_binding_def)
  have "n = 1" if "1 \<le> n \<and> n \<le> (1 :: u64)" for n using that by (simp add: antisym)
  with slot show ?thesis
    by (auto simp: represents_def versioned_def planned_db_has toy_entries_def entry_def)
qed

lemma planned_db_ready: "ready toy_config planned_db = Inr ()"
  by (simp add: ready_def toy_config_def)

lemma toy_coverage:
  "retirement_coverage toy_crypto toy_config (GTime (738200 * day) 0) planned_db ''x'' 1 1 = Inr ()"
proof -
  have "coverage_record toy_crypto (add_ns (utc (GTime (738200 * day) 0)) (- lc_retention_days toy_config * day))
      planned_db 1 = Inr ()"
    using one_body_decodes toy_event_bindable(3) [of "''a''"] toy_time_facts(1,3)
    by (simp add: coverage_record_def receipt_time_def planned_db_has toy_entries_def after_def add_ns_def
        utc_def toy_time_def toy_config_def day_def hour_def minute_def second_def bound_receipt_def toy_binding_def)
  moreover have "set (seq_range 1 1) = {1 :: u64}" by (auto simp: set_seq_range)
  ultimately show ?thesis
    using toy_completion_verifies
    by (simp add: retirement_coverage_def toy_config_def toy_manifest_def)
qed

definition toy_done :: retirement_status where
  "toy_done = seal_status toy_crypto ((status_for toy_plan)\<lparr>rs_status := ''completed'',
     rs_completed := GTime (738200 * day) 0, rs_retired := 1\<rparr>)"

lemma toy_apply:
  "\<exists>d. apply_retirement toy_crypto late_call (LocalAuthority (\<lambda>_. Inr ())) ''o'' planned_inbox =
         (Inr toy_done, planned_inbox\<lparr>ib_db := d\<rparr>)
       \<and> db_get d ''events'' (sequence_key 1) = None"
proof -
  let ?now = "\<lambda>_. GTime (738200 * day) 0" and ?st = "status_for toy_plan"
  have st: "rs_status ?st = ''pending''" "rs_from ?st = 1" "rs_through ?st = 1" "rs_set ?st = ''x''"
    by (simp_all add: status_for_def toy_plan_def)
  have range: "seq_range 1 1 = [1 :: u64]" by (simp add: seq_range_def)
  have has: "db_has planned_db ''events''" "db_has planned_db ''meta''" "db_has planned_db ''operations''"
    by (simp_all add: planned_db_has toy_entries_def)
  have "\<exists>t. apply_body toy_crypto toy_config background ?now ''o'' ?st (begin_tx planned_db) = Inr (toy_done, t)"
    using planned_db_ready toy_coverage st has range
    by (simp add: apply_body_def t_del_def db_del_def t_put_def db_put_def Let_def toy_done_def utc_def)
  then obtain t where t: "apply_body toy_crypto toy_config background ?now ''o'' ?st (begin_tx planned_db) = Inr (toy_done, t)"
    by blast
  note E = apply_body_effect [OF t]
  have "writable (mt_db t)" using has by (simp add: writable_def E)
  then obtain d where d: "finish_update (cl_io toy_call) t = Inr d" using finish_update_ok by blast
  have "retirement late_call 0 0 ''o'' planned_inbox = Inr ?st"
    by (simp add: retirement_def late_call_def planned_inbox_def health_Inr safe_id_def safe_char_def)
  then have "apply_retirement toy_crypto late_call (LocalAuthority (\<lambda>_. Inr ())) ''o'' planned_inbox =
         (Inr toy_done, planned_inbox\<lparr>ib_db := d\<rparr>)"
    using t d st by (simp add: apply_retirement_def late_call_def planned_inbox_def validate_authority_def
        update_locked_def run_update_def toy_config_def)
  moreover have "db_get d ''events'' (sequence_key 1) = None"
    using same_contentD(4) [OF finish_same_content [OF d], of "''events''"] st by (auto simp: E)
  ultimately show ?thesis by blast
qed

end
