(* ===== verification/ArchiveProperties.thy ===== *)
theory ArchiveProperties
  imports Attestation Usage ArchiveSample
begin

text \<open>
  The properties of the events and of the package \<open>billingarchive\<close>: redaction, the order of the
  keys, the shape of a valid manifest, signed statements, and the usage binding.
\<close>

section \<open>Events and keys\<close>

text \<open>C14: Redaction removes every secret and is idempotent. After \<open>RedactEvent\<close> neither the message nor
  any string at any depth of the fields contains a marker, every entry with a sensitive name
  holds the redaction text, the keys of the fields are unchanged, and a second redaction
  changes nothing.\<close>

theorem redaction_is_complete:
  "\<not> list_ex (contains (to_lower (ev_msg (redact_event e)))) text_markers
   \<and> secret_free_map (ev_fields (redact_event e))
   \<and> akeys (ev_fields (redact_event e)) = akeys (ev_fields e)
   \<and> redact_event (redact_event e) = redact_event e"
  by (simp add: redact_text_clean secret_free_redact redact_event_idem)

text \<open>The keys of the buckets are in the order of the sequences: \<open>sequenceKey\<close> is eight bytes,
  \<open>readUint\<close> reads it back, and the byte order in which the store walks a bucket is the numeric
  order of the 64-bit sequences.\<close>

theorem sequence_keys_are_ordered:
  "length (sequence_key a) = 8 \<and> read_uint (Some (Raw (sequence_key a))) = a
   \<and> (sequence_key a < sequence_key b) = (a < b)"
  by simp

section \<open>Manifests\<close>

text \<open>The offsets and ordinals a list of parts must carry to tile a file.\<close>

fun tiles :: "int \<Rightarrow> int \<Rightarrow> part list \<Rightarrow> bool" where
  "tiles off n [] = True"
| "tiles off n (p # ps) = (pt_offset p = off \<and> pt_ordinal p = n + 1 \<and> tiles (off + pt_plain p) (n + 1) ps)"

definition of_kind :: "bytes \<Rightarrow> part list \<Rightarrow> part list" where
  "of_kind k ps = filter (\<lambda>p. pt_kind p = k) ps"

lemma of_kind_simps [simp]:
  "of_kind k [] = []" "of_kind k (p # ps) = (if pt_kind p = k then p # of_kind k ps else of_kind k ps)"
  by (simp_all add: of_kind_def)

lemma scan_parts_tiles:
  "scan_parts s ps = Some s' \<Longrightarrow> ps_total s \<le> max_set_bytes \<Longrightarrow>
     tiles (ps_snapshot_off s) (ps_snapshot_ord s) (of_kind ''snapshot'' ps)
     \<and> tiles (ps_events_off s) (ps_events_ord s) (of_kind ''events'' ps)
     \<and> ps_snapshot_off s' = ps_snapshot_off s + (\<Sum>p \<leftarrow> of_kind ''snapshot'' ps. pt_plain p)
     \<and> ps_events_ord s' = ps_events_ord s + int (length (of_kind ''events'' ps))
     \<and> ps_total s' = ps_total s + (\<Sum>p \<leftarrow> ps. pt_plain p) \<and> ps_total s' \<le> max_set_bytes
     \<and> distinct (map pt_name ps) \<and> set (map pt_name ps) \<inter> set (ps_seen s) = {}
     \<and> list_all (\<lambda>p. pt_kind p = ''snapshot'' \<or> pt_kind p = ''events'') ps"
proof (induction s ps rule: scan_parts.induct)
  case (2 s p ps)
  then have ok: "part_ok s p" and rest: "scan_parts (part_next s p) ps = Some s'" by (auto split: if_splits)
  have "ps_total (part_next s p) \<le> max_set_bytes"
    using ok by (simp add: part_ok_def part_next_def Let_def)
  from "2.IH" [OF ok rest this] ok show ?case
    by (auto simp: part_ok_def part_next_def Let_def split: if_splits)
qed simp

text \<open>C12: The parts of a valid manifest tile its files. The snapshot parts carry consecutive ordinals
  and offsets and add up to the snapshot, the event parts likewise from offset zero and are
  present exactly when the manifest has records, no name repeats, every part is of one of the
  two kinds, and the whole set stays within 64 GiB.\<close>

theorem valid_manifest_tiles:
  assumes "validate_manifest m = Inr ()"
  shows "tiles 0 0 (of_kind ''snapshot'' (mf_parts m)) \<and> tiles 0 0 (of_kind ''events'' (mf_parts m))
    \<and> (\<Sum>p \<leftarrow> of_kind ''snapshot'' (mf_parts m). pt_plain p) = mf_snapshot_bytes m
    \<and> (\<Sum>p \<leftarrow> mf_parts m. pt_plain p) \<le> max_set_bytes
    \<and> (of_kind ''events'' (mf_parts m) = []) = (mf_count m = 0)
    \<and> distinct (map pt_name (mf_parts m))
    \<and> list_all (\<lambda>p. pt_kind p = ''snapshot'' \<or> pt_kind p = ''events'') (mf_parts m)"
proof -
  from assms obtain s where s: "scan_parts part_scan_init (mf_parts m) = Some s"
      "ps_snapshot_off s = mf_snapshot_bytes m" "mf_count m > 0 \<longrightarrow> ps_events_ord s \<noteq> 0"
      "mf_count m = 0 \<longrightarrow> ps_events_ord s = 0"
    by (auto simp: validate_manifest_def split: if_splits option.splits)
  have "(0 < mf_count m) = (mf_count m \<noteq> 0)" by (simp add: word_greater_zero_iff)
  with s(3,4) scan_parts_tiles [OF s(1)] s(2) show ?thesis
    by (auto simp: part_scan_init_def max_set_bytes_def)
qed

theorem valid_manifest_tiles_witness:
  "tiles 0 0 (of_kind ''snapshot'' (mf_parts toy_manifest)) \<and> mf_count toy_manifest \<noteq> 0"
  using valid_manifest_tiles [OF toy_manifest_valid] by (simp add: toy_manifest_def)

section \<open>Signed statements\<close>

text \<open>A completion that the verifier signs is accepted. With a key pair whose signatures verify,
  the completion signed over the payload of a decodable manifest verifies under the registered
  public key and returns that payload.\<close>

theorem completion_round_trip:
  assumes pair: "\<And>msg. ed_verify cr pub msg (ed_sign cr key msg)"
    and payload: "p = payload_for cr m mb kid policy release now"
    and manifest: "decode_manifest mb = Inr m" and size: "payload_len p \<le> 16384"
    and reg: "registered_key keys kid = pub" "length pub = 32"
    and signed: "sign_completion cr p key = Inr s"
  shows "verify_completion cr keys s m mb = Inr p"
proof -
  have s: "s = SignedDoc kid (B64 (DPayload p)) (B64 (Raw (ed_sign cr key (DSigned signature_domain (DPayload p)))))"
    and ok: "\<not> is_zero (vp_verified_at p)" "vp_policy p \<noteq> []" "vp_release p \<noteq> []"
    using signed payload by (auto simp: sign_completion_def payload_for_def split: if_splits)
  have "p = payload_for cr m mb kid (vp_policy p) (vp_release p) (vp_verified_at p)" "vp_key p = kid"
    by (simp_all add: payload payload_for_def)
  then show ?thesis
    using manifest size reg pair ok s by (simp add: verify_completion_def sig_bytes_def not_less)
qed

theorem completion_round_trip_witness:
  "\<exists>s. sign_completion (toy_crypto\<lparr>ed_verify := \<lambda>_ _ _. True\<rparr>) toy_payload (replicate 64 (CHR ''k'')) = Inr s
     \<and> verify_completion (toy_crypto\<lparr>ed_verify := \<lambda>_ _ _. True\<rparr>) [(''v'', toy_key)] s toy_manifest (DManifest toy_manifest)
         = Inr toy_payload"
proof -
  let ?cr = "toy_crypto\<lparr>ed_verify := \<lambda>_ _ _. True\<rparr>"
  have sha: "sha ?cr = sha toy_crypto" by (simp add: toy_crypto_def)
  have p: "toy_payload = payload_for ?cr toy_manifest (DManifest toy_manifest) ''v'' ''p'' ''r'' toy_time"
    by (simp add: toy_payload_def payload_for_def sha)
  have "\<exists>s. sign_completion ?cr toy_payload (replicate 64 (CHR ''k'')) = Inr s"
    using toy_time_facts
    by (simp add: sign_completion_def toy_payload_def payload_for_def safe_id_def safe_char_def toy_manifest_def)
  then obtain s where s: "sign_completion ?cr toy_payload (replicate 64 (CHR ''k'')) = Inr s" by blast
  have "verify_completion ?cr [(''v'', toy_key)] s toy_manifest (DManifest toy_manifest) = Inr toy_payload"
    by (rule completion_round_trip [where pub = toy_key, OF _ p toy_manifest_decodes toy_payload_small _ _ s])
       (simp_all add: registered_key_def toy_key_def)
  with s show ?thesis by blast
qed

text \<open>The three statements are separated by their signature domains. A key that has only ever
  signed backup completions, under an unforgeable signature scheme, makes neither a
  reconciliation range proof nor a recovery approval verify.\<close>

theorem completion_key_signs_nothing_else:
  assumes "unforgeable cr was_signed" "registered_key keys (sd_key s) = k"
    and "\<And>msg. was_signed k msg \<Longrightarrow> \<exists>b. msg = DSigned signature_domain b"
  shows "verify_range cr keys s \<noteq> Inr p \<and> verify_approval cr keys s now \<noteq> Inr q"
proof (intro conjI notI)
  assume "verify_range cr keys s = Inr p"
  from verify_range_sound [OF this] obtain sig where "ed_verify cr k (DSigned range_domain (DRange p)) sig"
    using assms(2) by auto
  then have "was_signed k (DSigned range_domain (DRange p))" using assms(1) unfolding unforgeable_def by blast
  with assms(3) show False using domains_distinct by fastforce
next
  assume "verify_approval cr keys s now = Inr q"
  from verify_approval_sound [OF this] obtain sig where "ed_verify cr k (DSigned recovery_domain (DApproval q)) sig"
    using assms(2) by auto
  then have "was_signed k (DSigned recovery_domain (DApproval q))" using assms(1) unfolding unforgeable_def by blast
  with assms(3) show False using domains_distinct by fastforce
qed

text \<open>A scheme in which every key signs completions only.\<close>

definition completions_only :: "bytes \<Rightarrow> doc \<Rightarrow> bool" where
  "completions_only k m = (case m of DSigned d b \<Rightarrow> d = signature_domain | _ \<Rightarrow> False)"

theorem completion_key_signs_nothing_else_witness:
  "\<forall>p q. verify_range (toy_crypto\<lparr>ed_verify := \<lambda>k m _. completions_only k m\<rparr>) [(''v'', toy_key)] toy_completion \<noteq> Inr p
   \<and> verify_approval (toy_crypto\<lparr>ed_verify := \<lambda>k m _. completions_only k m\<rparr>) [(''v'', toy_key)] toy_completion toy_time
       \<noteq> Inr q"
  by (intro allI, rule completion_key_signs_nothing_else [where was_signed = completions_only and k = toy_key])
     (auto simp: unforgeable_def completions_only_def registered_key_def toy_completion_def split: doc.splits)

section \<open>Usage\<close>

lemma measurements_irrelevant:
  "ue_measurements (trimmed_usage (e\<lparr>ue_measurements := ms\<rparr>)) = ms"
  "trimmed_usage (e\<lparr>ue_measurements := ms\<rparr>) = (trimmed_usage e)\<lparr>ue_measurements := ms\<rparr>"
  "archived_usage_id cr (e\<lparr>ue_measurements := ms\<rparr>) = archived_usage_id cr e"
  by (simp_all add: trimmed_usage_def archived_usage_id_def usage_hash_input_def)

text \<open>C13: The usage binding does not depend on the order in which a producer lists its measurements:
  the same measurements in any order give the same outcome, the same identifier and the same
  hash, errors included.\<close>

theorem usage_binding_ignores_order:
  assumes perm: "mset ms = mset ns"
  shows "canonical_usage_binding cr n digest (Inr (e\<lparr>ue_measurements := ms\<rparr>)) =
         canonical_usage_binding cr n digest (Inr (e\<lparr>ue_measurements := ns\<rparr>))"
proof -
  let ?f = "\<lambda>ms. let e1 = trimmed_usage (e\<lparr>ue_measurements := ms\<rparr>)
     in if ue_id e1 = [] then e1\<lparr>ue_id := archived_usage_id cr e1\<rparr> else e1"
  obtain e2 where e2: "\<And>ms. ?f ms = e2\<lparr>ue_measurements := ms\<rparr>"
  proof (cases "ue_id (trimmed_usage e) = []")
    case True
    then show thesis
      by (intro that [of "(trimmed_usage e)\<lparr>ue_id := archived_usage_id cr (trimmed_usage e)\<rparr>"])
         (simp add: measurements_irrelevant Let_def)
  next
    case False
    then show thesis by (intro that [of "trimmed_usage e"]) (simp add: measurements_irrelevant Let_def)
  qed
  have val: "validate_usage (?f ms) = validate_usage (?f ns)"
    unfolding e2 using perm by (rule validate_usage_mset)
  have stored: "stored_usage (?f ms) = stored_usage (?f ns)" if "validate_usage (?f ms) = Inr u" for u
  proof -
    have "distinct (map um_metric ms)" using validate_usage_distinct [OF that] unfolding e2 by simp
    then have "sort_key um_metric ms = sort_key um_metric ns" by (rule sort_key_mset [OF perm])
    then show ?thesis unfolding e2 by (simp add: stored_usage_def)
  qed
  show ?thesis
  proof (cases "validate_usage (?f ms)")
    case (Inl x)
    with val show ?thesis by (simp add: canonical_usage_binding_def Let_def)
  next
    case (Inr u)
    with val stored show ?thesis by (simp add: canonical_usage_binding_def Let_def)
  qed
qed

definition toy_measurement :: "bytes \<Rightarrow> bytes \<Rightarrow> usage_measurement" where
  "toy_measurement metric unit = \<lparr>um_metric = metric, um_unit = unit, um_quantity = 1, um_scale = 0\<rparr>"

definition toy_usage :: usage_event where
  "toy_usage = \<lparr>ue_id = [], ue_service = ''mqtt'', ue_cloud = ''c'', ue_time = toy_time, ue_start = toy_time,
     ue_end = add_ns toy_time hour, ue_epoch = ''1'', ue_seq = 1, ue_source = ''s'', ue_measurements = [],
     ue_dimensions = []\<rparr>"

theorem usage_binding_ignores_order_witness:
  "canonical_usage_binding toy_crypto 1 toy_sha
     (Inr (toy_usage\<lparr>ue_measurements := [toy_measurement ''publish_bytes'' ''bytes'', toy_measurement ''publish_count'' ''requests'']\<rparr>)) =
   canonical_usage_binding toy_crypto 1 toy_sha
     (Inr (toy_usage\<lparr>ue_measurements := [toy_measurement ''publish_count'' ''requests'', toy_measurement ''publish_bytes'' ''bytes'']\<rparr>))"
  by (rule usage_binding_ignores_order) simp

end
