(* ===== verification/LifecycleAudit.thy ===== *)
theory LifecycleAudit
  imports Backup
begin

text \<open>
  \<open>billing_audit.go\<close> and \<open>ValidateBillingSnapshot\<close> (billing_lifecycle.go): the complete check of a
  database that a snapshot, a compaction candidate or a restored copy must pass. The
  definitions follow the passes of \<open>auditLifecycleTx\<close> in their order.
\<close>

section \<open>The passes\<close>

definition audit_buckets :: "bytes list" where
  "audit_buckets = [''meta'', ''events'', ''ids'', ''receipt_times'', ''receipt_ids'', ''catalog'',
     ''archive_cache'', ''operations'', ''mutation_journal'', ''captures'']"

definition source_environment_allowed :: "bytes \<Rightarrow> bytes list \<Rightarrow> bool" where
  "source_environment_allowed env allowed = (env \<in> set allowed)"

definition audit_shape :: "db \<Rightarrow> bool" where
  "audit_shape d =
     (db_has d ''meta'' \<and> db_has d ''events'' \<and> as_text (version_of d) = Some ''2''
      \<and> list_all (db_has d) audit_buckets \<and> list_all (\<lambda>b. b \<in> set audit_buckets) (akeys d))"

definition audit_meta :: "db \<Rightarrow> bool" where
  "audit_meta d =
     (list_all (\<lambda>k. is_key8 (meta_get d k)) [''mutation_generation'', ''legacy_through'', ''backfilled_through'']
      \<and> meta_uint d ''mutation_generation'' \<noteq> 0
      \<and> list_all (\<lambda>k. meta_get d k = None \<or> is_key8 (meta_get d k)) [''archive_floor'', ''captured_through'', ''cache_bytes'']
      \<and> archive_floor d \<le> db_seq d ''events'' \<and> meta_uint d ''legacy_through'' \<le> db_seq d ''events''
      \<and> meta_uint d ''backfilled_through'' = meta_uint d ''legacy_through''
      \<and> as_time (meta_get d ''legacy_age_floor'') \<noteq> None)"

definition audit_id :: "db \<Rightarrow> bytes \<times> doc \<Rightarrow> bool" where
  "audit_id d kv =
     (case as_binding (Some (snd kv)) of
        None \<Rightarrow> False
      | Some b \<Rightarrow>
          fst kv \<noteq> [] \<and> length (fst kv) \<le> 4096 \<and> rb_seq b \<noteq> 0 \<and> rb_seq b \<le> db_seq d ''events''
          \<and> valid_digest (rb_content b) \<and> valid_digest (rb_record b)
          \<and> db_get d ''receipt_ids'' (sequence_key (rb_seq b)) = Some (Raw (fst kv)))"

definition audit_sequence_keys :: "db \<Rightarrow> bytes \<Rightarrow> bool" where
  "audit_sequence_keys d b =
     (list_all (\<lambda>(k, v). length k = 8 \<and> key_uint k \<noteq> 0 \<and> key_uint k \<le> db_seq d ''events'') (db_entries d b)
      \<and> of_nat (length (db_entries d b)) = db_seq d ''events'')"

definition audit_sequence :: "crypto \<Rightarrow> bytes list \<Rightarrow> db \<Rightarrow> u64 \<Rightarrow> go_error + unit" where
  "audit_sequence cr sources d n =
     (case db_get d ''receipt_ids'' (sequence_key n) of
        Some (Raw i) \<Rightarrow>
          (case as_binding (db_get d ''ids'' i) of
             None \<Rightarrow> Inl ErrBillingUnavailable
           | Some b \<Rightarrow>
               if rb_seq b \<noteq> n then Inl ErrBillingUnavailable
               else andThen (receipt_time d n) (\<lambda>_.
                 if \<not> archive_floor d < n then Inr ()
                 else
                   let body = db_get d ''events'' (sequence_key n)
                   in case decode_billing_record cr body n of
                        Inl _ \<Rightarrow> Inl ErrBillingUnavailable
                      | Inr r \<Rightarrow>
                          if ev_id (br_event r) \<noteq> i \<or> \<not> source_environment_allowed (ev_env (br_event r)) sources
                             \<or> rb_content b \<noteq> br_digest r \<or> rb_record b \<noteq> sha cr (the body)
                          then Inl ErrBillingUnavailable else Inr ()))
      | _ \<Rightarrow> Inl ErrBillingUnavailable)"

definition audit_events :: "db \<Rightarrow> bool" where
  "audit_events d =
     list_all (\<lambda>(k, v). length k = 8 \<and> archive_floor d < key_uint k \<and> key_uint k \<le> db_seq d ''events'')
       (db_entries d ''events'')"

definition audit_catalog_entry :: "crypto \<Rightarrow> (bytes \<times> bytes) list option \<Rightarrow> bytes \<Rightarrow> db \<Rightarrow> bytes \<times> doc \<Rightarrow> bool" where
  "audit_catalog_entry cr keys env d kv =
     (case as_catalog (Some (snd kv)) of
        None \<Rightarrow> False
      | Some ce \<Rightarrow>
          ce_status ce = ''verified'' \<and> mf_set (ce_manifest ce) = fst kv
          \<and> as_text (meta_get d ''identity'') = Some (mf_store (ce_manifest ce))
          \<and> mf_env (ce_manifest ce) = env \<and> validate_manifest (ce_manifest ce) = Inr ()
          \<and> decode_manifest (ce_bytes ce) = Inr (ce_manifest ce)
          \<and> (case keys of
               None \<Rightarrow> False
             | Some ks \<Rightarrow>
                 (case verify_completion cr ks (ce_completion ce) (ce_manifest ce) (ce_bytes ce) of
                    Inl _ \<Rightarrow> False | Inr _ \<Rightarrow> True)))"

definition catalog_ranges :: "db \<Rightarrow> (u64 \<times> u64) list" where
  "catalog_ranges d =
     concat (map (\<lambda>kv. case as_catalog (Some (snd kv)) of
         None \<Rightarrow> []
       | Some ce \<Rightarrow>
           if mf_count (ce_manifest ce) > 0 then [(mf_from (ce_manifest ce), mf_through (ce_manifest ce))] else [])
       (db_entries d ''catalog''))"

text \<open>How far the ranges, in the order of their starts, cover the sequences without a gap.\<close>

fun covered_through :: "u64 \<Rightarrow> (u64 \<times> u64) list \<Rightarrow> u64" where
  "covered_through cov [] = cov"
| "covered_through cov ((a, b) # rs) =
     (if a > cov + 1 then cov else covered_through (if b > cov then b else cov) rs)"

definition audit_cache_record :: "crypto \<Rightarrow> db \<Rightarrow> bytes \<times> doc \<Rightarrow> u64 \<Rightarrow> go_error + u64" where
  "audit_cache_record cr d kv bytes =
     (let n = key_uint (fst kv)
      in if length (fst kv) \<noteq> 8 \<or> n = 0 \<or> n > archive_floor d then Inl ErrBillingUnavailable
         else andThen (decode_billing_record cr (Some (snd kv)) n) (\<lambda>r.
           if \<not> bound_receipt cr d r n (Some (snd kv)) then Inl ErrBillingUnavailable
           else Inr (bytes + cached_len (Some (snd kv)))))"

definition audit_operation :: "crypto \<Rightarrow> bytes \<Rightarrow> db \<Rightarrow> bytes \<times> doc \<Rightarrow> bool" where
  "audit_operation cr env d kv =
     (case as_status (Some (snd kv)) of
        None \<Rightarrow> False
      | Some st \<Rightarrow>
          rs_op st = fst kv \<and> rs_env st = env \<and> as_text (meta_get d ''identity'') = Some (rs_store st)
          \<and> valid_digest (rs_sha st) \<and> rs_from st \<noteq> 0 \<and> rs_from st \<le> rs_through st
          \<and> rs_through st - rs_from st < 1000 \<and> rs_through st \<le> db_seq d ''events''
          \<and> (if rs_status st = ''pending'' then rs_receipt st = [] \<and> is_zero (rs_completed st)
             else if terminal st then
               rs_receipt (seal_status cr st) = rs_receipt st \<and> \<not> is_zero (rs_completed st)
               \<and> rs_retired st \<le> archive_floor d
               \<and> (rs_status st = ''completed'' \<longrightarrow> rs_retired st = rs_through st)
             else False))"

definition completed_ranges :: "db \<Rightarrow> (u64 \<times> u64) list" where
  "completed_ranges d =
     concat (map (\<lambda>kv. case as_status (Some (snd kv)) of
         None \<Rightarrow> []
       | Some st \<Rightarrow> if rs_status st = ''completed'' then [(rs_from st, rs_through st)] else [])
       (db_entries d ''operations''))"

text \<open>The completed operations, in order, must tile the sequences up to the floor.\<close>

fun decision_floor :: "u64 \<Rightarrow> (u64 \<times> u64) list \<Rightarrow> u64 option" where
  "decision_floor fl [] = Some fl"
| "decision_floor fl ((a, b) # rs) = (if a \<noteq> fl + 1 then None else decision_floor b rs)"

definition mutation_kinds :: "bytes list" where
  "mutation_kinds = [''put'', ''delete'', ''create'', ''sequence'']"

definition audit_journal_entry :: "db \<Rightarrow> bytes \<times> doc \<Rightarrow> bool" where
  "audit_journal_entry d kv =
     (length (fst kv) = 8 \<and> key_uint (fst kv) \<noteq> 0 \<and> key_uint (fst kv) \<le> meta_uint d ''mutation_generation''
      \<and> (case as_writes (Some (snd kv)) of
           None \<Rightarrow> False
         | Some ws \<Rightarrow>
             ws \<noteq> []
             \<and> list_all (\<lambda>w. mu_bucket w \<in> set audit_buckets \<and> mu_bucket w \<noteq> ''mutation_journal''
                           \<and> mu_kind w \<in> set mutation_kinds) ws))"

section \<open>The audit\<close>

text \<open>The \<open>i\<close>-th step of a loop after \<open>base\<close> earlier consultations of the context.\<close>

definition ctx_each :: "ctx \<Rightarrow> nat \<Rightarrow> ('a \<Rightarrow> go_error + unit) \<Rightarrow> 'a list \<Rightarrow> go_error + unit" where
  "ctx_each c base f xs = for_each (\<lambda>(i, x). andThen (ctx_check c (base + i)) (\<lambda>_. f x)) (enumerate 0 xs)"

definition need :: "bool \<Rightarrow> go_error + unit" where
  "need ok = guard ok ErrBillingUnavailable"

text \<open>\<open>auditLifecycleTx\<close>; \<open>sound\<close> is the verdict of bbolt's own \<open>tx.Check\<close>.\<close>

definition audit_lifecycle ::
    "crypto \<Rightarrow> ctx \<Rightarrow> nat \<Rightarrow> bool \<Rightarrow> bytes \<Rightarrow> bytes list \<Rightarrow> (bytes \<times> bytes) list option \<Rightarrow> db \<Rightarrow> go_error + unit" where
  "audit_lifecycle cr c base sound env sources keys d =
     (let ids = db_entries d ''ids''; seqs = seq_range 1 (db_seq d ''events''); cat = db_entries d ''catalog'';
          b1 = base + 1; b2 = b1 + length ids; b3 = b2 + length seqs
      in andThen (need (audit_shape d \<and> sound)) (\<lambda>_.
         andThen (ctx_check c base) (\<lambda>_.
         andThen (need (audit_meta d)) (\<lambda>_.
         andThen (ctx_each c b1 (\<lambda>kv. need (audit_id d kv)) ids) (\<lambda>_.
         andThen (need (of_nat (length ids) = db_seq d ''events'')) (\<lambda>_.
         andThen (need (audit_sequence_keys d ''receipt_times'' \<and> audit_sequence_keys d ''receipt_ids'')) (\<lambda>_.
         andThen (ctx_each c b2 (audit_sequence cr sources d) seqs) (\<lambda>_.
         andThen (need (audit_events d)) (\<lambda>_.
         andThen (ctx_each c b3 (\<lambda>kv. need (audit_catalog_entry cr keys env d kv)) cat) (\<lambda>_.
         andThen (need (archive_floor d \<le> covered_through 0 (sort_key fst (catalog_ranges d)))) (\<lambda>_.
         andThen (for_state (audit_cache_record cr d) (db_entries d ''archive_cache'') 0) (\<lambda>bytes.
         andThen (need (bytes = meta_uint d ''cache_bytes'')) (\<lambda>_.
         andThen (need (list_all (audit_operation cr env d) (db_entries d ''operations''))) (\<lambda>_.
         andThen (need (decision_floor 0 (sort_key fst (completed_ranges d)) = Some (archive_floor d))) (\<lambda>_.
         need (list_all (audit_journal_entry d) (db_entries d ''mutation_journal'')))))))))))))))))"

end
