(* ===== verification/Capture.thy ===== *)
theory Capture
  imports LifecycleAudit Usage
begin

text \<open>
  \<open>billing_backup.go\<close>, the capture of a backup set: the range it takes, the space it may use, the
  parts of the snapshot and of the export, the manifest, the sealing transaction, the upload,
  and the clean-up of the scratch directory. Compression, encryption and hashing of a part
  (\<open>EncodePart\<close>, zstd and age), the object store and the file system answer through the
  parameter \<open>capture_env\<close>.
\<close>

section \<open>Object names\<close>

definition pad :: "nat \<Rightarrow> bytes \<Rightarrow> bytes" where
  "pad n s = replicate (n - length s) (CHR ''0'') @ s"

text \<open>The calendar date of an instant, counted from 0001-01-01.\<close>

definition civil :: "int \<Rightarrow> int \<times> int \<times> int" where
  "civil days =
     (let z = days + 306; era = z div 146097; doe = z mod 146097;
          yoe = (doe - doe div 1460 + doe div 36524 - doe div 146096) div 365;
          doy = doe - (365 * yoe + yoe div 4 - yoe div 100);
          mp = (5 * doy + 2) div 153; d = doy - (153 * mp + 2) div 5 + 1;
          m = (if mp < 10 then mp + 3 else mp - 9)
      in (yoe + era * 400 + (if m \<le> 2 then 1 else 0), m, d))"

definition date_path :: "gtime \<Rightarrow> bytes" where
  "date_path t =
     (case civil (instant t div day) of
        (y, m, d) \<Rightarrow> pad 4 (dec_int y) @ ''/'' @ pad 2 (dec_int m) @ ''/'' @ pad 2 (dec_int d))"

definition set_prefix :: "bytes \<Rightarrow> manifest \<Rightarrow> bytes" where
  "set_prefix base m =
     base @ ''/'' @ mf_stack m @ ''/'' @ mf_store m @ ''/'' @ date_path (mf_created m) @ ''/'' @ mf_set m"

definition snapshot_prefix :: "manifest \<Rightarrow> bytes" where
  "snapshot_prefix m = set_prefix ''billing-inbox-snapshots'' m"

definition archive_part_key :: "manifest \<Rightarrow> part \<Rightarrow> bytes" where
  "archive_part_key m p =
     (if pt_kind p = ''events'' then set_prefix ''billing-raw'' m else snapshot_prefix m) @ ''/'' @ pt_name p"

section \<open>What the environment decides\<close>

text \<open>
  The random set id; the outcomes of making the directory, of the statements on the file
  system, of copying the snapshot (bytes and digest) and reopening it; the sealing of one part
  (plain digest, cipher bytes, cipher digest); the strict decoding of a usage event; the
  outcomes of the writes after that; the object store; the clean-up; the successive commits.
\<close>

record sealed_part =
  sp_plain_sha :: bytes
  sp_cipher :: int
  sp_cipher_sha :: bytes

record capture_env =
  ve_set :: bytes
  ve_mkdir :: "go_error + unit"
  ve_free :: "go_error + int"
  ve_used :: "go_error + int"
  ve_size :: int
  ve_leaf :: int
  ve_snapshot :: "go_error + (int \<times> bytes)"
  ve_reopen :: "go_error + unit"
  ve_seal_snapshot :: "int \<Rightarrow> int \<Rightarrow> int \<Rightarrow> go_error + sealed_part"
  ve_seal_events :: "int \<Rightarrow> int \<Rightarrow> export_record list \<Rightarrow> go_error + sealed_part"
  ve_usage :: "jval \<Rightarrow> go_error + usage_event"
  ve_publish :: "go_error + unit"
  ve_release :: "go_error + unit"
  ve_finish :: "go_error + unit"
  ve_store :: bool
  ve_put :: "bytes \<Rightarrow> int \<Rightarrow> bytes \<Rightarrow> go_error + unit"
  ve_clean :: "bytes \<Rightarrow> bool \<Rightarrow> nat \<Rightarrow> go_error + unit"
  ve_io :: "nat \<Rightarrow> bolt_io"

section \<open>The parts of the snapshot\<close>

text \<open>The offsets and lengths of \<open>for offset := 0; offset < n; offset += length\<close>. The configuration keeps
  the part size at a mebibyte or more.\<close>

function chunks :: "int \<Rightarrow> int \<Rightarrow> int \<Rightarrow> (int \<times> int) list" where
  "chunks sz n off =
     (if off < n \<and> 0 < sz
      then (off, min sz (n - off)) # chunks sz n (off + min sz (n - off)) else [])"
  by pat_completeness auto
termination by (relation "measure (\<lambda>(sz, n, off). nat (n - off))") auto

declare chunks.simps [simp del]

definition make_part :: "bytes \<Rightarrow> int \<Rightarrow> int \<Rightarrow> int \<Rightarrow> sealed_part \<Rightarrow> part" where
  "make_part kind ordinal off sz sp =
     \<lparr>pt_name = kind @ ''-'' @ pad 6 (dec_int ordinal) @ ''.zst.age'', pt_kind = kind, pt_ordinal = ordinal,
      pt_offset = off, pt_plain = sz, pt_plain_sha = sp_plain_sha sp, pt_cipher = sp_cipher sp,
      pt_cipher_sha = sp_cipher_sha sp\<rparr>"

definition seal_snapshot_part :: "capture_env \<Rightarrow> int \<times> int \<Rightarrow> part list \<Rightarrow> go_error + part list" where
  "seal_snapshot_part ev c ps =
     (let ordinal = int (length ps) + 1
      in andThen (ve_seal_snapshot ev ordinal (fst c) (snd c)) (\<lambda>sp.
           Inr (ps @ [make_part ''snapshot'' ordinal (fst c) (snd c) sp])))"

section \<open>The export\<close>

text \<open>The bytes of one line: the JSON of an \<open>ExportRecord\<close> and a newline.\<close>

definition line_len :: "export_record \<Rightarrow> nat" where
  "line_len e =
     members_len [(''sequence'', quoted_uint_len (ex_seq e)), (''content_sha256'', str_json_len (ex_content e)),
                  (''received_at'', 2 + time_text_len (ex_received e)), (''record'', body_len (ex_record e))] + 1"

definition buffer_len :: "export_record list \<Rightarrow> int" where
  "buffer_len es = (\<Sum>e \<leftarrow> es. int (line_len e))"

record export_scan =
  xs_parts :: "part list"
  xs_buffer :: "export_record list"
  xs_offset :: int
  xs_ordinal :: int
  xs_refs :: "record_binding list"
  xs_max :: gtime

definition flush :: "capture_env \<Rightarrow> export_scan \<Rightarrow> go_error + export_scan" where
  "flush ev s =
     (if xs_buffer s = [] then Inr s
      else
        let sz = buffer_len (xs_buffer s)
        in andThen (ve_seal_events ev (xs_ordinal s) (xs_offset s) (xs_buffer s)) (\<lambda>sp.
             Inr (s\<lparr>xs_parts := xs_parts s @ [make_part ''events'' (xs_ordinal s) (xs_offset s) sz sp],
                    xs_offset := xs_offset s + sz, xs_ordinal := xs_ordinal s + 1, xs_buffer := []\<rparr>)))"

definition export_line ::
    "crypto \<Rightarrow> lifecycle_config \<Rightarrow> capture_env \<Rightarrow> gtime \<Rightarrow> db \<Rightarrow> u64 \<Rightarrow> go_error + (export_record \<times> record_binding)" where
  "export_line cr cfg ev created d n =
     (let body = db_get d ''events'' (sequence_key n)
      in andThen (decode_billing_record cr body n) (\<lambda>r.
         if \<not> source_environment_allowed (ev_env (br_event r)) (lc_sources cfg) then Inl ErrLifecycleConflict
         else
           andThen (receipt_time d n) (\<lambda>received.
             if after received created then Inl ErrBillingUnavailable
             else
               let raw = (case aget (ev_fields (br_event r)) ''usage_event'' of None \<Rightarrow> JNull | Some v \<Rightarrow> v)
               in andThen (canonical_usage_binding cr n (br_digest r) (ve_usage ev raw)) (\<lambda>ref.
                    if \<not> time_json_ok received then Inl (ErrMsg ''json: unsupported time'')
                    else Inr (\<lparr>ex_seq = n, ex_content = br_digest r, ex_received = received, ex_record = the body\<rparr>, ref)))))"

definition add_line ::
    "lifecycle_config \<Rightarrow> capture_env \<Rightarrow> export_record \<times> record_binding \<Rightarrow> export_scan \<Rightarrow> go_error + export_scan" where
  "add_line cfg ev er s =
     (case er of (e, ref) \<Rightarrow>
        let s = s\<lparr>xs_refs := xs_refs s @ [ref],
                  xs_max := (if after (ex_received e) (xs_max s) then ex_received e else xs_max s)\<rparr>
        in if int (line_len e) > lc_part_bytes cfg then Inl (ErrMsg ''record exceeds configured part sz'')
           else
             andThen (if buffer_len (xs_buffer s) + int (line_len e) > lc_part_bytes cfg then flush ev s else Inr s)
               (\<lambda>s. Inr (s\<lparr>xs_buffer := xs_buffer s @ [e]\<rparr>)))"

definition export_step ::
    "crypto \<Rightarrow> lifecycle_config \<Rightarrow> ctx \<Rightarrow> nat \<Rightarrow> capture_env \<Rightarrow> gtime \<Rightarrow> db \<Rightarrow> nat \<times> u64 \<Rightarrow> export_scan \<Rightarrow>
     go_error + export_scan" where
  "export_step cr cfg c base ev created d x s =
     (case x of (i, n) \<Rightarrow>
        andThen (ctx_check c (base + i)) (\<lambda>_.
          andThen (export_line cr cfg ev created d n) (\<lambda>er. add_line cfg ev er s)))"

section \<open>The set\<close>

text \<open>The first sequence of the next set: after the last captured one and above the archive floor.\<close>

definition capture_from :: "db \<Rightarrow> u64" where
  "capture_from d =
     (let high = db_seq d ''events''; n = meta_uint d ''captured_through'' + 1; fl = meta_uint d ''archive_floor'';
          n = (if n \<le> fl then fl + 1 else n)
      in if n > high then 0 else n)"

definition two_gib :: int where "two_gib = 2147483648"
definition two_mib :: int where "two_mib = 2097152"

definition check_space :: "lifecycle_config \<Rightarrow> capture_env \<Rightarrow> nat \<Rightarrow> go_error + unit" where
  "check_space cfg ev cnt =
     andThen (ve_free ev) (\<lambda>free.
     andThen (ve_used ev) (\<lambda>used.
       let capacity = lc_scratch_capacity cfg; free = min free (capacity - used);
           sz = ve_size ev; reserve = max (capacity div 5) two_gib; part = lc_part_bytes cfg;
           raw = (if cnt > 0 then ve_leaf ev + int cnt * 512 else 0)
       in if cnt > nat (max_set_bytes div 512) then Inl (ErrMsg ''export receipt count exceeds bounded set'')
          else if sz > max_set_bytes \<or> raw > max_set_bytes - sz
          then Inl (ErrMsg ''snapshot and export exceed bounded set'')
          else
            let snapshot_parts = (sz + part - 1) div part;
                raw_parts = (if raw > 0
                             then (if part \<le> two_mib then int cnt
                                   else (raw + part - two_mib - 1) div (part - two_mib)) else 0)
            in if snapshot_parts + raw_parts > int max_parts
               then Inl (ErrMsg ''bounded part count requires larger part sz or smaller capture'')
               else if free < sz + (snapshot_parts + raw_parts) * max_cipher_part_bytes + reserve
               then Inl (ErrMsg ''insufficient independent scratch capacity'') else Inr ()))"

definition set_head :: "crypto \<Rightarrow> lifecycle_config \<Rightarrow> bytes \<Rightarrow> gtime \<Rightarrow> db \<Rightarrow> manifest" where
  "set_head cr cfg sid now d =
     (let high = db_seq d ''events''; from = capture_from d
      in \<lparr>mf_version = archive_version, mf_env = lc_env cfg, mf_sources = lc_sources cfg, mf_stack = lc_stack cfg,
          mf_store = text_or_empty (meta_get d ''identity''), mf_set = sid, mf_created = utc now, mf_high = high,
          mf_from = from, mf_through = (if from > 0 then high else 0),
          mf_count = (if from > 0 then high - from + 1 else 0), mf_max_received = zero_time, mf_bindings = [],
          mf_snapshot_bytes = 0, mf_snapshot_sha = [], mf_key_id = lc_key_id cfg,
          mf_recipients = map (\<lambda>r. sha cr (Raw r)) (lc_recipients cfg), mf_parts = []\<rparr>)"

definition export_all ::
    "crypto \<Rightarrow> lifecycle_config \<Rightarrow> ctx \<Rightarrow> nat \<Rightarrow> capture_env \<Rightarrow> manifest \<Rightarrow> part list \<Rightarrow> db \<Rightarrow> go_error + export_scan" where
  "export_all cr cfg c base ev m ps d =
     andThen (for_state (export_step cr cfg c base ev (mf_created m) d)
                (enumerate 0 (if mf_from m > 0 then seq_range (mf_from m) (mf_high m) else []))
                \<lparr>xs_parts = ps, xs_buffer = [], xs_offset = 0, xs_ordinal = 1, xs_refs = [], xs_max = zero_time\<rparr>)
       (flush ev)"

definition complete_set :: "crypto \<Rightarrow> manifest \<Rightarrow> int \<Rightarrow> bytes \<Rightarrow> export_scan \<Rightarrow> manifest" where
  "complete_set cr m n digest s =
     m\<lparr>mf_snapshot_bytes := n, mf_snapshot_sha := digest, mf_parts := xs_parts s,
       mf_max_received := xs_max s, mf_bindings := sha cr (DRefs (xs_refs s))\<rparr>"

text \<open>From the read transaction to the manifest bytes.\<close>

definition build_set ::
    "crypto \<Rightarrow> lifecycle_config \<Rightarrow> ctx \<Rightarrow> nat \<Rightarrow> capture_env \<Rightarrow> gtime \<Rightarrow> db \<Rightarrow> go_error + (manifest \<times> doc)" where
  "build_set cr cfg c base ev now d =
     andThen (ready cfg d) (\<lambda>_.
       let m = set_head cr cfg (ve_set ev) now d
       in andThen (check_space cfg ev (unat (mf_count m))) (\<lambda>_.
          andThen (ve_snapshot ev) (\<lambda>(n, digest).
          andThen (ve_reopen ev) (\<lambda>_.
          andThen (for_state (seal_snapshot_part ev) (chunks (lc_part_bytes cfg) n 0) []) (\<lambda>ps.
          andThen (export_all cr cfg c base ev m ps d) (\<lambda>s.
            let m = complete_set cr m n digest s
            in andThen (marshal_manifest m) (\<lambda>b. Inr (m, b))))))))"

section \<open>The life of a capture\<close>

definition seal_capture :: "bolt_io \<Rightarrow> doc capture_status \<Rightarrow> u64 \<Rightarrow> inbox \<Rightarrow> (go_error + unit) \<times> inbox" where
  "seal_capture io st high ib = update_locked io (seal_body st high) ib"

definition no_manifest :: manifest where
  "no_manifest = \<lparr>mf_version = 0, mf_env = [], mf_sources = [], mf_stack = [], mf_store = [], mf_set = [],
     mf_created = zero_time, mf_high = 0, mf_from = 0, mf_through = 0, mf_count = 0, mf_max_received = zero_time,
     mf_bindings = [], mf_snapshot_bytes = 0, mf_snapshot_sha = [], mf_key_id = [], mf_recipients = [], mf_parts = []\<rparr>"

definition upload_capture ::
    "crypto \<Rightarrow> capture_env \<Rightarrow> nat \<Rightarrow> doc capture_status \<Rightarrow> inbox \<Rightarrow> (go_error + doc capture_status) \<times> inbox" where
  "upload_capture cr ev k st ib =
     (if \<not> ve_store ev then (Inl (ErrMsg ''object storage writer not configured''), ib)
      else
        let m = cs_manifest st
        in case andThen (for_each (\<lambda>p. ve_put ev (archive_part_key m p) (pt_cipher p) (pt_cipher_sha p)) (mf_parts m)) (\<lambda>_.
                  case cs_manifest_b64 st of
                    NotB64 _ \<Rightarrow> Inl (ErrMsg ''illegal base64 data'')
                  | B64 b \<Rightarrow> ve_put ev (snapshot_prefix m @ ''/manifest.json'') (int (manifest_len m)) (sha cr b)) of
             Inl x \<Rightarrow> (Inl x, ib)
           | Inr _ \<Rightarrow>
               let st = CaptureStatus (cs_set st) ''uploaded'' m (cs_manifest_b64 st) []
               in (case save_capture (ve_io ev k) st ib of
                     (Inl x, ib) \<Rightarrow> (Inl x, ib)
                   | (Inr _, ib) \<Rightarrow> (Inr st, ib)))"

definition abandon :: "doc capture_status \<Rightarrow> doc capture_status" where
  "abandon st = CaptureStatus (cs_set st) ''abandoned'' (cs_manifest st) (cs_manifest_b64 st) ''interrupted before immutable seal''"

text \<open>One capture that \<open>Capture\<close> finds stored: \<open>Inl\<close> ends the call with a result, \<open>Inr\<close> goes on with the next
  one; \<open>k\<close> counts the commits.\<close>

definition settle_one ::
    "crypto \<Rightarrow> capture_env \<Rightarrow> doc capture_status \<Rightarrow> nat \<times> inbox \<Rightarrow>
     (go_error + doc capture_status) option \<times> nat \<times> inbox" where
  "settle_one cr ev p s =
     (case s of (k, ib) \<Rightarrow>
        if cs_status p = ''uploaded'' then (Some (Inr p), k, ib)
        else if cs_status p = ''sealed'' then
          (case upload_capture cr ev k p ib of (r, ib) \<Rightarrow> (Some r, k + 1, ib))
        else if cs_status p = ''capturing'' then
          (case save_capture (ve_io ev k) (abandon p) ib of
             (Inl x, ib) \<Rightarrow> (Some (Inl x), k + 1, ib)
           | (Inr _, ib) \<Rightarrow>
               (case andThen (ve_clean ev (cs_set p) True 0) (\<lambda>_. ve_clean ev (cs_set p) True 1) of
                  Inl x \<Rightarrow> (Some (Inl x), k + 1, ib)
                | Inr _ \<Rightarrow> (None, k + 1, ib)))
        else if cs_status p = ''abandoned'' then
          (case ve_clean ev (cs_set p) True 0 of Inl x \<Rightarrow> (Some (Inl x), k, ib) | Inr _ \<Rightarrow> (None, k, ib))
        else if cs_status p = ''verified'' then
          (case ve_clean ev (cs_set p) False 0 of Inl x \<Rightarrow> (Some (Inl x), k, ib) | Inr _ \<Rightarrow> (None, k, ib))
        else (None, k, ib))"

fun settle ::
    "crypto \<Rightarrow> capture_env \<Rightarrow> doc capture_status list \<Rightarrow> nat \<times> inbox \<Rightarrow>
     (go_error + doc capture_status) option \<times> nat \<times> inbox" where
  "settle cr ev [] s = (None, s)"
| "settle cr ev (p # ps) s =
     (case settle_one cr ev p s of
        (Some r, s) \<Rightarrow> (Some r, s)
      | (None, s) \<Rightarrow> settle cr ev ps s)"

definition fresh_capture ::
    "crypto \<Rightarrow> call \<Rightarrow> nat \<Rightarrow> capture_env \<Rightarrow> nat \<times> inbox \<Rightarrow> (go_error + doc capture_status) \<times> inbox" where
  "fresh_capture cr c base ev s =
     (case s of (k, ib) \<Rightarrow>
        let cfg = ib_cfg ib; st = CaptureStatus (ve_set ev) ''capturing'' no_manifest (B64 (Raw [])) []
        in if lc_env cfg = [] then (Inl ErrLifecycleConflict, ib)
           else case ve_mkdir ev of
             Inl x \<Rightarrow> (Inl x, ib)
           | Inr _ \<Rightarrow>
               (case save_capture (ve_io ev k) st ib of
                  (Inl x, ib) \<Rightarrow> (Inl x, ib)
                | (Inr _, ib) \<Rightarrow>
                    (case andThen (build_set cr cfg (cl_ctx c) base ev (cl_now c 0) (ib_db ib)) (\<lambda>mb.
                            andThen (ve_publish ev) (\<lambda>_. andThen (ve_release ev) (\<lambda>_. Inr mb))) of
                       Inl x \<Rightarrow> (Inl x, ib)
                     | Inr (m, b) \<Rightarrow>
                         let st = CaptureStatus (ve_set ev) ''sealed'' m (B64 b) []
                         in (case seal_capture (ve_io ev (k + 1)) st (mf_high m) ib of
                               (Inl x, ib) \<Rightarrow> (Inl x, ib)
                             | (Inr _, ib) \<Rightarrow>
                                 (case ve_finish ev of
                                    Inl x \<Rightarrow> (Inl x, ib)
                                  | Inr _ \<Rightarrow> upload_capture cr ev (k + 2) st ib)))))"

definition capture ::
    "crypto \<Rightarrow> call \<Rightarrow> capture_env \<Rightarrow> inbox \<Rightarrow> (go_error + doc capture_status) \<times> inbox" where
  "capture cr c ev ib =
     (if \<not> lc_backup (ib_cfg ib) then (Inl ErrLifecycleConflict, ib)
      else case captures c ib of
             Inl x \<Rightarrow> (Inl x, ib)
           | Inr sts \<Rightarrow>
               (case settle cr ev sts (0, ib) of
                  (Some r, _, ib) \<Rightarrow> (r, ib)
                | (None, s) \<Rightarrow> fresh_capture cr c (1 + length sts) ev s))"

end
