(* ===== verification/Recovery.thy ===== *)
theory Recovery
  imports LifecycleAudit Attestation
begin

text \<open>
  Opening and recovering an inbox: the active-generation manifest (\<open>billing_compaction.go\<close>),
  \<open>OpenBillingInbox\<close> (billing_inbox.go), the durable recovery fence of \<open>billing_recovery.go\<close>, its
  admission by an independent approval, and the offline staging of a snapshot.
\<close>

section \<open>The active manifest\<close>

text \<open>
  \<open>loadActiveManifest\<close>: \<open>anchor\<close> is the base name of the logical path; the file is absent, or its
  contents with the verdict of the \<open>Lstat\<close> (a private regular file of at most 16 KiB).
\<close>

definition generation_file :: "bytes \<Rightarrow> bytes \<Rightarrow> bytes" where
  "generation_file anchor generation = anchor @ ''.gen-'' @ generation @ ''.db''"

definition load_active :: "bytes \<Rightarrow> (bool \<times> doc) option \<Rightarrow> go_error + active_manifest option" where
  "load_active anchor stored =
     (case stored of
        None \<Rightarrow> Inr None
      | Some (private, body) \<Rightarrow>
          if \<not> private then Inl ErrBillingUnavailable
          else (case body of
                  DActive m \<Rightarrow>
                    if am_version m \<noteq> 1 \<or> length (am_store m) \<noteq> 32 \<or> \<not> safe_id (am_generation m)
                       \<or> am_file m \<noteq> path_base (am_file m)
                    then Inl ErrBillingUnavailable
                    else if am_file m \<noteq> anchor \<and> am_file m \<noteq> generation_file anchor (am_generation m)
                    then Inl ErrBillingUnavailable
                    else Inr (Some m)
                | _ \<Rightarrow> Inl ErrBillingUnavailable))"

definition validate_active :: "active_manifest \<Rightarrow> db \<Rightarrow> go_error + unit" where
  "validate_active m d =
     (if as_text (meta_get d ''identity'') \<noteq> Some (am_store m)
         \<or> meta_uint d ''mutation_generation'' < am_cutover m
      then Inl ErrBillingUnavailable
      else
        let g = text_or_empty (meta_get d ''storage_generation'')
        in if g \<noteq> [] then guard (g = am_generation m) ErrBillingUnavailable
           else guard (am_generation m = ''initial'') ErrBillingUnavailable)"

section \<open>Opening\<close>

text \<open>
  What the file system answers: whether the path is absolute and its directory resolves, whether
  that directory is private, the manifest beside the anchor, the database file at the selected
  path (absent, or present with the verdict of its \<open>Lstat\<close>), the lock, the checks after the
  transaction, and sixteen random bytes as hexadecimal text.
\<close>

record open_env =
  oe_resolves :: bool
  oe_dir_private :: bool
  oe_anchor :: bytes
  oe_manifest :: "(bool \<times> doc) option"
  oe_file_private :: bool
  oe_lock :: bool
  oe_settled :: bool
  oe_identity :: bytes

definition open_check :: "open_env \<Rightarrow> active_manifest option \<Rightarrow> db \<Rightarrow> go_error + unit" where
  "open_check ev active d =
     (if \<not> db_has d ''meta'' \<or> \<not> db_has d ''events'' \<or> \<not> db_has d ''ids'' then Inl ErrBillingUnavailable
      else if (case meta_get d ''identity'' of Some (Raw s) \<Rightarrow> length s \<noteq> 32 | _ \<Rightarrow> True)
              \<or> as_text (meta_get d ''version'') \<notin> Some ` {''1'', ''2-migrating'', ''2''}
      then Inl ErrBillingUnavailable
      else if as_text (meta_get d ''manifest_required'') = Some ''1'' \<and> active = None
      then Inl ErrBillingUnavailable
      else (case active of None \<Rightarrow> Inr () | Some m \<Rightarrow> validate_active m d))"

definition create_db :: "bytes \<Rightarrow> db" where
  "create_db identity =
     set_key ''meta'' ''version'' (Raw ''1'')
       (set_key ''meta'' ''identity'' (Raw identity)
         (add_bucket ''ids'' (add_bucket ''events'' (add_bucket ''meta'' []))))"

definition drop_session_body :: "mtx \<Rightarrow> go_error + (unit \<times> mtx)" where
  "drop_session_body t =
     (if meta_get (mt_db t) ''compaction_session'' = None then Inr ((), t)
      else andThen (t_del ''meta'' ''compaction_session'' t) (\<lambda>t. Inr ((), t)))"

text \<open>\<open>OpenBillingInbox\<close> on the database stored at the selected path; every failure is \<open>ErrBillingUnavailable\<close>.\<close>

definition open_billing_inbox ::
    "open_env \<Rightarrow> bolt_io \<Rightarrow> bool \<Rightarrow> db option \<Rightarrow> (go_error + inbox) \<times> db option" where
  "open_billing_inbox ev io init stored =
     (let failed = (Inl ErrBillingUnavailable, stored)
      in if \<not> oe_resolves ev then failed
         else case load_active (oe_anchor ev) (oe_manifest ev) of
           Inl _ \<Rightarrow> failed
         | Inr active \<Rightarrow>
             let init = (init \<and> active = None)
             in if \<not> oe_dir_private ev \<or> (stored = None \<and> \<not> init)
                   \<or> (stored \<noteq> None \<and> \<not> oe_file_private ev) \<or> \<not> oe_lock ev
                then failed
                else
                  case (case stored of
                          None \<Rightarrow> Inr (create_db (oe_identity ev))
                        | Some d \<Rightarrow> andThen (open_check ev active d) (\<lambda>_. Inr d)) of
                    Inl _ \<Rightarrow> failed
                  | Inr d \<Rightarrow>
                      if \<not> oe_settled ev then (Inl ErrBillingUnavailable, Some d)
                      else
                        let ib = \<lparr>ib_db = d, ib_failed = False, ib_closed = False,
                              ib_recovering = (as_text (meta_get d ''recovery_fence'') = Some ''1''),
                              ib_cfg = no_lifecycle\<rparr>
                        in (case update_locked io drop_session_body ib of
                              (Inl _, ib) \<Rightarrow> (Inl ErrBillingUnavailable, Some (ib_db ib))
                            | (Inr _, ib) \<Rightarrow> (Inr ib, Some (ib_db ib))))"

section \<open>The recovery fence\<close>

record recovery_state =
  rv_env :: bytes
  rv_store :: bytes
  rv_high :: u64
  rv_floor :: u64
  rv_history :: bytes
  rv_dependency :: bytes
  rv_fenced :: bool

text \<open>Which stored values are JSON texts.\<close>

definition json_doc :: "doc \<Rightarrow> bool" where
  "json_doc x =
     (case x of
        Raw s \<Rightarrow> s \<noteq> [] \<and> number_ok s
      | DTime _ \<Rightarrow> False | DSigned _ _ \<Rightarrow> False | DJoin _ \<Rightarrow> False
      | _ \<Rightarrow> True)"

definition hash_bucket :: "crypto \<Rightarrow> db \<Rightarrow> bytes \<Rightarrow> go_error + bytes" where
  "hash_bucket cr d b =
     (if list_all (\<lambda>kv. json_doc (snd kv)) (db_entries d b)
      then Inr (sha cr (DArray (map snd (db_entries d b)))) else Inl ErrBillingUnavailable)"

definition recovery_state_of :: "crypto \<Rightarrow> bytes \<Rightarrow> db \<Rightarrow> go_error + recovery_state" where
  "recovery_state_of cr env d =
     (if \<not> db_has d ''meta'' \<or> \<not> db_has d ''events'' then Inl ErrPanic
      else
        andThen (hash_bucket cr d ''operations'') (\<lambda>history.
          andThen (hash_bucket cr d ''catalog'') (\<lambda>dependency.
            Inr \<lparr>rv_env = env, rv_store = text_or_empty (meta_get d ''identity''), rv_high = db_seq d ''events'',
                 rv_floor = meta_uint d ''archive_floor'', rv_history = history, rv_dependency = dependency,
                 rv_fenced = (as_text (meta_get d ''recovery_fence'') = Some ''1'')\<rparr>)))"

definition fence_body :: "ctx \<Rightarrow> mtx \<Rightarrow> go_error + (unit \<times> mtx)" where
  "fence_body c t =
     andThen (ctx_check c 0) (\<lambda>_.
       andThen (t_put ''meta'' ''recovery_fence'' (Raw ''1'') t) (\<lambda>t. Inr ((), t)))"

text \<open>\<open>SetRecoveryMode\<close>: the flag is raised inside the transaction, so it stays when the commit fails.\<close>

definition set_recovery_mode :: "call \<Rightarrow> inbox \<Rightarrow> (go_error + unit) \<times> inbox" where
  "set_recovery_mode c ib =
     (if ib_closed ib \<or> ib_failed ib then (Inl ErrBillingUnavailable, ib)
      else case fence_body (cl_ctx c) (begin_tx (ib_db ib)) of
             Inl x \<Rightarrow> (Inl x, ib)
           | Inr _ \<Rightarrow> update_locked (cl_io c) (fence_body (cl_ctx c)) (ib\<lparr>ib_recovering := True\<rparr>))"

definition view_recovery :: "crypto \<Rightarrow> call \<Rightarrow> inbox \<Rightarrow> go_error + recovery_state" where
  "view_recovery cr c ib =
     andThen (ctx_check (cl_ctx c) 0) (\<lambda>_.
       if ib_failed ib \<or> ib_closed ib then Inl ErrBillingUnavailable
       else recovery_state_of cr (lc_env (ib_cfg ib)) (ib_db ib))"

definition approval_matches :: "recovery_approval \<Rightarrow> recovery_state \<Rightarrow> bool" where
  "approval_matches p st =
     (rv_fenced st \<and> ra_env p = rv_env st \<and> ra_store p = rv_store st \<and> ra_high p = rv_high st
      \<and> ra_floor p = rv_floor st \<and> ra_history p = rv_history st \<and> ra_dependency p = rv_dependency st)"

definition admit_body ::
    "crypto \<Rightarrow> lifecycle_config \<Rightarrow> ctx \<Rightarrow> recovery_approval \<Rightarrow> doc signed_doc \<Rightarrow> mtx \<Rightarrow>
     go_error + (recovery_state \<times> mtx)" where
  "admit_body cr cfg c p approval t =
     andThen (ctx_check c 0) (\<lambda>_.
       andThen (recovery_state_of cr (lc_env cfg) (mt_db t)) (\<lambda>st.
         if \<not> approval_matches p st then Inl ErrLifecycleConflict
         else
           andThen (t_put ''meta'' ''recovery_admission'' (DSignedApproval approval) t) (\<lambda>t.
             andThen (t_del ''meta'' ''recovery_fence'' t) (\<lambda>t. Inr (st\<lparr>rv_fenced := False\<rparr>, t)))))"

definition admit_recovery ::
    "crypto \<Rightarrow> call \<Rightarrow> doc signed_doc \<Rightarrow> inbox \<Rightarrow> (go_error + recovery_state) \<times> inbox" where
  "admit_recovery cr c approval ib =
     (case verify_approval cr (lc_recovery_keys (ib_cfg ib)) approval (utc (cl_now c 0)) of
        Inl _ \<Rightarrow> (Inl ErrLifecycleConflict, ib)
      | Inr p \<Rightarrow>
          (case update_locked (cl_io c) (admit_body cr (ib_cfg ib) (cl_ctx c) p approval) ib of
             (Inl x, ib) \<Rightarrow> (Inl x, ib)
           | (Inr st, ib) \<Rightarrow> (Inr st, ib\<lparr>ib_recovering := False\<rparr>)))"

section \<open>Snapshots\<close>

text \<open>What \<open>ValidateBillingSnapshot\<close> sees of the file: its \<open>Lstat\<close>, its size and digest, the outcome of
  the copy through the hash (which consults the context \<open>sf_writes\<close> times), and bbolt's own check.\<close>

record snapshot_file =
  sf_private :: bool
  sf_bytes :: int
  sf_sha :: bytes
  sf_copied :: bool
  sf_writes :: nat
  sf_sound :: bool
  sf_db :: "go_error + db"

definition validate_live :: "crypto \<Rightarrow> db \<Rightarrow> u64 \<Rightarrow> go_error + unit" where
  "validate_live cr d n =
     (let body = db_get d ''events'' (sequence_key n)
      in andThen (decode_billing_record cr body n) (\<lambda>r.
           if \<not> bound_receipt cr d r n body then Inl ErrBillingUnavailable
           else andThen (receipt_time d n) (\<lambda>_. Inr ())))"

definition validate_snapshot ::
    "crypto \<Rightarrow> ctx \<Rightarrow> snapshot_file \<Rightarrow> manifest \<Rightarrow> (bytes \<times> bytes) list option \<Rightarrow> go_error + unit" where
  "validate_snapshot cr c f m keys =
     (if validate_manifest m \<noteq> Inr () then Inl ErrBillingUnavailable
      else if \<not> sf_private f \<or> sf_bytes f \<noteq> mf_snapshot_bytes m then Inl ErrBillingUnavailable
      else if \<not> sf_copied f \<or> sf_sha f \<noteq> mf_snapshot_sha m then Inl ErrBillingUnavailable
      else
        andThen (sf_db f) (\<lambda>d.
          if \<not> db_has d ''meta'' \<or> \<not> db_has d ''events'' \<or> \<not> db_has d ''ids''
             \<or> as_text (meta_get d ''identity'') \<noteq> Some (mf_store m) \<or> as_text (meta_get d ''version'') \<noteq> Some ''2''
             \<or> db_seq d ''events'' \<noteq> mf_high m
          then Inl ErrBillingUnavailable
          else
            let b = sf_writes f; audited = 1 + length (db_entries d ''ids'') + length (seq_range 1 (mf_high m))
                      + length (db_entries d ''catalog'')
            in andThen (audit_lifecycle cr c b (sf_sound f) (mf_env m) (mf_sources m) keys d) (\<lambda>_.
                 ctx_each c (b + audited) (validate_live cr d)
                   (seq_range (meta_uint d ''archive_floor'' + 1) (mf_high m)))))"

text \<open>
  \<open>PrepareBillingSnapshotRecovery\<close>: \<open>st_fresh\<close> says that the directory is private and holds neither
  manifest, \<open>st_marker\<close> and \<open>st_open\<close> are the outcomes of writing the stage marker and opening
  the file, \<open>st_synced\<close> that of the writes after the commit. The result carries the staged database
  and the manifest that is published beside it.
\<close>

record stage_env =
  st_fresh :: "go_error + unit"
  st_marker :: "go_error + unit"
  st_open :: "go_error + unit"
  st_commit :: "go_error + unit"
  st_synced :: "go_error + unit"
  st_base :: bytes

definition stage_db :: "crypto \<Rightarrow> ctx \<Rightarrow> nat \<Rightarrow> bytes \<Rightarrow> db \<Rightarrow> go_error + (recovery_state \<times> u64 \<times> db)" where
  "stage_db cr c n env d =
     andThen (ctx_check c n) (\<lambda>_.
       let g = meta_uint d ''mutation_generation''
       in if g = - 1 then Inl ErrBillingUnavailable
          else
            andThen (db_put ''meta'' ''mutation_generation'' (Raw (sequence_key (g + 1))) d) (\<lambda>d.
            andThen (db_put ''meta'' ''recovery_fence'' (Raw ''1'') d) (\<lambda>d.
            andThen (db_put ''meta'' ''manifest_required'' (Raw ''1'') d) (\<lambda>d.
            andThen (db_del ''meta'' ''compaction_session'' d) (\<lambda>d.
            andThen (recovery_state_of cr env d) (\<lambda>st. Inr (st, g + 1, d)))))))"

definition storage_generation_of :: "db \<Rightarrow> bytes" where
  "storage_generation_of d =
     (let v = text_or_empty (meta_get d ''storage_generation'') in if v = [] then ''initial'' else v)"

definition prepare_recovery ::
    "crypto \<Rightarrow> ctx \<Rightarrow> stage_env \<Rightarrow> snapshot_file \<Rightarrow> manifest \<Rightarrow> (bytes \<times> bytes) list option \<Rightarrow> nat \<Rightarrow>
     go_error + (recovery_state \<times> db \<times> active_manifest)" where
  "prepare_recovery cr c ev f m keys n =
     andThen (st_fresh ev) (\<lambda>_.
     andThen (validate_snapshot cr c f m keys) (\<lambda>_.
     andThen (ctx_check c n) (\<lambda>_.
     andThen (st_marker ev) (\<lambda>_.
     andThen (st_open ev) (\<lambda>_.
     andThen (sf_db f) (\<lambda>d.
     andThen (stage_db cr c (n + 1) (mf_env m) d) (\<lambda>(st, frontier, d').
     andThen (st_commit ev) (\<lambda>_.
     andThen (st_synced ev) (\<lambda>_.
       Inr (st, d', \<lparr>am_version = 1, am_file = st_base ev, am_store = mf_store m,
                     am_generation = storage_generation_of d, am_cutover = frontier\<rparr>))))))))))"

end
