(* ===== verification/Gateway.thy ===== *)
theory Gateway
  imports Recovery
begin

text \<open>
  Every transaction of the inbox keeps the contract \<open>journalled_body\<close>: on a database of the
  second format its effect is the replay of the writes it recorded. The locale is interpreted
  on each body of the model, so each operation's commit is a \<open>journal_step\<close>.
\<close>

abbreviation version2 :: "db \<Rightarrow> bool" where
  "version2 d \<equiv> as_text (meta_get d ''version'') = Some ''2''"

lemma version2_iff: "version2 d = (meta_get d ''version'' = Some (Raw ''2''))"
  by (auto simp: as_text_def split: option.splits doc.splits)

lemmas keep_contract = records_effect_refl records_effect_calls records_effect_puts domain_key_def protected_keys_def

section \<open>The inbox\<close>

lemma insert_body_records:
  assumes "insert_body cr c now e digest t = Inr (a, t')"
  shows "records_effect t t'"
proof -
  from assms obtain n u where n: "t_next_sequence ''events'' t = Inr (n, u)"
      and u: "t_puts (new_receipt cr (mt_db u) n e digest now) u = Inr t'"
    by (auto simp: insert_body_def split: option.splits sum.splits if_splits)
  have "records_effect t u" using n by (rule records_effect_calls) simp
  moreover have "records_effect u t'"
    by (rule records_effect_puts [OF u]) (auto simp: new_receipt_def Let_def domain_key_def)
  ultimately show ?thesis by (rule records_effect_trans)
qed

interpretation insert_gateway: journalled_body "insert_body cr c now e digest" version2
  for cr c now e digest
  by unfold_locales (rule insert_body_records)

interpretation migrate_gateway: journalled_body "migrate_body cr c now batch" version2
  for cr c now batch
  by unfold_locales (auto simp: migrate_body_def Let_def split: if_splits)

section \<open>Retirement\<close>

lemma plan_body_records: "plan_body cr cfg c now p t = Inr (a, t') \<Longrightarrow> records_effect t t'"
  by (auto simp: plan_body_def Let_def domain_key_def simp del: t_calls_Inr split: option.splits if_splits
      elim!: records_effect_calls(1))

lemma abort_body_records: "abort_body cr cfg c now p st t = Inr (a, t') \<Longrightarrow> records_effect t t'"
  by (auto simp: abort_body_def Let_def domain_key_def simp del: t_calls_Inr split: option.splits if_splits
      elim!: records_effect_calls(1))

lemma apply_body_records:
  assumes "apply_body cr cfg c now op st t = Inr (a, t')"
  shows "records_effect t t'"
proof -
  from assms obtain u v stat where
    u: "for_state (\<lambda>n. t_del ''events'' (sequence_key n)) (seq_range (rs_from st) (rs_through st)) t = Inr u"
    and v: "t_put ''meta'' ''archive_floor'' (Raw (sequence_key (rs_through st))) u = Inr v"
    and w: "t_put ''operations'' op (DStatus stat) v = Inr t'"
    by (auto simp: apply_body_def Let_def simp del: t_calls_Inr split: if_splits)
  have "records_effect t u"
    by (rule records_effect_for_state [OF u, of "\<lambda>x. x"]) (rule records_effect_calls(2), auto simp: domain_key_def)
  also have "records_effect u v"
    by (rule records_effect_calls(1) [OF v]) (simp add: domain_key_def protected_keys_def)
  also have "records_effect v t'"
    by (rule records_effect_calls(1) [OF w]) (simp add: domain_key_def)
  finally show ?thesis .
qed

interpretation plan_gateway: journalled_body "plan_body cr cfg c now p" version2
  for cr cfg c now p
  by unfold_locales (rule plan_body_records)

interpretation abort_gateway: journalled_body "abort_body cr cfg c now p st" version2
  for cr cfg c now p st
  by unfold_locales (rule abort_body_records)

interpretation apply_gateway: journalled_body "apply_body cr cfg c now op st" version2
  for cr cfg c now op st
  by unfold_locales (rule apply_body_records)

section \<open>Backup\<close>

lemma save_body_records: "save_body st t = Inr (a, t') \<Longrightarrow> records_effect t t'"
  by (auto simp: save_body_def domain_key_def simp del: t_calls_Inr split: if_splits
      elim!: records_effect_calls(1))

lemma seal_body_records:
  assumes "seal_body st high t = Inr (a, t')"
  shows "records_effect t t'"
proof -
  from assms have "t_puts [(''captures'', cs_set st, DCapture st),
      (''meta'', ''captured_through'', Raw (sequence_key high))] t = Inr t'"
    by (auto simp: seal_body_def)
  then show ?thesis by (rule records_effect_puts) (simp add: domain_key_def protected_keys_def)
qed

lemma verify_body_records:
  assumes "verify_body cr cfg c now sid completion t = Inr (a, t')"
  shows "records_effect t t'"
proof -
  from assms consider "t' = t" | ce st where
      "t_puts [(''catalog'', sid, DCatalog ce), (''captures'', sid, DCapture (set_capture_status ''verified'' st))] t = Inr t'"
    by (auto simp: verify_body_def Let_def simp del: t_puts.simps
        split: option.splits if_splits b64.splits sum.splits)
  then show ?thesis
    by cases (simp, rule records_effect_puts, assumption, simp add: domain_key_def)
qed

lemma rehydrate_record_records:
  assumes "rehydrate_record cr cfg c m fl e s = Inr s'"
  shows "records_effect (snd (snd (snd s))) (snd (snd (snd s')))"
  using assms
  by (auto simp: rehydrate_record_def Let_def domain_key_def simp del: t_calls_Inr
      split: prod.splits if_splits sum.splits option.splits elim!: records_effect_calls(1))

lemma rehydrate_body_records:
  assumes "rehydrate_body cr cfg c sid records t = Inr (a, t')"
  shows "records_effect t t'"
proof -
  from assms obtain ce :: "doc catalog_entry" and i prev used u where
    u: "for_state (rehydrate_record cr cfg c (ce_manifest ce) (meta_uint (mt_db t) ''archive_floor''))
          records (0, None, meta_uint (mt_db t) ''cache_bytes'', t) = Inr (i, prev, used, u)"
    and w: "t_put ''meta'' ''cache_bytes'' (Raw (sequence_key used)) u = Inr t'"
    by (auto simp: rehydrate_body_def simp del: t_calls_Inr split: option.splits)
  have "records_effect t u"
    using records_effect_for_state [OF u, of "\<lambda>s. snd (snd (snd s))"] rehydrate_record_records by auto
  also have "records_effect u t'"
    by (rule records_effect_calls(1) [OF w]) (simp add: domain_key_def protected_keys_def)
  finally show ?thesis .
qed

lemma evict_loop_records:
  "evict_loop c through kvs n bytes t = Inr (used, t') \<Longrightarrow> records_effect t t'"
proof (induction c through kvs n bytes t rule: evict_loop.induct)
  case (2 c through k v kvs n bytes t)
  show ?case
  proof (cases "key_uint k \<le> through \<and> n < 1000")
    case True
    with "2.prems" obtain u where u: "ctx_check c n = Inr ()" "t_del ''archive_cache'' k t = Inr u"
        "\<not> cached_len (Some v) > bytes" "evict_loop c through kvs (n + 1) (bytes - cached_len (Some v)) u = Inr (used, t')"
      by (auto simp del: t_calls_Inr split: if_splits)
    have "records_effect t u" by (rule records_effect_calls(2) [OF u(2)]) (simp add: domain_key_def)
    also have "records_effect u t'" using "2.IH" True u by blast
    finally show ?thesis .
  qed (use "2.prems" in auto)
qed simp

lemma evict_body_records:
  assumes "evict_body cfg c through t = Inr (a, t')"
  shows "records_effect t t'"
proof -
  from assms obtain used u where
    u: "evict_loop c through (db_entries (mt_db t) ''archive_cache'') 0 (meta_uint (mt_db t) ''cache_bytes'') t = Inr (used, u)"
    and w: "t_put ''meta'' ''cache_bytes'' (Raw (sequence_key used)) u = Inr t'"
    by (auto simp: evict_body_def simp del: t_calls_Inr)
  note evict_loop_records [OF u]
  also have "records_effect u t'"
    by (rule records_effect_calls(1) [OF w]) (simp add: domain_key_def protected_keys_def)
  finally show ?thesis .
qed

interpretation save_gateway: journalled_body "save_body st" version2 for st
  by unfold_locales (rule save_body_records)

interpretation seal_gateway: journalled_body "seal_body st high" version2 for st high
  by unfold_locales (rule seal_body_records)

interpretation verify_gateway: journalled_body "verify_body cr cfg c now sid completion" version2
  for cr cfg c now sid completion
  by unfold_locales (rule verify_body_records)

interpretation rehydrate_gateway: journalled_body "rehydrate_body cr cfg c sid records" version2
  for cr cfg c sid records
  by unfold_locales (rule rehydrate_body_records)

interpretation evict_gateway: journalled_body "evict_body cfg c through" version2 for cfg c through
  by unfold_locales (rule evict_body_records)

section \<open>Recovery\<close>

lemma fence_body_records: "fence_body c t = Inr (a, t') \<Longrightarrow> records_effect t t'"
  by (auto simp: fence_body_def domain_key_def protected_keys_def simp del: t_calls_Inr
      elim!: records_effect_calls(1))

lemma admit_body_records:
  assumes "admit_body cr cfg c p approval t = Inr (a, t')"
  shows "records_effect t t'"
proof -
  from assms obtain u where
    u: "t_put ''meta'' ''recovery_admission'' (DSignedApproval approval) t = Inr u"
    and w: "t_del ''meta'' ''recovery_fence'' u = Inr t'"
    by (auto simp: admit_body_def simp del: t_calls_Inr split: if_splits)
  have "records_effect t u" by (rule records_effect_calls(1) [OF u]) (simp add: domain_key_def protected_keys_def)
  also have "records_effect u t'" by (rule records_effect_calls(2) [OF w]) (simp add: domain_key_def protected_keys_def)
  finally show ?thesis .
qed

interpretation fence_gateway: journalled_body "fence_body c" version2 for c
  by unfold_locales (rule fence_body_records)

interpretation admit_gateway: journalled_body "admit_body cr cfg c p approval" version2
  for cr cfg c p approval
  by unfold_locales (rule admit_body_records)

end
