(* ===== verification/System.thy ===== *)
theory System
  imports Capture Gateway
begin

text \<open>
  The inbox as a transition system. \<open>commit\<close> relates a database to the one after a transaction,
  with one rule per transaction body of the program and what its caller has checked before;
  \<open>serve\<close> relates an inbox to the one after a public operation, whatever the operation returns.
  Every operation moves the database through commits only (\<open>serve_commits\<close>), so an invariant of
  \<open>commit\<close> is an invariant of the program.
\<close>

section \<open>Transactions\<close>

text \<open>A stored capture that has been sealed names its own set, environment and store.\<close>

definition archived :: "lifecycle_config \<Rightarrow> db \<Rightarrow> doc capture_status \<Rightarrow> bool" where
  "archived cfg d st =
     (cs_status st \<in> {''sealed'', ''uploaded'', ''verified''} \<longrightarrow>
        mf_set (cs_manifest st) = cs_set st \<and> mf_env (cs_manifest st) = lc_env cfg
        \<and> as_text (meta_get d ''identity'') = Some (mf_store (cs_manifest st)))"

text \<open>The status an abort starts from: the stored one of the same plan, or a fresh tombstone.\<close>

definition status_of_plan :: "retirement_plan \<Rightarrow> retirement_status \<Rightarrow> bool" where
  "status_of_plan p st =
     (st = (status_for p)\<lparr>rs_retired := rs_retired st, rs_status := rs_status st,
              rs_completed := rs_completed st, rs_receipt := rs_receipt st\<rparr>)"

inductive commit :: "crypto \<Rightarrow> lifecycle_config \<Rightarrow> db \<Rightarrow> db \<Rightarrow> bool" for cr cfg where
  c_insert: "billing_binding cr e0 = Inr (e, digest) \<Longrightarrow> \<not> is_zero now \<Longrightarrow>
     run_update io (insert_body cr c now e digest) d = Inr (u, d') \<Longrightarrow> commit cr cfg d d'"
| c_migrate: "\<not> is_zero now \<Longrightarrow>
     run_update io (migrate_body cr c now batch) d = Inr (u, d') \<Longrightarrow> commit cr cfg d d'"
| c_plan: "plan_shape_ok p \<Longrightarrow>
     run_update io (plan_body cr cfg c now0 p) d = Inr (st, d') \<Longrightarrow> commit cr cfg d d'"
| c_apply: "(\<And>k. \<not> is_zero (nows k)) \<Longrightarrow>
     run_update io (apply_body cr cfg c nows op st0) d = Inr (st, d') \<Longrightarrow> commit cr cfg d d'"
| c_abort: "plan_shape_ok p \<Longrightarrow> status_of_plan p st0 \<Longrightarrow> \<not> is_zero now \<Longrightarrow>
     run_update io (abort_body cr cfg c now p st0) d = Inr (st, d') \<Longrightarrow> commit cr cfg d d'"
| c_save: "archived cfg d cap \<Longrightarrow> run_update io (save_body cap) d = Inr (u, d') \<Longrightarrow> commit cr cfg d d'"
| c_seal: "archived cfg d cap \<Longrightarrow> run_update io (seal_body cap high) d = Inr (u, d') \<Longrightarrow> commit cr cfg d d'"
| c_verify: "run_update io (verify_body cr cfg c nows sid completion) d = Inr (ce, d') \<Longrightarrow> commit cr cfg d d'"
| c_rehydrate: "run_update io (rehydrate_body cr cfg c sid records) d = Inr (u, d') \<Longrightarrow> commit cr cfg d d'"
| c_evict: "run_update io (evict_body cfg c through) d = Inr (u, d') \<Longrightarrow> commit cr cfg d d'"
| c_fence: "run_update io (fence_body c) d = Inr (u, d') \<Longrightarrow> commit cr cfg d d'"
| c_admit: "run_update io (admit_body cr cfg c p0 approval) d = Inr (rs, d') \<Longrightarrow> commit cr cfg d d'"

inductive commits :: "crypto \<Rightarrow> lifecycle_config \<Rightarrow> db \<Rightarrow> db \<Rightarrow> bool" for cr cfg where
  none: "commits cr cfg d d"
| more: "commits cr cfg d d' \<Longrightarrow> commit cr cfg d' d'' \<Longrightarrow> commits cr cfg d d''"

lemma commits_one [intro]: "commit cr cfg d d' \<Longrightarrow> commits cr cfg d d'"
  by (rule commits.more [OF commits.none])

lemma commits_trans [trans]:
  assumes "commits cr cfg d e" "commits cr cfg e f"
  shows "commits cr cfg d f"
  using assms(2,1) by (induction rule: commits.induct) (auto intro: commits.more)

lemma commits_invariant:
  assumes "commits cr cfg d d'" "I d" "\<And>d d'. commit cr cfg d d' \<Longrightarrow> I d \<Longrightarrow> I d'"
  shows "I d'"
  using assms by (induction rule: commits.induct) auto

section \<open>What a commit does to the journal\<close>

lemma commit_journal_step:
  assumes "commit cr cfg d d'" "version2 d"
  shows "journal_step d d'"
  using assms(1)
proof cases
  case (c_insert e0 e digest now io c u)
  show ?thesis by (rule insert_gateway.update_step [OF assms(2) c_insert(3)])
next
  case (c_migrate now io c batch u)
  show ?thesis by (rule migrate_gateway.update_step [OF assms(2) c_migrate(2)])
next
  case (c_plan p io c now0 st)
  show ?thesis by (rule plan_gateway.update_step [OF assms(2) c_plan(2)])
next
  case (c_apply nows io c op st0 st)
  show ?thesis by (rule apply_gateway.update_step [OF assms(2) c_apply(2)])
next
  case (c_abort p st0 now io c st)
  show ?thesis by (rule abort_gateway.update_step [OF assms(2) c_abort(4)])
next
  case (c_save cap io u)
  show ?thesis by (rule save_gateway.update_step [OF assms(2) c_save(2)])
next
  case (c_seal cap io high u)
  show ?thesis by (rule seal_gateway.update_step [OF assms(2) c_seal(2)])
next
  case (c_verify io c nows sid completion ce)
  show ?thesis by (rule verify_gateway.update_step [OF assms(2) c_verify])
next
  case (c_rehydrate io c sid records u)
  show ?thesis by (rule rehydrate_gateway.update_step [OF assms(2) c_rehydrate])
next
  case (c_evict io c through u)
  show ?thesis by (rule evict_gateway.update_step [OF assms(2) c_evict])
next
  case (c_fence io c u)
  show ?thesis by (rule fence_gateway.update_step [OF assms(2) c_fence])
next
  case (c_admit io c p0 approval rs)
  show ?thesis by (rule admit_gateway.update_step [OF assms(2) c_admit])
qed

section \<open>The public operations\<close>

definition running_clock :: "call \<Rightarrow> bool" where
  "running_clock c = (\<forall>k. \<not> is_zero (cl_now c k))"

text \<open>One operation under a fixed lifecycle configuration.\<close>

inductive serve :: "crypto \<Rightarrow> inbox \<Rightarrow> inbox \<Rightarrow> bool" for cr where
  s_insert: "running_clock c \<Longrightarrow> insert_event cr c e ib = (r, ib') \<Longrightarrow> serve cr ib ib'"
| s_page: "page cr c text limit ib = (r, ib') \<Longrightarrow> serve cr ib ib'"
| s_migrate: "running_clock c \<Longrightarrow> migrate cr c batch ib = (r, ib') \<Longrightarrow> serve cr ib ib'"
| s_plan: "plan_retirement cr c p ib = (r, ib') \<Longrightarrow> serve cr ib ib'"
| s_apply: "running_clock c \<Longrightarrow> apply_retirement cr c auth op ib = (r, ib') \<Longrightarrow> serve cr ib ib'"
| s_abort: "running_clock c \<Longrightarrow> abort_plan cr c auth p ib = (r, ib') \<Longrightarrow> serve cr ib ib'"
| s_abort_op: "running_clock c \<Longrightarrow> abort_retirement cr c auth op ib = (r, ib') \<Longrightarrow> serve cr ib ib'"
| s_capture: "capture cr c ev ib = (r, ib') \<Longrightarrow> serve cr ib ib'"
| s_verify: "verify_catalog cr c publish sid completion ib = (r, ib') \<Longrightarrow> serve cr ib ib'"
| s_rehydrate: "rehydrate cr c sid records ib = (r, ib') \<Longrightarrow> serve cr ib ib'"
| s_evict: "evict_cache c through ib = (r, ib') \<Longrightarrow> serve cr ib ib'"
| s_fence: "set_recovery_mode c ib = (r, ib') \<Longrightarrow> serve cr ib ib'"
| s_admit: "admit_recovery cr c approval ib = (r, ib') \<Longrightarrow> serve cr ib ib'"
| s_close: "serve cr ib (close_inbox ib)"

inductive_cases serve_elim: "serve cr ib ib'"

inductive serves :: "crypto \<Rightarrow> inbox \<Rightarrow> inbox \<Rightarrow> bool" for cr where
  idle: "serves cr ib ib"
| work: "serves cr ib ib' \<Longrightarrow> serve cr ib' ib'' \<Longrightarrow> serves cr ib ib''"

text \<open>An update commits its body or leaves the database.\<close>

lemma update_locked_run:
  assumes "update_locked io body ib = (r, ib')"
  obtains (same) "ib_db ib' = ib_db ib"
  | (ran) a where "run_update io body (ib_db ib) = Inr (a, ib_db ib')"
  using assms by (cases rule: update_locked_cases) auto

lemma update_locked_commit:
  assumes "update_locked io body ib = (r, ib')"
    and "\<And>a d'. run_update io body (ib_db ib) = Inr (a, d') \<Longrightarrow> commit cr cfg (ib_db ib) d'"
  shows "commits cr cfg (ib_db ib) (ib_db ib')"
  using assms(1)
  by (cases rule: update_locked_run) (auto intro: commits.none assms(2))

lemma update_locked_cfg: "update_locked io body ib = (r, ib') \<Longrightarrow> ib_cfg ib' = ib_cfg ib"
  using update_locked_flags by blast

section \<open>The identity of the store\<close>

lemma protected_run:
  assumes "records_effect (begin_tx d) t" "finish_update io t = Inr d'" "k \<in> {''version'', ''identity''}"
  shows "meta_get d' k = meta_get d k"
proof -
  from assms(1) obtain ws where ws: "list_all domain_write ws" "apply_mutations ws d = Inr (mt_db t)"
    by (auto simp: records_effect_def)
  have "meta_get (mt_db t) k = meta_get d k"
    using replay_frame(2) [OF ws(2,1), of k] assms(3) by (auto simp: protected_keys_def)
  moreover have "meta_get d' k = meta_get (mt_db t) k"
    using finish_update_frame(5) [OF assms(2), of k] assms(3) by auto
  ultimately show ?thesis by simp
qed

lemmas body_records = insert_body_records plan_body_records apply_body_records abort_body_records
  save_body_records seal_body_records verify_body_records rehydrate_body_records evict_body_records
  fence_body_records admit_body_records

text \<open>Every transaction but a migration batch.\<close>

lemma commit_cases_migrate:
  assumes "commit cr cfg d d'"
  obtains (migrate) now io c batch u where "\<not> is_zero now" "run_update io (migrate_body cr c now batch) d = Inr (u, d')"
  | (recorded) io t where "records_effect (begin_tx d) t" "finish_update io t = Inr d'"
  using assms by cases (auto simp: run_update_Inr dest: body_records intro: that)

lemma migrate_record_identity:
  assumes "migrate_record cr n t = Inr t'" shows "meta_get (mt_db t') ''identity'' = meta_get (mt_db t) ''identity''"
  using assms by (auto simp: migrate_record_def Let_def split: if_splits)

lemma migrate_loop_identity:
  "migrate_loop cr c upto_seq k n pos t = Inr (pos', t') \<Longrightarrow>
     meta_get (mt_db t') ''identity'' = meta_get (mt_db t) ''identity''"
  by (induction cr c upto_seq k n pos t rule: migrate_loop.induct)
     (auto split: if_splits dest: migrate_record_identity)

lemma create_identity:
  "for_state t_create names t = Inr t' \<Longrightarrow> meta_get (mt_db t') ''identity'' = meta_get (mt_db t) ''identity''"
  by (induction names arbitrary: t) auto

lemma migrate_body_identity:
  assumes "migrate_body cr c now batch t = Inr (u, t')"
  shows "meta_get (mt_db t') ''identity'' = meta_get (mt_db t) ''identity''"
  using assms
  by (auto simp: migrate_body_def migrate_start_def Let_def split: if_splits
      dest!: migrate_loop_identity create_identity)

lemma commit_identity:
  assumes "commit cr cfg d d'" shows "meta_get d' ''identity'' = meta_get d ''identity''"
  using assms
proof (cases rule: commit_cases_migrate)
  case (migrate now io c batch u)
  then obtain t where t: "migrate_body cr c now batch (begin_tx d) = Inr (u, t)" "finish_update io t = Inr d'"
    by (auto simp: run_update_Inr)
  with migrate_body_identity [OF t(1)] finish_update_frame(5) [OF t(2), of "''identity''"] show ?thesis by simp
next
  case (recorded io t)
  then show ?thesis by (rule protected_run) simp
qed

lemma commits_identity: "commits cr cfg d d' \<Longrightarrow> meta_get d' ''identity'' = meta_get d ''identity''"
  by (induction rule: commits.induct) (auto dest: commit_identity)

lemma archived_identity: "meta_get d' ''identity'' = meta_get d ''identity'' \<Longrightarrow> archived cfg d' st = archived cfg d st"
  by (simp add: archived_def)

section \<open>Operations commit\<close>

definition captures_ok :: "lifecycle_config \<Rightarrow> db \<Rightarrow> bool" where
  "captures_ok cfg d =
     (\<forall>k st. (k, DCapture st) \<in> set (db_entries d ''captures'') \<longrightarrow> cs_set st = k \<and> archived cfg d st)"

lemma save_capture_commits:
  assumes "save_capture io st ib = (r, ib')" "archived (ib_cfg ib) (ib_db ib) st"
  shows "commits cr (ib_cfg ib) (ib_db ib) (ib_db ib')" "ib_cfg ib' = ib_cfg ib"
  using assms by (auto simp: save_capture_def intro: update_locked_commit commit.c_save dest: update_locked_cfg)

lemma upload_capture_commits:
  assumes "upload_capture cr ev k st ib = (r, ib')" "archived (ib_cfg ib) (ib_db ib) st" "cs_status st = ''sealed''"
  shows "commits cr (ib_cfg ib) (ib_db ib) (ib_db ib') \<and> ib_cfg ib' = ib_cfg ib"
proof -
  let ?st = "CaptureStatus (cs_set st) ''uploaded'' (cs_manifest st) (cs_manifest_b64 st) []"
  have "ib' = ib \<or> (\<exists>r. save_capture (ve_io ev k) ?st ib = (r, ib'))"
    using assms(1) by (auto simp: upload_capture_def Let_def split: if_splits sum.splits prod.splits)
  moreover have "archived (ib_cfg ib) (ib_db ib) ?st" using assms(2,3) by (simp add: archived_def)
  ultimately show ?thesis using save_capture_commits by (auto intro: commits.none)
qed

lemma settle_one_commits:
  assumes "settle_one cr ev p (k, ib) = (res, k', ib')" "archived (ib_cfg ib) (ib_db ib) p"
  shows "commits cr (ib_cfg ib) (ib_db ib) (ib_db ib') \<and> ib_cfg ib' = ib_cfg ib"
proof -
  have abandoned: "archived (ib_cfg ib) (ib_db ib) (abandon p)" by (simp add: archived_def abandon_def)
  consider "ib' = ib" | r where "cs_status p = ''sealed''" "upload_capture cr ev k p ib = (r, ib')"
    | r where "save_capture (ve_io ev k) (abandon p) ib = (r, ib')"
    using assms(1)
    by (auto simp: settle_one_def split: if_splits prod.splits sum.splits)
  then show ?thesis
    by cases (auto intro: commits.none dest: upload_capture_commits [OF _ assms(2)] save_capture_commits [OF _ abandoned])
qed

lemma settle_commits:
  "settle cr ev ps (k, ib) = (res, k', ib') \<Longrightarrow> list_all (archived (ib_cfg ib) (ib_db ib)) ps \<Longrightarrow>
     commits cr (ib_cfg ib) (ib_db ib) (ib_db ib') \<and> ib_cfg ib' = ib_cfg ib"
proof (induction ps arbitrary: k ib)
  case (Cons p ps)
  obtain o' k1 ib1 where one: "settle_one cr ev p (k, ib) = (o', k1, ib1)" by (metis prod_cases3)
  from Cons.prems(2) have "archived (ib_cfg ib) (ib_db ib) p" by simp
  note step = settle_one_commits [OF one this]
  show ?case
  proof (cases o')
    case (Some r)
    with Cons.prems(1) one have "ib' = ib1" by simp
    with step show ?thesis by simp
  next
    case None
    with Cons.prems(1) one have rest: "settle cr ev ps (k1, ib1) = (res, k', ib')" by simp
    have "archived (ib_cfg ib1) (ib_db ib1) = archived (ib_cfg ib) (ib_db ib)"
      using step commits_identity [of cr "ib_cfg ib" "ib_db ib" "ib_db ib1"] by (auto simp: fun_eq_iff archived_def)
    with Cons.prems(2) have "list_all (archived (ib_cfg ib1) (ib_db ib1)) ps" by simp
    from Cons.IH [OF rest this] step show ?thesis by (auto intro: commits_trans)
  qed
qed (auto intro: commits.none)

lemma build_set_names:
  assumes "build_set cr cfg c base ev now d = Inr (m, b)"
  shows "mf_set m = ve_set ev" "mf_env m = lc_env cfg" "as_text (meta_get d ''identity'') = Some (mf_store m)"
    "validate_manifest m = Inr ()" "mf_high m = db_seq d ''events''"
proof -
  from assms obtain n dg xs where
    m: "m = complete_set cr (set_head cr cfg (ve_set ev) now d) n dg xs" and mb: "marshal_manifest m = Inr b"
    by (auto simp: build_set_def Let_def)
  from mb show val: "validate_manifest m = Inr ()" by (auto simp: marshal_manifest_def)
  have "length (mf_store m) = 32" using val by (auto simp: validate_manifest_def split: if_splits)
  then have "text_or_empty (meta_get d ''identity'') \<noteq> []" by (auto simp: m complete_set_def set_head_def Let_def)
  then show "as_text (meta_get d ''identity'') = Some (mf_store m)"
    by (auto simp: m complete_set_def set_head_def Let_def text_or_empty_def split: option.splits)
  show "mf_set m = ve_set ev" "mf_env m = lc_env cfg" "mf_high m = db_seq d ''events''"
    by (simp_all add: m complete_set_def set_head_def Let_def)
qed

lemma captures_stored:
  assumes "captures c ib = Inr sts" "st \<in> set sts"
  shows "\<exists>k. (k, DCapture st) \<in> set (db_entries (ib_db ib) ''captures'')"
proof -
  let ?f = "\<lambda>kv (n, out). andThen (ctx_check (cl_ctx c) n) (\<lambda>_.
      case as_capture (Some (snd kv)) of None \<Rightarrow> Inl ErrBillingUnavailable | Some st \<Rightarrow> Inr (n + 1, out @ [st]))"
  let ?es = "db_entries (ib_db ib) ''captures''"
  from assms(1) obtain n where loop: "for_state ?f ?es (1, []) = Inr (n, sts)"
    by (auto simp: captures_def Let_def split: if_splits)
  have "\<forall>st \<in> set (snd (n, sts)). \<exists>k. (k, DCapture st) \<in> set ?es"
  proof (rule for_state_invariant [OF loop])
    fix kv s s'
    assume "kv \<in> set ?es" "\<forall>st \<in> set (snd s). \<exists>k. (k, DCapture st) \<in> set ?es" "?f kv s = Inr s'"
    note prems = this
    from prems(3) have "\<exists>st'. snd kv = DCapture st' \<and> snd s' = snd s @ [st']"
      by (cases s) (auto split: option.splits)
    then obtain st' where st': "kv = (fst kv, DCapture st')" "snd s' = snd s @ [st']"
      by (metis prod.collapse)
    from prems(1) have "(fst kv, DCapture st') \<in> set ?es" by (subst (asm) st'(1))
    with prems(2) st'(2) show "\<forall>st \<in> set (snd s'). \<exists>k. (k, DCapture st) \<in> set ?es" by auto
  qed simp
  with assms(2) show ?thesis by simp
qed

lemma fresh_capture_commits:
  assumes "fresh_capture cr c base ev (k, ib) = (r, ib')"
  shows "commits cr (ib_cfg ib) (ib_db ib) (ib_db ib') \<and> ib_cfg ib' = ib_cfg ib"
proof -
  let ?cfg = "ib_cfg ib"
  let ?st = "CaptureStatus (ve_set ev) ''capturing'' no_manifest (B64 (Raw [])) []"
  obtain r1 ib1 where save: "save_capture (ve_io ev k) ?st ib = (r1, ib1)" by fastforce
  have "archived ?cfg (ib_db ib) ?st" by (simp add: archived_def)
  note first = save_capture_commits(1) [OF save this, where cr = cr] save_capture_commits(2) [OF save this]
  show ?thesis
  proof (cases "ib' = ib \<or> ib' = ib1")
    case True
    with first show ?thesis by (auto intro: commits.none)
  next
    case False
    with assms save obtain m b where mb: "build_set cr ?cfg (cl_ctx c) base ev (cl_now c 0) (ib_db ib1) = Inr (m, b)"
      and rest: "(case seal_capture (ve_io ev (k + 1)) (CaptureStatus (ve_set ev) ''sealed'' m (B64 b) []) (mf_high m) ib1 of
               (Inl x, ib) \<Rightarrow> (Inl x, ib)
             | (Inr _, ib) \<Rightarrow>
                 (case ve_finish ev of
                    Inl x \<Rightarrow> (Inl x, ib)
                  | Inr _ \<Rightarrow> upload_capture cr ev (k + 2) (CaptureStatus (ve_set ev) ''sealed'' m (B64 b) []) ib)) = (r, ib')"
      by (auto simp: fresh_capture_def Let_def andThen_def split: if_splits sum.splits prod.splits)
    let ?sealed = "CaptureStatus (ve_set ev) ''sealed'' m (B64 b) []"
    obtain r2 ib2 where seal: "seal_capture (ve_io ev (k + 1)) ?sealed (mf_high m) ib1 = (r2, ib2)" by fastforce
    note names = build_set_names [OF mb]
    have arch: "archived ?cfg (ib_db ib1) ?sealed" using names by (simp add: archived_def)
    then have second: "commits cr ?cfg (ib_db ib1) (ib_db ib2)" "ib_cfg ib2 = ?cfg"
      using seal first by (auto simp: seal_capture_def intro: update_locked_commit commit.c_seal dest: update_locked_cfg)
    have arch2: "archived (ib_cfg ib2) (ib_db ib2) ?sealed"
      using arch second commits_identity [OF second(1)] archived_identity by metis
    have "ib' = ib2 \<or> (\<exists>r. upload_capture cr ev (k + 2) ?sealed ib2 = (r, ib'))"
      using rest seal by (auto split: sum.splits)
    then have "commits cr ?cfg (ib_db ib2) (ib_db ib') \<and> ib_cfg ib' = ?cfg"
    proof
      assume "ib' = ib2" with second show ?thesis by (auto intro: commits.none)
    next
      assume "\<exists>r. upload_capture cr ev (k + 2) ?sealed ib2 = (r, ib')"
      then obtain r' where "upload_capture cr ev (k + 2) ?sealed ib2 = (r', ib')" by blast
      from upload_capture_commits [OF this arch2] second show ?thesis by simp
    qed
    then show ?thesis using first second by (blast intro: commits_trans)
  qed
qed

lemma capture_commits:
  assumes "capture cr c ev ib = (r, ib')" "captures_ok (ib_cfg ib) (ib_db ib)"
  shows "commits cr (ib_cfg ib) (ib_db ib) (ib_db ib') \<and> ib_cfg ib' = ib_cfg ib"
proof (cases "captures c ib")
  case (Inl x)
  with assms(1) have "ib' = ib" by (auto simp: capture_def split: if_splits)
  then show ?thesis by (simp add: commits.none)
next
  case (Inr sts)
  have ok: "list_all (archived (ib_cfg ib) (ib_db ib)) sts"
    unfolding list_all_iff
  proof
    fix st assume "st \<in> set sts"
    from captures_stored [OF Inr this] assms(2) show "archived (ib_cfg ib) (ib_db ib) st"
      by (auto simp: captures_ok_def)
  qed
  obtain res k1 ib1 where settled: "settle cr ev sts (0, ib) = (res, k1, ib1)" by (metis prod_cases3)
  note first = settle_commits [OF settled ok]
  consider "ib' = ib" | "ib' = ib1" | "fresh_capture cr c (1 + length sts) ev (k1, ib1) = (r, ib')"
    using assms(1) Inr settled by (auto simp: capture_def split: if_splits option.splits)
  then show ?thesis
  proof cases
    case 3
    from fresh_capture_commits [OF this] first show ?thesis by (auto intro: commits_trans)
  qed (use first in \<open>auto intro: commits.none\<close>)
qed

lemma status_of_plan_fresh: "status_of_plan p (status_for p)"
  by (simp add: status_of_plan_def)

lemma abort_plan_commits:
  assumes "abort_plan cr c auth p ib = (r, ib')" "running_clock c"
  shows "commits cr (ib_cfg ib) (ib_db ib) (ib_db ib') \<and> ib_cfg ib' = ib_cfg ib"
proof -
  have "ib' = ib \<or> plan_shape_ok p \<and> (\<exists>st. status_of_plan p st
      \<and> update_locked (cl_io c) (abort_body cr (ib_cfg ib) (cl_ctx c) (cl_now c 0) p st) ib = (r, ib'))"
    using assms(1) status_of_plan_fresh [of p]
    by (auto simp: abort_plan_def Let_def simp flip: status_of_plan_def split: if_splits sum.splits)
  then consider "ib' = ib" | st where "plan_shape_ok p" "status_of_plan p st"
      "update_locked (cl_io c) (abort_body cr (ib_cfg ib) (cl_ctx c) (cl_now c 0) p st) ib = (r, ib')"
    by blast
  then show ?thesis
  proof cases
    case (2 st)
    have "commits cr (ib_cfg ib) (ib_db ib) (ib_db ib')"
      by (rule update_locked_commit [OF 2(3)])
        (rule commit.c_abort [OF 2(1,2)], use assms(2) in \<open>auto simp: running_clock_def\<close>)
    with update_locked_cfg [OF 2(3)] show ?thesis by simp
  qed (simp add: commits.none)
qed

text \<open>Whatever an operation does, its effect on the database is a sequence of commits.\<close>

lemma serve_commits:
  assumes "serve cr ib ib'" "captures_ok (ib_cfg ib) (ib_db ib)"
  shows "commits cr (ib_cfg ib) (ib_db ib) (ib_db ib') \<and> ib_cfg ib' = ib_cfg ib"
  using assms(1)
proof cases
  case (s_insert c e r)
  consider "ib_db ib' = ib_db ib" "ib_cfg ib' = ib_cfg ib" | e' dg r1 ib1 where "billing_binding cr e = Inr (e', dg)"
      "update_locked (cl_io c) (insert_body cr (cl_ctx c) (cl_now c 0) e' dg) ib = (r1, ib1)"
      "ib_db ib' = ib_db ib1" "ib_cfg ib' = ib_cfg ib1"
    using s_insert(2) by (auto simp: insert_event_def split: sum.splits if_splits prod.splits)
  then show ?thesis
  proof cases
    case (2 e' dg r1 ib1)
    have "commits cr (ib_cfg ib) (ib_db ib) (ib_db ib1)"
      by (rule update_locked_commit [OF 2(2)], rule commit.c_insert [OF 2(1)])
        (use s_insert(1) in \<open>auto simp: running_clock_def\<close>)
    with 2 update_locked_cfg [OF 2(2)] show ?thesis by simp
  qed (simp add: commits.none)
next
  case (s_page c cursor limit r)
  then have "ib_db ib' = ib_db ib \<and> ib_cfg ib' = ib_cfg ib"
    by (auto simp: page_def split: sum.splits if_splits)
  then show ?thesis by (simp add: commits.none)
next
  case (s_migrate c batch r)
  consider "ib' = ib" | r1 where
      "update_locked (cl_io c) (migrate_body cr (cl_ctx c) (cl_now c 0) (nat batch)) ib = (r1, ib')"
    using s_migrate(2) by (auto simp: migrate_def split: sum.splits if_splits prod.splits)
  then show ?thesis
  proof cases
    case (2 r1)
    have "commits cr (ib_cfg ib) (ib_db ib) (ib_db ib')"
      by (rule update_locked_commit [OF 2], rule commit.c_migrate)
        (use s_migrate(1) in \<open>auto simp: running_clock_def\<close>)
    with update_locked_cfg [OF 2] show ?thesis by simp
  qed (simp add: commits.none)
next
  case (s_plan c p r)
  consider "ib' = ib" | "plan_shape_ok p"
      "update_locked (cl_io c) (plan_body cr (ib_cfg ib) (cl_ctx c) (cl_now c 0) p) ib = (r, ib')"
    using s_plan by (auto simp: plan_retirement_def split: if_splits)
  then show ?thesis
    by cases (auto intro: commits.none update_locked_commit commit.c_plan dest: update_locked_cfg)
next
  case (s_apply c auth op r)
  consider "ib' = ib" | st where
      "update_locked (cl_io c) (apply_body cr (ib_cfg ib) (cl_ctx c) (cl_now c) op st) ib = (r, ib')"
    using s_apply(2) by (auto simp: apply_retirement_def split: sum.splits if_splits)
  then show ?thesis
  proof cases
    case (2 st)
    have "commits cr (ib_cfg ib) (ib_db ib) (ib_db ib')"
      by (rule update_locked_commit [OF 2], rule commit.c_apply)
        (use s_apply(1) in \<open>auto simp: running_clock_def\<close>)
    with update_locked_cfg [OF 2] show ?thesis by simp
  qed (simp add: commits.none)
next
  case (s_abort c auth p r)
  then show ?thesis using abort_plan_commits by blast
next
  case (s_abort_op c auth op r)
  have "running_clock (later_call c)" using s_abort_op(1) by (simp add: running_clock_def later_call_def)
  moreover have "ib' = ib \<or> (\<exists>p. abort_plan cr (later_call c) auth p ib = (r, ib'))"
    using s_abort_op(2) by (auto simp: abort_retirement_def split: sum.splits)
  ultimately show ?thesis using abort_plan_commits by (auto intro: commits.none)
next
  case (s_capture c ev r)
  then show ?thesis using capture_commits assms(2) by blast
next
  case (s_verify c publish sid completion r)
  then obtain r1 where "update_locked (cl_io c) (verify_body cr (ib_cfg ib) (cl_ctx c) (cl_now c) sid completion) ib = (r1, ib')"
    by (auto simp: verify_catalog_def split: prod.splits sum.splits)
  then show ?thesis by (auto intro: update_locked_commit commit.c_verify dest: update_locked_cfg)
next
  case (s_rehydrate c sid records r)
  then have "ib' = ib \<or> update_locked (cl_io c) (rehydrate_body cr (ib_cfg ib) (cl_ctx c) sid records) ib = (r, ib')"
    by (auto simp: rehydrate_def split: if_splits)
  then show ?thesis by (auto intro: commits.none update_locked_commit commit.c_rehydrate dest: update_locked_cfg)
next
  case (s_evict c through r)
  then show ?thesis
    by (auto simp: evict_cache_def intro: update_locked_commit commit.c_evict dest: update_locked_cfg)
next
  case (s_fence c r)
  then have "ib' = ib \<or> update_locked (cl_io c) (fence_body (cl_ctx c)) (ib\<lparr>ib_recovering := True\<rparr>) = (r, ib')"
    by (auto simp: set_recovery_mode_def split: if_splits sum.splits)
  then show ?thesis
  proof
    assume upd: "update_locked (cl_io c) (fence_body (cl_ctx c)) (ib\<lparr>ib_recovering := True\<rparr>) = (r, ib')"
    have "commits cr (ib_cfg ib) (ib_db (ib\<lparr>ib_recovering := True\<rparr>)) (ib_db ib')"
      by (rule update_locked_commit [OF upd]) (rule commit.c_fence)
    with update_locked_cfg [OF upd] show ?thesis by simp
  qed (simp add: commits.none)
next
  case (s_admit c approval r)
  consider "ib' = ib" | p r1 ib1 where
      "update_locked (cl_io c) (admit_body cr (ib_cfg ib) (cl_ctx c) p approval) ib = (r1, ib1)"
      "ib_db ib' = ib_db ib1" "ib_cfg ib' = ib_cfg ib1"
    using s_admit by (auto simp: admit_recovery_def split: sum.splits prod.splits)
  then show ?thesis
    by cases (auto intro: commits.none update_locked_commit commit.c_admit dest: update_locked_cfg)
next
  case s_close
  then show ?thesis by (simp add: close_inbox_def commits.none)
qed

end
