(* ===== verification/Effects.thy ===== *)
theory Effects
  imports System
begin

text \<open>
  What each transaction does to the database, bucket by bucket, and the first invariants of the
  system that follow: the stored captures name their sets, and the ledger only grows.
\<close>

section \<open>The transactions of the backup\<close>

lemma save_body_effect:
  "save_body st t = Inr (u, t') \<Longrightarrow>
     mt_db t' = set_key ''captures'' (cs_set st) (DCapture st) (mt_db t) \<and> db_has (mt_db t) ''captures''"
  by (auto simp: save_body_def split: if_splits)

lemma seal_body_effect:
  "seal_body st high t = Inr (u, t') \<Longrightarrow>
     mt_db t' = set_key ''meta'' ''captured_through'' (Raw (sequence_key high))
                  (set_key ''captures'' (cs_set st) (DCapture st) (mt_db t))
     \<and> db_has (mt_db t) ''captures'' \<and> db_has (mt_db t) ''meta''"
  by (auto simp: seal_body_def)

lemma verify_body_effect:
  assumes "verify_body cr cfg c now sid completion t = Inr (ce, t')"
  obtains (again) "t' = t"
  | (new) st b p where "db_get (mt_db t) ''captures'' sid = Some (DCapture st)"
      "cs_status st \<in> {''uploaded'', ''verified''}" "db_get (mt_db t) ''catalog'' sid = None"
      "verify_completion cr (lc_keys cfg) completion (cs_manifest st) b = Inr p"
      "ce = CatalogEntry ''verified'' (cs_manifest st) b completion"
      "mt_db t' = set_key ''captures'' sid (DCapture (set_capture_status ''verified'' st))
                    (set_key ''catalog'' sid (DCatalog ce) (mt_db t))"
      "db_has (mt_db t) ''captures''" "db_has (mt_db t) ''catalog''" "ready cfg (mt_db t) = Inr ()"
proof -
  from assms obtain st b p where st: "as_capture (db_get (mt_db t) ''captures'' sid) = Some st"
      "cs_status st \<in> {''uploaded'', ''verified''}" "cs_manifest_b64 st = B64 b" "ready cfg (mt_db t) = Inr ()"
      "verify_completion cr (lc_keys cfg) completion (cs_manifest st) b = Inr p"
    and fin: "(case db_get (mt_db t) ''catalog'' sid of
                 Some existing \<Rightarrow>
                   if as_catalog (Some existing) \<noteq> Some (CatalogEntry ''verified'' (cs_manifest st) b completion)
                   then Inl ErrLifecycleConflict
                   else Inr (CatalogEntry ''verified'' (cs_manifest st) b completion, t)
               | None \<Rightarrow>
                   andThen (t_puts
                     [(''catalog'', sid, DCatalog (CatalogEntry ''verified'' (cs_manifest st) b completion)),
                      (''captures'', sid, DCapture (set_capture_status ''verified'' st))] t)
                     (\<lambda>t. Inr (CatalogEntry ''verified'' (cs_manifest st) b completion, t))) = Inr (ce, t')"
    by (auto simp: verify_body_def Let_def split: option.splits if_splits b64.splits sum.splits)
  show thesis
  proof (cases "db_get (mt_db t) ''catalog'' sid")
    case None
    show thesis
      by (rule new [of st b p]) (use None st fin in auto)
  next
    case (Some x)
    with fin again show thesis by (auto split: if_splits)
  qed
qed

section \<open>Buckets a transaction leaves alone\<close>

lemma for_state_entries:
  assumes "for_state f xs s = Inr s'"
    and "\<And>x s s'. x \<in> set xs \<Longrightarrow> f x s = Inr s' \<Longrightarrow> P (g s) \<Longrightarrow> P (g s')" and "P (g s)"
  shows "P (g s')"
  using for_state_invariant [OF assms(1), of "\<lambda>s. P (g s)"] assms(2,3) by blast

text \<open>\<open>only b d d'\<close>: no other bucket than \<open>b\<close> has changed.\<close>

definition only :: "bytes \<Rightarrow> db \<Rightarrow> db \<Rightarrow> bool" where
  "only b d d' = ((\<forall>b'. db_has d' b' = db_has d b') \<and> (\<forall>b'. db_seq d' b' = db_seq d b')
     \<and> (\<forall>b'. b' \<noteq> b \<longrightarrow> db_entries d' b' = db_entries d b'))"

lemma only_refl [simp]: "only b d d"
  by (simp add: only_def)

lemma only_trans [trans]: "only b d e \<Longrightarrow> only b e f \<Longrightarrow> only b d f"
  by (simp add: only_def)

lemma only_calls: "only b d (set_key b k v d)" "only b d (del_key b k d)"
  by (auto simp: only_def)

lemma only_reads:
  assumes "only b d d'"
  shows "db_has d' b' = db_has d b'" "db_seq d' b' = db_seq d b'"
    "b' \<noteq> b \<Longrightarrow> db_entries d' b' = db_entries d b'" "b' \<noteq> b \<Longrightarrow> db_get d' b' k = db_get d b' k"
  using assms by (simp_all add: only_def db_get_def)

lemma rehydrate_record_step:
  assumes "rehydrate_record cr cfg c m fl e (i, prev, bytes, t) = Inr (i', prev', bytes', t')"
  obtains r where "validate_export_record cr e = Inr r"
    "bound_receipt cr (mt_db t) r (ex_seq e) (Some (ex_record e))" "ex_seq e \<le> fl" "mf_from m \<le> ex_seq e"
    "cached_len (db_get (mt_db t) ''archive_cache'' (sequence_key (ex_seq e))) \<le> bytes"
    "bytes' = bytes - cached_len (db_get (mt_db t) ''archive_cache'' (sequence_key (ex_seq e))) + cached_len (Some (ex_record e))"
    "mt_db t' = set_key ''archive_cache'' (sequence_key (ex_seq e)) (ex_record e) (mt_db t)"
    "db_has (mt_db t) ''archive_cache''"
proof -
  from assms obtain r where
    r: "validate_export_record cr e = Inr r" "bound_receipt cr (mt_db t) r (ex_seq e) (Some (ex_record e))"
      "ex_seq e \<le> fl" "mf_from m \<le> ex_seq e"
      "cached_len (db_get (mt_db t) ''archive_cache'' (sequence_key (ex_seq e))) \<le> bytes"
      "bytes' = bytes - cached_len (db_get (mt_db t) ''archive_cache'' (sequence_key (ex_seq e))) + cached_len (Some (ex_record e))"
    and t': "t_put ''archive_cache'' (sequence_key (ex_seq e)) (ex_record e) t = Inr t'"
    by (auto simp: rehydrate_record_def Let_def not_less simp del: t_calls_Inr split: if_splits sum.splits)
  from t' have "mt_db t' = set_key ''archive_cache'' (sequence_key (ex_seq e)) (ex_record e) (mt_db t)"
    "db_has (mt_db t) ''archive_cache''" by auto
  with r show thesis by (rule that)
qed

lemma rehydrate_loop_only:
  assumes "for_state (rehydrate_record cr cfg c m fl) records (i, prev, bytes, t) = Inr (i', prev', bytes', t')"
  shows "only ''archive_cache'' (mt_db t) (mt_db t')"
proof -
  have "only ''archive_cache'' (mt_db t) (mt_db (snd (snd (snd (i', prev', bytes', t')))))"
  proof (rule for_state_entries [OF assms, of "only ''archive_cache'' (mt_db t)" "\<lambda>s. mt_db (snd (snd (snd s)))"])
    fix e s s'
    assume step: "rehydrate_record cr cfg c m fl e s = Inr s'" and ok: "only ''archive_cache'' (mt_db t) (mt_db (snd (snd (snd s))))"
    obtain i1 p1 b1 t1 i2 p2 b2 t2 where s: "s = (i1, p1, b1, t1)" "s' = (i2, p2, b2, t2)"
      by (metis prod_cases4)
    from step [unfolded s] have "only ''archive_cache'' (mt_db t1) (mt_db t2)"
      by (rule rehydrate_record_step) (simp add: only_calls)
    with ok show "only ''archive_cache'' (mt_db t) (mt_db (snd (snd (snd s'))))"
      by (simp add: s only_trans)
  qed simp
  then show ?thesis by simp
qed

lemma rehydrate_body_effect:
  assumes "rehydrate_body cr cfg c sid records t = Inr (u, t')"
  obtains ce :: "doc catalog_entry" and i prev used v where "ready cfg (mt_db t) = Inr ()"
    "for_state (rehydrate_record cr cfg c (ce_manifest ce) (archive_floor (mt_db t))) records
       (0, None, meta_uint (mt_db t) ''cache_bytes'', t) = Inr (i, prev, used, v)"
    "mt_db t' = set_key ''meta'' ''cache_bytes'' (Raw (sequence_key used)) (mt_db v)"
    "only ''archive_cache'' (mt_db t) (mt_db v)" "db_has (mt_db t) ''meta''"
proof -
  from assms obtain ce :: "doc catalog_entry" and i prev used v where
    ready: "ready cfg (mt_db t) = Inr ()"
    and loop: "for_state (rehydrate_record cr cfg c (ce_manifest ce) (archive_floor (mt_db t))) records
       (0, None, meta_uint (mt_db t) ''cache_bytes'', t) = Inr (i, prev, used, v)"
    and put: "t_put ''meta'' ''cache_bytes'' (Raw (sequence_key used)) v = Inr t'"
    by (auto simp: rehydrate_body_def simp del: t_calls_Inr split: option.splits)
  from rehydrate_loop_only [OF loop] put show thesis
    by (intro that [OF ready loop]) (auto simp: only_def)
qed

lemma evict_loop_only:
  "evict_loop c through kvs n bytes t = Inr (used, t') \<Longrightarrow> only ''archive_cache'' (mt_db t) (mt_db t')"
proof (induction c through kvs n bytes t rule: evict_loop.induct)
  case (2 c through k v kvs n bytes t)
  show ?case
  proof (cases "key_uint k \<le> through \<and> n < 1000")
    case True
    with "2.prems" obtain x where x: "ctx_check c n = Inr ()" "t_del ''archive_cache'' k t = Inr x"
        "\<not> cached_len (Some v) > bytes" "evict_loop c through kvs (n + 1) (bytes - cached_len (Some v)) x = Inr (used, t')"
      by (auto simp del: t_calls_Inr split: if_splits)
    have "only ''archive_cache'' (mt_db t) (mt_db x)" using x(2) by (auto simp: only_calls)
    also have "only ''archive_cache'' (mt_db x) (mt_db t')" using "2.IH" True x by blast
    finally show ?thesis .
  qed (use "2.prems" in auto)
qed simp

lemma evict_body_effect:
  assumes "evict_body cfg c through t = Inr (u, t')"
  obtains used v where "ready cfg (mt_db t) = Inr ()"
    "evict_loop c through (db_entries (mt_db t) ''archive_cache'') 0 (meta_uint (mt_db t) ''cache_bytes'') t = Inr (used, v)"
    "mt_db t' = set_key ''meta'' ''cache_bytes'' (Raw (sequence_key used)) (mt_db v)"
    "only ''archive_cache'' (mt_db t) (mt_db v)" "db_has (mt_db t) ''meta''"
proof -
  from assms obtain used v where ready: "ready cfg (mt_db t) = Inr ()"
    and loop: "evict_loop c through (db_entries (mt_db t) ''archive_cache'') 0 (meta_uint (mt_db t) ''cache_bytes'') t = Inr (used, v)"
    and put: "t_put ''meta'' ''cache_bytes'' (Raw (sequence_key used)) v = Inr t'"
    by (auto simp: evict_body_def simp del: t_calls_Inr)
  from evict_loop_only [OF loop] put show thesis
    by (intro that [OF ready loop]) (auto simp: only_def)
qed

lemma fence_body_effect:
  "fence_body c t = Inr (u, t') \<Longrightarrow>
     mt_db t' = set_key ''meta'' ''recovery_fence'' (Raw ''1'') (mt_db t) \<and> db_has (mt_db t) ''meta''"
  by (auto simp: fence_body_def)

lemma admit_body_effect:
  assumes "admit_body cr cfg c p approval t = Inr (rs, t')"
  shows "mt_db t' = del_key ''meta'' ''recovery_fence''
           (set_key ''meta'' ''recovery_admission'' (DSignedApproval approval) (mt_db t)) \<and> db_has (mt_db t) ''meta''"
    and "\<exists>st. recovery_state_of cr (lc_env cfg) (mt_db t) = Inr st \<and> approval_matches p st"
  using assms by (auto simp: admit_body_def split: if_splits)

lemma migrate_record_entries:
  "migrate_record cr n t = Inr t' \<Longrightarrow> b \<notin> {''ids'', ''receipt_times'', ''receipt_ids''} \<Longrightarrow>
     db_entries (mt_db t') b = db_entries (mt_db t) b"
  by (erule migrate_record_effect) simp

lemma migrate_loop_entries:
  "b \<notin> {''ids'', ''receipt_times'', ''receipt_ids''} \<Longrightarrow> migrate_loop cr c upto_seq k n pos t = Inr (pos', t') \<Longrightarrow>
     db_entries (mt_db t') b = db_entries (mt_db t) b"
proof (induction k arbitrary: n pos t)
  case (Suc k)
  show ?case
  proof (cases "pos < upto_seq")
    case True
    with Suc.prems(2) obtain u where u: "migrate_record cr (pos + 1) t = Inr u"
        "migrate_loop cr c upto_seq k (n + 1) (pos + 1) u = Inr (pos', t')"
      by auto
    show ?thesis
      using Suc.IH [OF Suc.prems(1) u(2)] migrate_record_entries [OF u(1) Suc.prems(1)] by simp
  qed (use Suc.prems in simp)
qed simp

lemma migrate_body_entries:
  assumes "migrate_body cr c now batch t = Inr (u, t')" "b \<notin> {''meta'', ''ids'', ''receipt_times'', ''receipt_ids''}"
  shows "db_entries (mt_db t') b = db_entries (mt_db t) b"
proof (cases "as_text (meta_get (mt_db t) ''version'') = Some ''2''")
  case True
  with assms(1) show ?thesis by (auto simp: migrate_body_def Let_def split: if_splits)
next
  case False
  with assms(1) obtain t0 pos t1 t2 where
    start: "(if as_text (meta_get (mt_db t) ''version'') = Some ''1'' then migrate_start t else Inr t) = Inr t0"
    and loop: "migrate_loop cr c (meta_uint (mt_db t0) ''legacy_through'') batch 0
                 (meta_uint (mt_db t0) ''backfilled_through'') t0 = Inr (pos, t1)"
    and put: "t_put ''meta'' ''backfilled_through'' (Raw (sequence_key pos)) t1 = Inr t2"
    and fin: "(if pos = meta_uint (mt_db t0) ''legacy_through''
               then t_puts [(''meta'', ''legacy_age_floor'', DTime (utc now)), (''meta'', ''version'', Raw ''2'')] t2
               else Inr t2) = Inr t'"
    by (auto simp: migrate_body_def Let_def simp del: t_puts.simps t_calls_Inr split: if_splits)
  have "db_entries (mt_db t0) b = db_entries (mt_db t) b"
    using start assms(2) migrate_start_effect(4) by (auto split: if_splits)
  moreover have "db_entries (mt_db t1) b = db_entries (mt_db t0) b"
    using migrate_loop_entries [OF _ loop] assms(2) by simp
  moreover have "db_entries (mt_db t') b = db_entries (mt_db t1) b"
    using put fin assms(2) by (auto split: if_splits)
  ultimately show ?thesis by simp
qed

section \<open>Stored captures\<close>

lemma captures_ok_put:
  assumes "captures_ok cfg d" "archived cfg d st" "cs_set st = k"
    and "db_entries d' ''captures'' = aput k (DCapture st) (db_entries d ''captures'')"
    and "meta_get d' ''identity'' = meta_get d ''identity''"
  shows "captures_ok cfg d'"
  unfolding captures_ok_def
proof (intro allI impI)
  fix k' st' assume "(k', DCapture st') \<in> set (db_entries d' ''captures'')"
  with set_aput [of k "DCapture st" "db_entries d ''captures''"] assms(4)
  have "(k', st') = (k, st) \<or> (k', DCapture st') \<in> set (db_entries d ''captures'')" by auto
  then show "cs_set st' = k' \<and> archived cfg d' st'"
    using assms(1-3) archived_identity [OF assms(5)] by (auto simp: captures_ok_def)
qed

lemma captures_ok_same:
  "captures_ok cfg d \<Longrightarrow> db_entries d' ''captures'' = db_entries d ''captures'' \<Longrightarrow>
     meta_get d' ''identity'' = meta_get d ''identity'' \<Longrightarrow> captures_ok cfg d'"
  unfolding captures_ok_def using archived_identity by metis

text \<open>One rule for the capture bucket: a transaction leaves it alone or puts one good record.\<close>

lemma commit_captures:
  assumes "commit cr cfg d d'" "captures_ok cfg d"
  shows "captures_ok cfg d'"
proof -
  note id = commit_identity [OF assms(1)]
  have finished: "db_entries d' ''captures'' = db_entries (mt_db t) ''captures''" if "finish_update io t = Inr d'" for io t
    using same_contentD(3) [OF finish_same_content [OF that]] by simp
  have quiet: ?thesis if "run_update io body d = Inr (a, d')"
    and "\<And>t a. body (begin_tx d) = Inr (a, t) \<Longrightarrow> db_entries (mt_db t) ''captures'' = db_entries d ''captures''"
    for io and a :: 'x and body
  proof -
    from that(1) obtain t where "body (begin_tx d) = Inr (a, t)" "finish_update io t = Inr d'"
      by (auto simp: run_update_Inr)
    then show ?thesis using captures_ok_same [OF assms(2)] that(2) finished id by metis
  qed
  have stored: ?thesis if "finish_update io t = Inr d'" "archived cfg d st" "cs_set st = k"
      "db_entries (mt_db t) ''captures'' = aput k (DCapture st) (db_entries d ''captures'')" for io t st k
    using captures_ok_put [OF assms(2) that(2,3)] that(1,4) finished id by simp
  from assms(1) show ?thesis
  proof cases
    case (c_insert e0 e digest now io c u)
    show ?thesis by (rule quiet [OF c_insert(3)]) (simp add: insert_body_effect(11))
  next
    case (c_migrate now io c batch u)
    show ?thesis by (rule quiet [OF c_migrate(2)]) (simp add: migrate_body_entries)
  next
    case (c_plan p io c now0 st)
    show ?thesis by (rule quiet [OF c_plan(2)]) (auto dest: plan_body_effect(1))
  next
    case (c_apply nows io c op st0 st)
    show ?thesis by (rule quiet [OF c_apply(2)]) (simp add: apply_body_effect(12))
  next
    case (c_abort p st0 now io c st)
    show ?thesis by (rule quiet [OF c_abort(4)]) (auto dest: abort_body_effect(1))
  next
    case (c_save cap io u)
    from c_save(2) obtain t where t: "save_body cap (begin_tx d) = Inr (u, t)" "finish_update io t = Inr d'"
      by (auto simp: run_update_Inr)
    show ?thesis by (rule stored [OF t(2) c_save(1) refl]) (use save_body_effect [OF t(1)] in simp)
  next
    case (c_seal cap io high u)
    from c_seal(2) obtain t where t: "seal_body cap high (begin_tx d) = Inr (u, t)" "finish_update io t = Inr d'"
      by (auto simp: run_update_Inr)
    show ?thesis by (rule stored [OF t(2) c_seal(1) refl]) (use seal_body_effect [OF t(1)] in simp)
  next
    case (c_verify io c nows sid completion ce)
    then obtain t where t: "verify_body cr cfg c nows sid completion (begin_tx d) = Inr (ce, t)" "finish_update io t = Inr d'"
      by (auto simp: run_update_Inr)
    from t(1) show ?thesis
    proof (cases rule: verify_body_effect)
      case again
      then show ?thesis using captures_ok_same [OF assms(2)] finished [OF t(2)] id by simp
    next
      case (new st b p)
      have "(sid, DCapture st) \<in> set (db_entries d ''captures'')"
        using new(1) by (auto simp: db_get_def dest: map_of_SomeD)
      with assms(2) have "cs_set st = sid" "archived cfg d st" by (auto simp: captures_ok_def)
      with new(2) have "archived cfg d (set_capture_status ''verified'' st)" "cs_set (set_capture_status ''verified'' st) = sid"
        by (auto simp: archived_def set_capture_status_def)
      then show ?thesis by (rule stored [OF t(2)]) (use new in simp)
    qed
  next
    case (c_rehydrate io c sid records u)
    show ?thesis by (rule quiet [OF c_rehydrate]) (auto elim!: rehydrate_body_effect simp: only_reads)
  next
    case (c_evict io c through u)
    show ?thesis by (rule quiet [OF c_evict]) (auto elim!: evict_body_effect simp: only_reads)
  next
    case (c_fence io c u)
    show ?thesis by (rule quiet [OF c_fence]) (auto dest: fence_body_effect)
  next
    case (c_admit io c p0 approval rs)
    show ?thesis by (rule quiet [OF c_admit]) (auto dest: admit_body_effect(1))
  qed
qed

lemma commits_captures: "commits cr cfg d d' \<Longrightarrow> captures_ok cfg d \<Longrightarrow> captures_ok cfg d'"
  by (induction rule: commits.induct) (auto intro: commit_captures)

text \<open>Runs of operations.\<close>

lemma serves_commits:
  assumes "serves cr ib ib'" "captures_ok (ib_cfg ib) (ib_db ib)"
  shows "commits cr (ib_cfg ib) (ib_db ib) (ib_db ib') \<and> ib_cfg ib' = ib_cfg ib \<and> captures_ok (ib_cfg ib) (ib_db ib')"
  using assms
proof (induction rule: serves.induct)
  case (idle ib)
  then show ?case by (simp add: commits.none)
next
  case (work ib ib' ib'')
  then have first: "commits cr (ib_cfg ib) (ib_db ib) (ib_db ib')" "ib_cfg ib' = ib_cfg ib"
      "captures_ok (ib_cfg ib') (ib_db ib')"
    by simp_all
  from serve_commits [OF work.hyps(2) first(3)] first commits_captures show ?case
    by (auto intro: commits_trans)
qed

end
