(* ===== verification/Compaction.thy ===== *)
theory Compaction
  imports System
begin

text \<open>
  \<open>billing_compaction.go\<close>: online compaction. A session marks the live store, so that every
  commit also journals its writes; a snapshot is copied to a candidate, the journal is replayed
  on it in batches while other operations go on, and a short exclusive step replays the rest,
  publishes the candidate's manifest and switches to it.
\<close>

section \<open>The session\<close>

text \<open>The journal is dropped and created again outside the recorded writes.\<close>

definition reset_journal :: "db \<Rightarrow> db" where
  "reset_journal d = add_bucket ''mutation_journal'' (adel ''mutation_journal'' d)"

definition session_body :: "bytes \<Rightarrow> mtx \<Rightarrow> go_error + (unit \<times> mtx)" where
  "session_body generation t =
     (if meta_get (mt_db t) ''compaction_session'' \<noteq> None then Inl ErrLifecycleConflict
      else andThen (t_puts [(''meta'', ''manifest_required'', Raw ''1''),
                            (''meta'', ''compaction_session'', Raw generation)] t) (\<lambda>t. Inr ((), t)))"

definition end_session_body :: "mtx \<Rightarrow> go_error + (unit \<times> mtx)" where
  "end_session_body t = andThen (t_del ''meta'' ''compaction_session'' t) (\<lambda>t. Inr ((), t))"

text \<open>
  The first critical section: readiness, the manifest of the current generation when there is
  none yet (\<open>bootstrap\<close> is the outcome of loading and publishing it), the reset of the journal
  (\<open>reset\<close> is the outcome of its commit) and the session itself.
\<close>

definition begin_session ::
    "bolt_io \<Rightarrow> go_error + unit \<Rightarrow> go_error + unit \<Rightarrow> bytes \<Rightarrow> inbox \<Rightarrow> (go_error + unit) \<times> inbox" where
  "begin_session io bootstrap reset generation ib =
     (case andThen (ready (ib_cfg ib) (ib_db ib)) (\<lambda>_. andThen bootstrap (\<lambda>_. reset)) of
        Inl x \<Rightarrow> (Inl x, ib)
      | Inr _ \<Rightarrow> update_locked io (session_body generation) (ib\<lparr>ib_db := reset_journal (ib_db ib)\<rparr>))"

definition end_session :: "bolt_io \<Rightarrow> inbox \<Rightarrow> (go_error + unit) \<times> inbox" where
  "end_session io ib = update_locked io end_session_body ib"

section \<open>The candidate\<close>

record compaction =
  cp_generation :: bytes
  cp_store :: bytes
  cp_candidate :: db
  cp_replayed :: u64

text \<open>The copy: a read transaction, \<open>WriteTo\<close> and \<open>bolt.Compact\<close> reproduce its buckets, keys and sequences.\<close>

definition snapshot :: "bytes \<Rightarrow> bytes \<Rightarrow> db \<Rightarrow> compaction" where
  "snapshot generation store d =
     \<lparr>cp_generation = generation, cp_store = store, cp_candidate = d, cp_replayed = generation_of d\<rparr>"

text \<open>The write-sets of \<open>for g := replayed + 1; g <= stop; g++\<close>; after the largest generation the counter wraps
  to zero, for which the journal has no entry.\<close>

fun collect :: "db \<Rightarrow> u64 list \<Rightarrow> go_error + doc mutation list list" where
  "collect d [] = Inr []"
| "collect d (g # gs) =
     (case as_writes (db_get d ''mutation_journal'' (sequence_key g)) of
        None \<Rightarrow> Inl ErrBillingUnavailable
      | Some ws \<Rightarrow> andThen (collect d gs) (\<lambda>wss. Inr (ws # wss)))"

definition journal_sets :: "db \<Rightarrow> u64 \<Rightarrow> u64 \<Rightarrow> go_error + doc mutation list list" where
  "journal_sets d replayed stop =
     collect d (seq_range (replayed + 1) stop @ (if stop = - 1 then [0] else []))"

text \<open>\<open>replay(batch)\<close>: read under the shared lock, then one transaction on the candidate, whose commit
  has the outcome \<open>saved\<close>. The result is the generation it aimed at.\<close>

definition replay_batch ::
    "u64 \<Rightarrow> go_error + unit \<Rightarrow> db \<Rightarrow> compaction \<Rightarrow> go_error + (u64 \<times> compaction)" where
  "replay_batch batch saved d cp =
     (if as_text (session_of d) \<noteq> Some (cp_generation cp) then Inl ErrLifecycleConflict
      else
        let goal = generation_of d;
            stop = (if goal - cp_replayed cp > batch then cp_replayed cp + batch else goal)
        in andThen (journal_sets d (cp_replayed cp) stop) (\<lambda>sets.
             if sets = [] then Inr (goal, cp)
             else
               andThen (for_state apply_mutations sets (cp_candidate cp)) (\<lambda>candidate.
                 andThen saved (\<lambda>_.
                   Inr (goal, cp\<lparr>cp_candidate := candidate, cp_replayed := cp_replayed cp + of_nat (length sets)\<rparr>)))))"

text \<open>
  The catch-up loop. \<open>live i\<close> is the database that round \<open>i\<close> reads, \<open>elapsed i\<close> the nanoseconds since the
  start after round \<open>i\<close>; the first argument bounds the rounds, \<open>None\<close> means that they did not suffice.
\<close>

definition catch_up_budget :: int where "catch_up_budget = 30 * second"

fun catch_up ::
    "nat \<Rightarrow> ctx \<Rightarrow> nat \<Rightarrow> (nat \<Rightarrow> go_error + unit) \<Rightarrow> (nat \<Rightarrow> db) \<Rightarrow> (nat \<Rightarrow> int) \<Rightarrow> nat \<Rightarrow> compaction \<Rightarrow>
     (go_error + compaction) option" where
  "catch_up 0 c base saved live elapsed i cp = None"
| "catch_up (Suc k) c base saved live elapsed i cp =
     (case andThen (ctx_check c (base + i)) (\<lambda>_. replay_batch 256 (saved i) (live i) cp) of
        Inl x \<Rightarrow> Some (Inl x)
      | Inr (goal, cp) \<Rightarrow>
          if goal - cp_replayed cp \<le> 32 then Some (Inr cp)
          else if elapsed i > catch_up_budget
          then Some (Inl (ErrMsg ''online compaction catch-up did not converge''))
          else catch_up k c base saved live elapsed (i + 1) cp)"

section \<open>The cutover\<close>

text \<open>The final transaction on the candidate, under the exclusive lock.\<close>

definition finish_candidate :: "db \<Rightarrow> compaction \<Rightarrow> go_error + (u64 \<times> db)" where
  "finish_candidate d cp =
     (let final = generation_of d
      in if final < cp_replayed cp \<or> final - cp_replayed cp > 32
         then Inl (ErrMsg ''cutover lag exceeds bounded gate budget'')
         else
           andThen (journal_sets d (cp_replayed cp) final) (\<lambda>sets.
             andThen (for_state apply_mutations sets (cp_candidate cp)) (\<lambda>e.
               if as_text (meta_get e ''identity'') \<noteq> Some (cp_store cp) \<or> generation_of e \<noteq> final
               then Inl ErrBillingUnavailable
               else
                 andThen (db_del ''meta'' ''compaction_session'' e) (\<lambda>e.
                   andThen (db_put ''meta'' ''storage_generation'' (Raw (cp_generation cp)) e) (\<lambda>e.
                     Inr (final, e))))))"

text \<open>
  \<open>ce_ready\<close> is the outcome of the commit, the sync, the time and context checks and the \<open>Lstat\<close> of the
  candidate. Publication can fail after the rename: \<open>PublishFailed True\<close> says that the new manifest is
  visible. \<open>ce_same\<close> is the check of the candidate file after the switch.
\<close>

datatype publication = Published | PublishFailed bool

record cutover_env =
  ce_ready :: "go_error + unit"
  ce_publish :: publication
  ce_same :: bool

definition cutover ::
    "cutover_env \<Rightarrow> compaction \<Rightarrow> inbox \<Rightarrow> (go_error + u64) \<times> inbox \<times> bool" where
  "cutover ev cp ib =
     (if ib_failed ib \<or> ib_closed ib \<or> ib_recovering ib then (Inl ErrBillingUnavailable, ib, False)
      else case andThen (finish_candidate (ib_db ib) cp) (\<lambda>r. andThen (ce_ready ev) (\<lambda>_. Inr r)) of
             Inl x \<Rightarrow> (Inl x, ib, False)
           | Inr (final, e) \<Rightarrow>
               (case ce_publish ev of
                  Published \<Rightarrow>
                    if ce_same ev then (Inr final, ib\<lparr>ib_db := e\<rparr>, True)
                    else (Inl ErrBillingUnavailable, ib\<lparr>ib_db := e, ib_failed := True\<rparr>, True)
                | PublishFailed shown \<Rightarrow>
                    if shown
                    then (Inl (ErrMsg ''publication failed''), ib\<lparr>ib_db := e, ib_failed := True\<rparr>, True)
                    else (Inl (ErrMsg ''publication failed''), ib\<lparr>ib_failed := True\<rparr>, False)))"

section \<open>CompactOnline\<close>

text \<open>
  The whole operation. \<open>co_others\<close> gives what the other operations do to the inbox whenever the
  lock is free: before the snapshot, before each round of the catch-up and before the cutover.
  \<open>co_prepare\<close> stands for the scratch directory, the clean-up of interrupted runs and the check of
  free space, \<open>co_copy\<close> for writing, syncing and opening the files; \<open>co_sound\<close> is bbolt's own check
  of the candidate.
\<close>

record compact_env =
  co_prepare :: "go_error + unit"
  co_generation :: bytes
  co_bootstrap :: "go_error + unit"
  co_reset :: "go_error + unit"
  co_copy :: "go_error + unit"
  co_sound :: bool
  co_saved :: "nat \<Rightarrow> go_error + unit"
  co_elapsed :: "nat \<Rightarrow> int"
  co_synced :: "go_error + unit"
  co_cutover :: cutover_env
  co_io :: "nat \<Rightarrow> bolt_io"
  co_others :: "nat \<Rightarrow> inbox \<Rightarrow> inbox"

text \<open>The inbox that round \<open>i\<close> of the catch-up finds.\<close>

fun later_inbox :: "compact_env \<Rightarrow> nat \<Rightarrow> inbox \<Rightarrow> inbox" where
  "later_inbox ev 0 ib = co_others ev 1 ib"
| "later_inbox ev (Suc i) ib = co_others ev (i + 2) (later_inbox ev i ib)"

definition store_id :: "db \<Rightarrow> bytes" where
  "store_id d = text_or_empty (meta_get d ''identity'')"

definition compact_online ::
    "nat \<Rightarrow> crypto \<Rightarrow> call \<Rightarrow> compact_env \<Rightarrow> inbox \<Rightarrow> ((go_error + u64) \<times> inbox) option" where
  "compact_online k cr c ev ib =
     (let cfg = ib_cfg ib
      in if \<not> lc_compact cfg then Some (Inl ErrLifecycleConflict, ib)
         else case andThen (health c 0 0 ib) (\<lambda>_. andThen (ready cfg (ib_db ib)) (\<lambda>_. co_prepare ev)) of
           Inl x \<Rightarrow> Some (Inl x, ib)
         | Inr _ \<Rightarrow>
             (case begin_session (co_io ev 0) (co_bootstrap ev) (co_reset ev) (co_generation ev) ib of
                (Inl x, ib) \<Rightarrow> Some (Inl x, ib)
              | (Inr _, ib1) \<Rightarrow>
                  let ib2 = co_others ev 0 ib1; cp = snapshot (co_generation ev) (store_id (ib_db ib1)) (ib_db ib2);
                      give_up = (\<lambda>x n ib. case end_session (co_io ev 1) (co_others ev n ib) of (_, ib) \<Rightarrow> Some (Inl x, ib))
                  in case andThen (co_copy ev) (\<lambda>_.
                            audit_lifecycle cr (cl_ctx c) 1 (co_sound ev) (lc_env cfg) (lc_sources cfg)
                              (Some (lc_keys cfg)) (cp_candidate cp)) of
                       Inl x \<Rightarrow> give_up x 1 ib2
                     | Inr _ \<Rightarrow>
                         (case catch_up k (cl_ctx c) 1 (co_saved ev) (\<lambda>i. ib_db (later_inbox ev i ib2)) (co_elapsed ev) 0 cp of
                            None \<Rightarrow> None
                          | Some (Inl x) \<Rightarrow> give_up x (k + 2) (later_inbox ev k ib2)
                          | Some (Inr cp) \<Rightarrow>
                              let ib3 = later_inbox ev k ib2
                              in (case co_synced ev of
                                    Inl x \<Rightarrow> give_up x (k + 2) ib3
                                  | Inr _ \<Rightarrow>
                                      (case cutover (co_cutover ev) cp ib3 of
                                         (r, ib4, True) \<Rightarrow> Some (r, ib4)
                                       | (r, ib4, False) \<Rightarrow>
                                           (case end_session (co_io ev 1) ib4 of (_, ib5) \<Rightarrow> Some (r, ib5)))))))"

end
