(* ===== verification/CompactionProperties.thy ===== *)
theory CompactionProperties
  imports Compaction ArchiveSample
begin

text \<open>
  Online compaction loses nothing: an invariant ties the candidate and the journal to the live
  database while other operations commit, and the cutover replaces the live database by one
  with the same contents. The catch-up ends, and a store that stands still is caught up.
\<close>

section \<open>Stretches of the journal\<close>

definition between :: "u64 \<Rightarrow> u64 \<Rightarrow> u64 list" where
  "between a b = map of_nat [Suc (unat a)..<Suc (unat b)]"

lemma between_self [simp]: "between a a = []"
  by (simp add: between_def)

lemma between_seq_range: "a \<noteq> - 1 \<Longrightarrow> seq_range (a + 1) b = between a b"
  by (simp add: seq_range_def between_def u64_Suc(1))

lemma between_length: "length (between a b) = unat b - unat a"
  by (simp add: between_def del: upt_Suc)

lemma set_between: "set (between a b) = {n. a < n \<and> n \<le> b}"
proof (cases "a = - 1")
  case True
  have "unat b < Suc (unat (- 1 :: u64))" by (metis le_imp_less_Suc word_le_nat_alt word_order.extremum)
  then have "between a b = []" by (simp add: between_def True)
  moreover have "\<not> a < n" for n using True by (simp add: word_order.not_eq_extremum)
  ultimately show ?thesis by simp
next
  case False
  have "a < n \<longleftrightarrow> a + 1 \<le> n" for n
    using u64_Suc [OF False] by (metis inc_le less_le_trans)
  then show ?thesis using set_seq_range [of "a + 1" b] between_seq_range [OF False, of b] by simp
qed

lemma between_split: "a \<le> m \<Longrightarrow> m \<le> b \<Longrightarrow> between a b = between a m @ between m b"
  using upt_add_eq_append [of "Suc (unat a)" "Suc (unat m)" "unat b - unat m"]
  by (simp add: between_def word_le_nat_alt del: upt_Suc flip: map_append)

lemma between_Suc:
  assumes "a \<le> f" "f \<noteq> - 1" shows "between a (f + 1) = between a f @ [f + 1]"
proof -
  have "between f (f + 1) = [f + 1]" by (simp add: between_def u64_Suc(1) [OF assms(2)])
  then show ?thesis
    using between_split [OF assms(1), of "f + 1"] u64_Suc(2) [OF assms(2)] by simp
qed

abbreviation entry_of :: "db \<Rightarrow> u64 \<Rightarrow> doc mutation list option" where
  "entry_of d g \<equiv> as_writes (db_get d ''mutation_journal'' (sequence_key g))"

lemma collect_append:
  "collect d (xs @ ys) = andThen (collect d xs) (\<lambda>a. andThen (collect d ys) (\<lambda>b. Inr (a @ b)))"
proof (induction xs)
  case Nil
  show ?case by (cases "collect d ys") simp_all
next
  case (Cons x xs)
  show ?case
    by (cases "entry_of d x"; cases "collect d xs"; cases "collect d ys") (simp_all add: Cons)
qed

lemma collect_cong: "(\<And>g. g \<in> set xs \<Longrightarrow> entry_of d g = entry_of d' g) \<Longrightarrow> collect d xs = collect d' xs"
  by (induction xs) (auto split: option.splits)

lemma collect_present: "collect d xs = Inr sets \<Longrightarrow> g \<in> set xs \<Longrightarrow> entry_of d g \<noteq> None"
  by (induction xs arbitrary: sets) (auto split: option.splits)

lemma collect_length: "collect d xs = Inr sets \<Longrightarrow> length sets = length xs"
  by (induction xs arbitrary: sets) (auto split: option.splits)

section \<open>The invariant of a session\<close>

text \<open>The journal has nothing above the current generation and nothing under zero.\<close>

definition journal_bounded :: "db \<Rightarrow> bool" where
  "journal_bounded d =
     (entry_of d 0 = None \<and> (\<forall>g. generation_of d < g \<longrightarrow> entry_of d g = None))"

text \<open>
  The candidate can be brought to a generation \<open>f\<close> by the journal. Either that is the current one,
  and the result agrees with the live database, or the session was dropped there and the next
  entry is missing for ever.
\<close>

definition in_step :: "compaction \<Rightarrow> db \<Rightarrow> bool" where
  "in_step cp d =
     (journal_bounded d \<and> version2 d
      \<and> (\<exists>f sets e. cp_replayed cp \<le> f \<and> f \<le> generation_of d
           \<and> collect d (between (cp_replayed cp) f) = Inr sets
           \<and> for_state apply_mutations sets (cp_candidate cp) = Inr e
           \<and> (if f = generation_of d then same_domain e d else entry_of d (f + 1) = None)))"

lemma in_step_snapshot: "journal_bounded d \<Longrightarrow> version2 d \<Longrightarrow> in_step (snapshot g s d) d"
  unfolding in_step_def snapshot_def
  by (auto intro!: exI [of _ "generation_of d"])

lemma journal_step_bounded:
  assumes "journal_step d d'" "journal_bounded d"
  shows "journal_bounded d'"
proof (cases "d' = d")
  case False
  with assms(1) have g: "generation_of d \<noteq> - 1" "generation_of d' = generation_of d + 1"
    and e: "entry_of d' x = entry_of d x \<or> x = generation_of d + 1" for x
    by (auto simp: journal_step_def db_get_def)
  note suc = u64_Suc [OF g(1)]
  have "0 \<noteq> generation_of d + 1" using suc(2) by auto
  moreover have "entry_of d' x = None" if "generation_of d + 1 < x" for x
    using e [of x] that assms(2) suc(2) by (auto simp: journal_bounded_def)
  ultimately show ?thesis using e [of 0] assms(2) g(2) by (auto simp: journal_bounded_def)
qed (use assms in simp)

lemma in_step_step:
  assumes "in_step cp d" "journal_step d d'"
  shows "in_step cp d'"
proof (cases "d' = d")
  case False
  let ?g = "generation_of d"
  from assms(1) obtain f sets e where bnd: "journal_bounded d" and ver: "version2 d"
    and f: "cp_replayed cp \<le> f" "f \<le> ?g"
    and sets: "collect d (between (cp_replayed cp) f) = Inr sets" "for_state apply_mutations sets (cp_candidate cp) = Inr e"
    and tail: "if f = ?g then same_domain e d else entry_of d (f + 1) = None"
    unfolding in_step_def by blast
  from assms(2) False have g: "?g \<noteq> - 1" "generation_of d' = ?g + 1" "version2 d'"
    and kept: "entry_of d' x = entry_of d x \<or> x = ?g + 1" for x
    using ver by (auto simp: journal_step_def db_get_def)
  note suc = u64_Suc [OF g(1)]
  have bnd': "journal_bounded d'" by (rule journal_step_bounded [OF assms(2) bnd])
  have same: "collect d' (between (cp_replayed cp) f) = Inr sets"
  proof -
    have "entry_of d' x = entry_of d x" if "x \<in> set (between (cp_replayed cp) f)" for x
    proof -
      have "x \<noteq> ?g + 1" using that f(2) suc(2) by (auto simp: set_between)
      with kept show ?thesis by blast
    qed
    then show ?thesis using sets(1) collect_cong by metis
  qed
  have less: "f < generation_of d'" using f(2) g(2) suc(2) by (simp add: le_less_trans)
  have lag: ?thesis if "entry_of d' (f + 1) = None"
    unfolding in_step_def using bnd' g(3) f(1) less same sets(2) that
    by (intro conjI exI [of _ f] exI [of _ sets] exI [of _ e]) (auto simp: less_imp_le)
  show ?thesis
  proof (cases "f = ?g")
    case False
    then have "f \<noteq> - 1" using f(2) by (auto simp: word_order.extremum_unique)
    have "f + 1 \<noteq> ?g + 1" using False by simp
    with kept [of "f + 1"] tail False show ?thesis by (intro lag) simp
  next
    case True
    from assms(2) \<open>d' \<noteq> d\<close> consider
        "db_entries d' ''mutation_journal'' = db_entries d ''mutation_journal''"
      | ws u where "db_entries d' ''mutation_journal'' =
                        aput (sequence_key (?g + 1)) (DWrites ws) (db_entries d ''mutation_journal'')"
          "apply_mutations ws d = Inr u" "same_domain u d'"
      by (auto simp: journal_step_def)
    then show ?thesis
    proof cases
      case 1
      then have "entry_of d' (f + 1) = None"
        using bnd suc(2) True by (simp add: db_get_def journal_bounded_def)
      then show ?thesis by (rule lag)
    next
      case (2 ws u)
      from tail True have "same_domain d e" by (simp add: same_domain_sym)
      from apply_mutations_same_domain [OF this 2(2)] obtain e' where
        e': "apply_mutations ws e = Inr e'" "same_domain u e'" by blast
      have "same_domain e' d'" using e'(2) 2(3) by (meson same_domain_sym same_domain_trans)
      moreover have "collect d' (between (cp_replayed cp) (?g + 1)) = Inr (sets @ [ws])"
      proof -
        have "entry_of d' (?g + 1) = Some ws" by (simp add: db_get_def 2(1))
        with same True show ?thesis by (simp add: between_Suc [OF f(1) [unfolded True] g(1)] collect_append)
      qed
      moreover have "for_state apply_mutations (sets @ [ws]) (cp_candidate cp) = Inr e'"
        using sets(2) e'(1) by (simp add: for_state_append)
      ultimately show ?thesis
        unfolding in_step_def using bnd' g(2,3) f(1) True suc(2)
        by (intro conjI exI [of _ "?g + 1"] exI [of _ "sets @ [ws]"] exI [of _ e']) (auto intro: less_imp_le le_less_trans)
    qed
  qed
qed (use assms in simp)

text \<open>What a replay can read is what the invariant says.\<close>

lemma journal_sets_Inr:
  assumes "journal_sets d r stop = Inr sets" "journal_bounded d"
  shows "collect d (between r stop) = Inr sets" "stop \<noteq> - 1"
proof -
  let ?l = "seq_range (r + 1) stop @ (if stop = - 1 then [0] else [])"
  have l: "collect d ?l = Inr sets" using assms(1) by (simp add: journal_sets_def)
  have zero: "0 \<notin> set ?l" using collect_present [OF l, of 0] assms(2) by (auto simp: journal_bounded_def)
  show stop: "stop \<noteq> - 1" using zero by (auto split: if_splits)
  have "r \<noteq> - 1"
  proof
    assume "r = - 1"
    then have "0 \<in> set (seq_range (r + 1) stop)" by (simp add: set_seq_range)
    with zero show False by simp
  qed
  then show "collect d (between r stop) = Inr sets" using l stop by (simp add: between_seq_range)
qed

lemma in_step_covers:
  assumes "in_step cp d" "collect d (between (cp_replayed cp) stop) = Inr sets"
    and stop: "cp_replayed cp \<le> stop" "stop \<le> generation_of d"
  obtains f more e u where "stop \<le> f" "f \<le> generation_of d" "collect d (between stop f) = Inr more"
    "for_state apply_mutations sets (cp_candidate cp) = Inr u" "for_state apply_mutations more u = Inr e"
    "if f = generation_of d then same_domain e d else entry_of d (f + 1) = None"
proof -
  from assms(1) obtain f all e where f: "cp_replayed cp \<le> f" "f \<le> generation_of d"
    and all: "collect d (between (cp_replayed cp) f) = Inr all" "for_state apply_mutations all (cp_candidate cp) = Inr e"
    and tail: "if f = generation_of d then same_domain e d else entry_of d (f + 1) = None"
    unfolding in_step_def by blast
  have reach: "stop \<le> f"
  proof (rule ccontr)
    assume "\<not> stop \<le> f"
    then have less: "f < stop" by simp
    then have "f \<noteq> - 1" using word_order.extremum [of stop] by (metis not_le)
    then have "f + 1 \<in> set (between (cp_replayed cp) stop)"
      using less f(1) u64_Suc(2) inc_le by (auto simp: set_between intro: le_less_trans)
    with collect_present [OF assms(2)] have "entry_of d (f + 1) \<noteq> None" by blast
    with tail less stop(2) show False by (auto split: if_splits)
  qed
  from all(1) between_split [OF stop(1) reach] assms(2) obtain more where
    more: "collect d (between stop f) = Inr more" "all = sets @ more"
    by (auto simp: collect_append)
  from all(2) more(2) obtain u where "for_state apply_mutations sets (cp_candidate cp) = Inr u"
      "for_state apply_mutations more u = Inr e"
    by (auto simp: for_state_append)
  with reach f(2) more(1) tail show thesis by (intro that)
qed

lemma replay_batch_in_step:
  assumes "in_step cp d" "replay_batch batch saved d cp = Inr (goal, cp')"
  shows "in_step cp' d" "cp_generation cp' = cp_generation cp" "cp_store cp' = cp_store cp" "goal = generation_of d"
    "cp_replayed cp' \<le> generation_of d"
    "unat (cp_replayed cp') = min (unat (generation_of d)) (unat (cp_replayed cp) + unat batch)"
proof -
  let ?g = "generation_of d" and ?r = "cp_replayed cp"
  let ?stop = "if ?g - ?r > batch then ?r + batch else ?g"
  have bnd: "journal_bounded d" and ver: "version2 d" and r: "?r \<le> ?g"
    using assms(1) by (auto simp: in_step_def intro: order.trans)
  from assms(2) obtain sets where sets: "journal_sets d ?r ?stop = Inr sets" and goal: "goal = ?g"
    and cp': "sets = [] \<and> cp' = cp \<or> (\<exists>u. for_state apply_mutations sets (cp_candidate cp) = Inr u
        \<and> cp' = cp\<lparr>cp_candidate := u, cp_replayed := ?r + of_nat (length sets)\<rparr>)"
    by (auto simp: replay_batch_def Let_def split: if_splits)
  have diff: "unat (?g - ?r) = unat ?g - unat ?r" using r by (simp add: unat_sub)
  have stop: "?r \<le> ?stop" "?stop \<le> ?g" "unat ?stop = min (unat ?g) (unat ?r + unat batch)"
  proof -
    have "unat (?r + batch) = unat ?r + unat batch" if "?g - ?r > batch"
    proof -
      have "unat ?g < 2 ^ LENGTH(64)" by (rule unsigned_less)
      then have "unat ?r + unat batch < 2 ^ LENGTH(64)"
        using that diff r by (simp add: word_less_nat_alt word_le_nat_alt)
      then show ?thesis by (rule unat_add_lem [THEN iffD1])
    qed
    then show "unat ?stop = min (unat ?g) (unat ?r + unat batch)"
      using diff r by (auto simp: word_less_nat_alt word_le_nat_alt)
    then show "?r \<le> ?stop" "?stop \<le> ?g" using r by (auto simp: word_le_nat_alt)
  qed
  note coll = journal_sets_Inr(1) [OF sets bnd]
  from in_step_covers [OF assms(1) coll stop(1,2)] obtain f more e u where
    f: "?stop \<le> f" "f \<le> ?g" "collect d (between ?stop f) = Inr more"
    and u: "for_state apply_mutations sets (cp_candidate cp) = Inr u" "for_state apply_mutations more u = Inr e"
    and tail: "if f = ?g then same_domain e d else entry_of d (f + 1) = None" .
  have len: "length sets = unat ?stop - unat ?r" using collect_length [OF coll] by (simp add: between_length)
  have at: "?r + of_nat (length sets) = ?stop"
  proof -
    have "unat ?r \<le> unat ?stop" using stop(1) by (simp add: word_le_nat_alt)
    then have "of_nat (unat ?stop - unat ?r) = ?stop - ?r" by (simp add: of_nat_diff)
    with len show ?thesis by simp
  qed
  have new: "cp_candidate cp' = u" "cp_replayed cp' = ?stop" "cp_generation cp' = cp_generation cp" "cp_store cp' = cp_store cp"
    using cp' u(1) at by auto
  show "in_step cp' d"
    unfolding in_step_def new using bnd ver f u(2) tail by blast
  show "goal = ?g" by (rule goal)
  show "cp_generation cp' = cp_generation cp" "cp_store cp' = cp_store cp" using new by simp_all
  show "cp_replayed cp' \<le> ?g" "unat (cp_replayed cp') = min (unat ?g) (unat ?r + unat batch)"
    using stop(2,3) new(2) by simp_all
qed

section \<open>The cutover\<close>

text \<open>
  \<open>takes_over d d'\<close>: the new database has the contents of the old one, but for the bookkeeping of
  compaction itself.
\<close>

definition takes_over :: "bytes \<Rightarrow> db \<Rightarrow> db \<Rightarrow> bool" where
  "takes_over generation d d' =
     ((\<forall>b. b \<notin> {''meta'', ''mutation_journal''} \<longrightarrow> aget d' b = aget d b)
      \<and> db_has d ''meta'' \<and> db_has d' ''meta''
      \<and> meta_get d' ''compaction_session'' = None \<and> meta_get d' ''storage_generation'' = Some (Raw generation)
      \<and> (\<forall>k. k \<notin> {''compaction_session'', ''storage_generation''} \<longrightarrow> meta_get d' k = meta_get d k))"

lemma takes_over_reads:
  assumes "takes_over g d d'" "b \<notin> {''meta'', ''mutation_journal''}"
  shows "db_has d' b = db_has d b" "db_get d' b = db_get d b" "db_seq d' b = db_seq d b" "db_entries d' b = db_entries d b"
  using assms by (auto simp: takes_over_def db_has_def db_get_def db_seq_def db_entries_def fun_eq_iff)

lemma takes_over_ledger: "takes_over g d d' \<Longrightarrow> ledger_same d d'"
proof -
  assume over: "takes_over g d d'"
  have buckets: "db_has d' b = db_has d b" "db_get d' b = db_get d b" "db_seq d' b = db_seq d b"
    if "b \<in> {''events'', ''ids'', ''receipt_ids'', ''receipt_times'', ''archive_cache''}" for b
    using that takes_over_reads [OF over, of b] by auto
  have has: "db_has d' ''meta'' = db_has d ''meta''"
    and kept: "\<forall>k. k \<notin> {''compaction_session'', ''storage_generation''} \<longrightarrow> meta_get d' k = meta_get d k"
    using over unfolding takes_over_def by blast+
  have meta: "meta_get d' k = meta_get d k"
    if "k \<in> {''version'', ''archive_floor'', ''legacy_through'', ''backfilled_through''}" for k
  proof -
    have "k \<notin> {''compaction_session'', ''storage_generation''}" using that by auto
    with kept show ?thesis by blast
  qed
  show ?thesis unfolding ledger_same_def by (simp add: buckets meta has)
qed

lemma finish_candidate_takes_over:
  assumes "in_step cp d" "finish_candidate d cp = Inr (final, d')"
  shows "takes_over (cp_generation cp) d d' \<and> final = generation_of d"
proof -
  let ?g = "generation_of d"
  have bnd: "journal_bounded d" and r: "cp_replayed cp \<le> ?g"
    using assms(1) by (auto simp: in_step_def intro: order.trans)
  from assms(2) obtain sets e where sets: "journal_sets d (cp_replayed cp) ?g = Inr sets"
    and e: "for_state apply_mutations sets (cp_candidate cp) = Inr e"
    and has: "db_has e ''meta''" and final: "final = ?g"
    and d': "d' = set_key ''meta'' ''storage_generation'' (Raw (cp_generation cp)) (del_key ''meta'' ''compaction_session'' e)"
    by (auto simp: finish_candidate_def Let_def split: if_splits)
  from in_step_covers [OF assms(1) journal_sets_Inr(1) [OF sets bnd] r order.refl] obtain more u e' where
    "collect d (between ?g ?g) = Inr more" "for_state apply_mutations sets (cp_candidate cp) = Inr u"
    "for_state apply_mutations more u = Inr e'" "same_domain e' d"
    using order.antisym by (smt (verit, best))
  then have same: "same_domain e d" using e by simp
  note reads = same_domain_reads [OF same]
  have other: "aget d' b = aget d b" if "b \<notin> {''meta'', ''mutation_journal''}" for b
    using that same by (simp add: d' bucket_after same_domain_def)
  have meta: "db_has d ''meta''" "db_has d' ''meta''" using has reads(1) [of "''meta''"] by (simp_all add: d')
  have "meta_get d' k = (if k = ''storage_generation'' then Some (Raw (cp_generation cp))
      else if k = ''compaction_session'' then None else meta_get d k)" for k
    using has reads(3) [of "''meta''"] by (simp add: d')
  with other meta final show ?thesis by (simp add: takes_over_def)
qed

end
