(* ===== verification/Growth.thy ===== *)
theory Growth
  imports Effects CompactionProperties
begin

text \<open>
  The ledger under the whole program: whatever operations run, and whatever their outcome, the
  ledger the database represents only grows at its end. A consumer that follows its cursor
  therefore sees every entry once, in order.
\<close>

section \<open>The cache\<close>

lemma decoded_body_ok:
  assumes "decode_billing_record cr (Some body) n = Inr r"
  shows "body_ok cr n (ev_id (br_event r), br_digest r) body"
proof -
  from assms have r: "body = DRecord r" "br_seq r = n"
    by (auto simp: decode_billing_record_def split: option.splits sum.splits if_splits)
  with assms obtain e' where "billing_binding cr (br_event r) = Inr (e', br_digest r)"
    by (auto simp: decode_billing_record_def split: sum.splits if_splits)
  with r show ?thesis by (cases r) (auto simp: body_ok_def billing_binding_Inr)
qed

lemma cached_slot:
  assumes "slot_ok cr d n x"
    and reads: "archive_floor d' = archive_floor d" "legacy_seq d' n = legacy_seq d n"
      "meta_uint d' ''legacy_through'' = meta_uint d ''legacy_through''"
      "\<And>b k. b \<noteq> ''archive_cache'' \<Longrightarrow> db_get d' b k = db_get d b k"
    and cache: "\<And>body b. \<not> archive_floor d < n \<Longrightarrow> db_get d' ''archive_cache'' (sequence_key n) = Some body \<Longrightarrow>
      db_get d ''ids'' (fst x) = Some (DBinding b) \<Longrightarrow>
      db_get d ''archive_cache'' (sequence_key n) = Some body \<or> body_ok cr n x body \<and> rb_record b = sha cr body"
  shows "slot_ok cr d' n x"
proof -
  have rec: "receipt_ok d' n x = receipt_ok d n x"
    by (simp add: fun_eq_iff receipt_ok_def reads(3) reads(4))
  show ?thesis
  proof (cases "archive_floor d < n")
    case True
    with assms(1) show ?thesis by (simp only: slot_ok_def reads rec) (auto simp: reads)
  next
    case False
    from assms(1) False show ?thesis
    proof (rule slot_retired)
      fix b
      assume ev: "db_get d ''events'' (sequence_key n) = None" "\<not> legacy_seq d n"
        and b: "db_get d ''ids'' (fst x) = Some (DBinding b)" "receipt_ok d n x b"
        and old: "\<And>body. db_get d ''archive_cache'' (sequence_key n) = Some body \<Longrightarrow> body_ok cr n x body \<and> rb_record b = sha cr body"
      show ?thesis
        by (rule slot_retiredI [where b = b]) (use False ev b old cache in \<open>auto simp: reads rec\<close>)
    qed
  qed
qed

lemma cache_put_represents:
  assumes rep: "represents cr d L" and dec: "decode_billing_record cr (Some body) n = Inr r"
    and bound: "bound_receipt cr d r n (Some body)" and low: "n \<le> archive_floor d"
  shows "represents cr (set_key ''archive_cache'' (sequence_key n) body d) L"
proof -
  let ?d = "set_key ''archive_cache'' (sequence_key n) body d"
  from bound obtain b where b: "db_get d ''ids'' (ev_id (br_event r)) = Some (DBinding b)" "rb_seq b = n"
      "rb_content b = br_digest r" "rb_record b = sha cr body"
    by (auto simp: bound_receipt_def split: option.splits)
  from represents_binding [OF rep b(1)] b(2,3) have n: "entry L n = (ev_id (br_event r), br_digest r)" by simp
  have leg: "legacy_seq ?d m = legacy_seq d m" for m by (simp add: legacy_seq_def)
  have slots: "slot_ok cr ?d m (entry L m)" if m: "1 \<le> m" "m \<le> db_seq d ''events''" for m
  proof (rule cached_slot)
    show "slot_ok cr d m (entry L m)" using rep m by (simp add: represents_def)
    fix x b'
    assume x: "db_get ?d ''archive_cache'' (sequence_key m) = Some x" "db_get d ''ids'' (fst (entry L m)) = Some (DBinding b')"
    show "db_get d ''archive_cache'' (sequence_key m) = Some x \<or> body_ok cr m (entry L m) x \<and> rb_record b' = sha cr x"
    proof (cases "m = n")
      case True
      with x b(1) n have "x = body \<or> db_get d ''archive_cache'' (sequence_key m) = Some x" "b' = b"
        by (auto split: if_splits)
      then show ?thesis using decoded_body_ok [OF dec] b(4) n True by auto
    qed (use x in \<open>auto split: if_splits\<close>)
  qed (simp_all add: leg)
  have ver: "versioned ?d" using rep by (simp add: represents_def versioned_def)
  have "db_get ?d ''archive_cache'' (sequence_key m) = None" if "archive_floor d < m" for m
    using rep low that by (auto simp: represents_def)
  with rep ver slots show ?thesis by (simp add: represents_def)
qed

lemma cache_del_represents:
  assumes rep: "represents cr d L"
  shows "represents cr (del_key ''archive_cache'' k d) L"
proof -
  let ?d = "del_key ''archive_cache'' k d"
  have leg: "legacy_seq ?d m = legacy_seq d m" for m by (simp add: legacy_seq_def)
  have slots: "slot_ok cr ?d m (entry L m)" if m: "1 \<le> m" "m \<le> db_seq d ''events''" for m
    by (rule cached_slot [of cr d]) (use rep m in \<open>auto simp: represents_def leg split: if_splits\<close>)
  have ver: "versioned ?d" using rep by (simp add: represents_def versioned_def)
  with rep slots show ?thesis by (simp add: represents_def)
qed

lemma validated_export: "validate_export_record cr e = Inr r \<Longrightarrow> decode_billing_record cr (Some (ex_record e)) (ex_seq e) = Inr r"
  by (auto simp: validate_export_record_def split: sum.splits if_splits)

lemma rehydrate_loop_represents:
  assumes "for_state (rehydrate_record cr cfg c m (archive_floor (mt_db t))) records (i, prev, bytes, t) = Inr (i', prev', bytes', t')"
    and rep: "represents cr (mt_db t) L"
  shows "represents cr (mt_db t') L"
proof -
  let ?fl = "archive_floor (mt_db t)"
  let ?I = "\<lambda>s. represents cr (mt_db (snd (snd (snd s)))) L \<and> archive_floor (mt_db (snd (snd (snd s)))) = ?fl"
  have "?I (i', prev', bytes', t')"
  proof (rule for_state_invariant [OF assms(1), of ?I])
    fix e s s'
    assume ok: "?I s" and step: "rehydrate_record cr cfg c m ?fl e s = Inr s'"
    obtain i1 p1 b1 t1 i2 p2 b2 t2 where s: "s = (i1, p1, b1, t1)" "s' = (i2, p2, b2, t2)" by (metis prod_cases4)
    from step [unfolded s] obtain r where r: "validate_export_record cr e = Inr r"
        "bound_receipt cr (mt_db t1) r (ex_seq e) (Some (ex_record e))" "ex_seq e \<le> ?fl"
        "mt_db t2 = set_key ''archive_cache'' (sequence_key (ex_seq e)) (ex_record e) (mt_db t1)"
      by (rule rehydrate_record_step)
    have "represents cr (mt_db t2) L"
      unfolding r(4) by (rule cache_put_represents [OF _ validated_export [OF r(1)] r(2)]) (use ok r(3) s in auto)
    with ok r(4) s show "?I s'" by simp
  qed (use rep in simp)
  then show ?thesis by simp
qed

lemma evict_loop_represents:
  "evict_loop c through kvs n bytes t = Inr (used, t') \<Longrightarrow> represents cr (mt_db t) L \<Longrightarrow> represents cr (mt_db t') L"
proof (induction kvs arbitrary: n bytes t)
  case (Cons kv kvs)
  obtain k v where kv: "kv = (k, v)" by fastforce
  show ?case
  proof (cases "key_uint k \<le> through \<and> n < 1000")
    case True
    with Cons.prems(1) kv obtain x where x: "t_del ''archive_cache'' k t = Inr x"
        "evict_loop c through kvs (n + 1) (bytes - cached_len (Some v)) x = Inr (used, t')"
      by (auto simp del: t_calls_Inr split: if_splits)
    have "represents cr (mt_db x) L" using cache_del_represents [OF Cons.prems(2), of k] x(1) by auto
    from Cons.IH [OF x(2) this] show ?thesis .
  qed (use Cons.prems kv in auto)
qed simp

section \<open>Every commit\<close>

text \<open>The invariant: the database represents the ledger and its operations have ordered ranges.\<close>

definition keeps :: "crypto \<Rightarrow> db \<Rightarrow> ledger \<Rightarrow> bool" where
  "keeps cr d L = (represents cr d L \<and> ranges_ordered d)"

lemma ranges_ordered_same:
  "ranges_ordered d \<Longrightarrow> db_get d' ''operations'' = db_get d ''operations'' \<Longrightarrow> ranges_ordered d'"
  by (simp add: ranges_ordered_def)

lemma ranges_ordered_put:
  "ranges_ordered d \<Longrightarrow> rs_from st \<le> rs_through st \<Longrightarrow>
     (\<And>k. db_get d' ''operations'' k = Some (DStatus st) \<or> db_get d' ''operations'' k = db_get d ''operations'' k) \<Longrightarrow>
     ranges_ordered d'"
  unfolding ranges_ordered_def by (metis doc.inject(5) option.inject)

lemma keeps_same_content: "same_content d d' \<Longrightarrow> keeps cr d' L = keeps cr d L"
  using same_contentD(4) [of d d' "''operations''"] by (simp add: keeps_def represents_same_content ranges_ordered_def)

lemma keeps_ledger_same:
  "keeps cr d L \<Longrightarrow> ledger_same d d' \<Longrightarrow> ranges_ordered d' \<Longrightarrow> keeps cr d' L"
  by (simp add: keeps_def ledger_same_represents)

lemma plan_range:
  assumes "status_of_plan p st"
  shows "rs_from st = rp_from p" "rs_through st = rp_through p"
  using arg_cong [OF assms [unfolded status_of_plan_def], of rs_from]
    arg_cong [OF assms [unfolded status_of_plan_def], of rs_through]
  by (simp_all add: status_for_def)

lemma seal_status_range [simp]: "rs_from (seal_status cr st) = rs_from st" "rs_through (seal_status cr st) = rs_through st"
  by (simp_all add: seal_status_def Let_def)

lemma apply_keeps:
  assumes ok: "keeps cr d L" and app: "apply_body cr cfg c now op st (begin_tx d) = Inr (st', t)"
  shows "keeps cr (mt_db t) L"
proof -
  note E = apply_body_effect [OF app, simplified]
  have range: "rs_from st \<le> rs_through st" using E(3) ok by (auto simp: keeps_def ranges_ordered_def)
  have "represents cr (mt_db t) L"
    using apply_body_represents(1) [of cr "begin_tx d" L, OF _ app range] ok by (simp add: keeps_def)
  moreover have "ranges_ordered (mt_db t)"
    using ok range E(11) by (auto simp: keeps_def ranges_ordered_def)
  ultimately show ?thesis by (simp add: keeps_def)
qed

text \<open>A put of a status with an ordered range.\<close>

lemma status_put_keeps:
  assumes "keeps cr d L" "rs_from st \<le> rs_through st"
  shows "keeps cr (set_key ''operations'' k (DStatus st) d) L"
proof -
  have "ranges_ordered (set_key ''operations'' k (DStatus st) d)"
    by (rule ranges_ordered_put [of d st]) (use assms in \<open>auto simp: keeps_def\<close>)
  then show ?thesis by (rule keeps_ledger_same [OF assms(1) ledger_same_set_key(1), rotated]) simp
qed

lemma other_put_keeps:
  "keeps cr d L \<Longrightarrow> b \<notin> {''meta'', ''events'', ''ids'', ''receipt_ids'', ''receipt_times'', ''archive_cache'', ''operations''} \<Longrightarrow>
     keeps cr (set_key b k v d) L"
  "keeps cr d L \<Longrightarrow> k \<notin> {''version'', ''archive_floor'', ''legacy_through'', ''backfilled_through''} \<Longrightarrow>
     keeps cr (set_key ''meta'' k v d) L"
  "keeps cr d L \<Longrightarrow> k \<notin> {''version'', ''archive_floor'', ''legacy_through'', ''backfilled_through''} \<Longrightarrow>
     keeps cr (del_key ''meta'' k d) L"
proof -
  have same: "keeps cr d L \<Longrightarrow> ledger_same d d' \<Longrightarrow> db_get d' ''operations'' = db_get d ''operations'' \<Longrightarrow> keeps cr d' L" for d'
    by (rule keeps_ledger_same) (auto intro: ranges_ordered_same [of d] simp: keeps_def)
  show "keeps cr d L \<Longrightarrow> b \<notin> {''meta'', ''events'', ''ids'', ''receipt_ids'', ''receipt_times'', ''archive_cache'', ''operations''} \<Longrightarrow>
     keeps cr (set_key b k v d) L"
    by (rule same, assumption, rule ledger_same_set_key(1)) (auto simp: fun_eq_iff)
  show "keeps cr d L \<Longrightarrow> k \<notin> {''version'', ''archive_floor'', ''legacy_through'', ''backfilled_through''} \<Longrightarrow>
     keeps cr (set_key ''meta'' k v d) L"
    by (rule same, assumption, erule ledger_same_set_key(2)) (auto simp: fun_eq_iff)
  show "keeps cr d L \<Longrightarrow> k \<notin> {''version'', ''archive_floor'', ''legacy_through'', ''backfilled_through''} \<Longrightarrow>
     keeps cr (del_key ''meta'' k d) L"
    by (rule same, assumption, erule ledger_same_set_key(3)) (auto simp: fun_eq_iff)
qed

lemma only_cache_ranges: "only ''archive_cache'' d d' \<Longrightarrow> ranges_ordered d \<Longrightarrow> ranges_ordered d'"
  by (rule ranges_ordered_same, assumption) (rule ext, rule only_reads(4), auto)

text \<open>The only transaction that changes the ledger is an insertion, and it appends.\<close>

definition appended :: "crypto \<Rightarrow> ledger \<Rightarrow> db \<Rightarrow> bool" where
  "appended cr L d = (\<exists>M. keeps cr d (L @ M))"

lemma appended_keeps: "keeps cr d L \<Longrightarrow> appended cr L d"
  unfolding appended_def by (rule exI [of _ "[]"]) simp

lemma commit_appends:
  assumes "commit cr cfg d d'" "keeps cr d L" "sha_hex cr"
  shows "appended cr L d'"
proof -
  note ok = assms(2)
  have step: ?thesis if "run_update io body d = Inr (a, d')"
    and "\<And>t a. body (begin_tx d) = Inr (a, t) \<Longrightarrow> appended cr L (mt_db t)" for io and a :: 'x and body
  proof -
    from that(1) obtain t where "body (begin_tx d) = Inr (a, t)" "finish_update io t = Inr d'"
      by (auto simp: run_update_Inr)
    then show ?thesis
      using that(2) keeps_same_content [OF finish_same_content] unfolding appended_def by blast
  qed
  note stays = appended_keeps
  from assms(1) show ?thesis
  proof cases
    case (c_insert e0 e dg now io c u)
    then have e: "bindable e" "bound_event e = e" "content_digest cr e = dg"
      by (auto simp: billing_binding_Inr bindable_bound_event)
    show ?thesis
    proof (rule step [OF c_insert(3)])
      fix t a
      assume t: "insert_body cr c now e dg (begin_tx d) = Inr (a, t)"
      have rep: "represents cr d L" and ord: "ranges_ordered d" using ok by (simp_all add: keeps_def)
      have "represents cr (mt_db t) (L @ [(ev_id e, dg)])"
        by (rule insert_body_represents [OF rep t e assms(3) c_insert(2)])
      moreover have "ranges_ordered (mt_db t)"
        by (rule ranges_ordered_same [OF ord]) (simp add: fun_eq_iff db_get_def insert_body_effect(11) [OF t])
      ultimately show "appended cr L (mt_db t)" by (auto simp: appended_def keeps_def)
    qed
  next
    case (c_migrate now io c batch u)
    show ?thesis
    proof (rule step [OF c_migrate(2)])
      fix t a
      assume t: "migrate_body cr c now batch (begin_tx d) = Inr (a, t)"
      have "represents cr (mt_db t) L"
        using migrate_body_represents [OF _ assms(3) t] ok by (simp add: keeps_def)
      moreover have "ranges_ordered (mt_db t)"
        by (rule ranges_ordered_same [of d])
           (use ok migrate_body_entries [OF t, of "''operations''"] in \<open>simp_all add: keeps_def fun_eq_iff db_get_def\<close>)
      ultimately show "appended cr L (mt_db t)" by (intro stays) (simp add: keeps_def)
    qed
  next
    case (c_plan p io c now0 st)
    have range: "rp_from p \<le> rp_through p" using c_plan(1) by (simp add: plan_shape_ok_def)
    show ?thesis
      by (rule step [OF c_plan(2)], drule plan_body_effect(1))
        (use ok range in \<open>auto intro!: stays status_put_keeps simp: status_for_def\<close>)
  next
    case (c_apply nows io c op st0 st)
    show ?thesis by (rule step [OF c_apply(2)]) (rule stays, rule apply_keeps [OF ok])
  next
    case (c_abort p st0 now io c st)
    have range: "rp_from p \<le> rp_through p" using c_abort(1) by (simp add: plan_shape_ok_def)
    note st0 = plan_range [OF c_abort(2)]
    have stored: "rs_from s \<le> rs_through s" if "db_get d ''operations'' k = Some (DStatus s)" for k s
      using ok that by (simp add: keeps_def ranges_ordered_def)
    show ?thesis
    proof (rule step [OF c_abort(4)])
      fix t a
      assume "abort_body cr cfg c now p st0 (begin_tx d) = Inr (a, t)"
      from abort_body_effect(1) [OF this] have
        "mt_db t = d \<or> rs_from a \<le> rs_through a \<and> mt_db t = set_key ''operations'' (rp_op p) (DStatus a) d"
        using range st0 stored [of "rp_op p"] by auto
      then show "appended cr L (mt_db t)" using ok status_put_keeps by (auto intro: stays)
    qed
  next
    case (c_save cap io u)
    show ?thesis
      by (rule step [OF c_save(2)]) (auto dest!: save_body_effect intro!: stays other_put_keeps ok)
  next
    case (c_seal cap io high u)
    show ?thesis
      by (rule step [OF c_seal(2)]) (auto dest!: seal_body_effect intro!: stays other_put_keeps ok)
  next
    case (c_verify io c nows sid completion ce)
    show ?thesis
      by (rule step [OF c_verify], erule verify_body_effect) (auto intro!: stays other_put_keeps ok)
  next
    case (c_rehydrate io c sid records u)
    show ?thesis
    proof (rule step [OF c_rehydrate])
      fix t a
      assume "rehydrate_body cr cfg c sid records (begin_tx d) = Inr (a, t)"
      then show "appended cr L (mt_db t)"
      proof (rule rehydrate_body_effect)
        fix ce i prev used v
        assume loop: "for_state (rehydrate_record cr cfg c (ce_manifest ce) (archive_floor (mt_db (begin_tx d)))) records
              (0, None, meta_uint (mt_db (begin_tx d)) ''cache_bytes'', begin_tx d) = Inr (i, prev, used, v)"
          and t: "mt_db t = set_key ''meta'' ''cache_bytes'' (Raw (sequence_key used)) (mt_db v)"
          and only: "only ''archive_cache'' (mt_db (begin_tx d)) (mt_db v)"
        have "represents cr (mt_db v) L" using rehydrate_loop_represents [OF loop] ok by (simp add: keeps_def)
        moreover have "ranges_ordered (mt_db v)" using only_cache_ranges [OF only] ok by (simp add: keeps_def)
        ultimately have "keeps cr (mt_db v) L" by (simp add: keeps_def)
        then show ?thesis unfolding t by (intro stays other_put_keeps(2)) simp_all
      qed
    qed
  next
    case (c_evict io c through u)
    show ?thesis
    proof (rule step [OF c_evict])
      fix t a
      assume "evict_body cfg c through (begin_tx d) = Inr (a, t)"
      then show "appended cr L (mt_db t)"
      proof (rule evict_body_effect)
        fix used v
        assume loop: "evict_loop c through (db_entries (mt_db (begin_tx d)) ''archive_cache'') 0
              (meta_uint (mt_db (begin_tx d)) ''cache_bytes'') (begin_tx d) = Inr (used, v)"
          and t: "mt_db t = set_key ''meta'' ''cache_bytes'' (Raw (sequence_key used)) (mt_db v)"
          and only: "only ''archive_cache'' (mt_db (begin_tx d)) (mt_db v)"
        have "represents cr (mt_db v) L" using evict_loop_represents [OF loop] ok by (simp add: keeps_def)
        moreover have "ranges_ordered (mt_db v)" using only_cache_ranges [OF only] ok by (simp add: keeps_def)
        ultimately have "keeps cr (mt_db v) L" by (simp add: keeps_def)
        then show ?thesis unfolding t by (intro stays other_put_keeps(2)) simp_all
      qed
    qed
  next
    case (c_fence io c u)
    show ?thesis
      by (rule step [OF c_fence]) (auto dest!: fence_body_effect intro!: stays other_put_keeps ok)
  next
    case (c_admit io c p0 approval rs)
    show ?thesis
      by (rule step [OF c_admit]) (auto dest!: admit_body_effect(1) intro!: stays other_put_keeps ok)
  qed
qed

lemma commits_append:
  assumes "commits cr cfg d d'" "keeps cr d L" "sha_hex cr"
  shows "appended cr L d'"
  using assms
proof (induction rule: commits.induct)
  case (none d)
  from none.prems(1) show ?case by (rule appended_keeps)
next
  case (more d d' d'')
  then obtain M where "keeps cr d' (L @ M)" by (auto simp: appended_def)
  from commit_appends [OF more.hyps(2) this more.prems(2)] show ?case by (auto simp: appended_def)
qed

text \<open>Runs of operations.\<close>

lemma serves_append:
  assumes "serves cr ib ib'" "captures_ok (ib_cfg ib) (ib_db ib)" "keeps cr (ib_db ib) L" "sha_hex cr"
  shows "appended cr L (ib_db ib')"
  using commits_append [OF conjunct1 [OF serves_commits [OF assms(1,2)]] assms(3,4)] .

lemma serves_trans [trans]:
  assumes "serves cr a b" "serves cr b c" shows "serves cr a c"
  using assms(2,1) by (induction rule: serves.induct) (auto intro: serves.work)

section \<open>A consumer\<close>

text \<open>
  A consumer starts without a cursor and asks for pages, each with the cursor of the page before
  it; between and after its requests any operations run. \<open>follows cr ib0 ib cu rs\<close>: starting at
  \<open>ib0\<close>, the inbox has become \<open>ib\<close>, the consumer holds \<open>cu\<close> and has received \<open>rs\<close>.
\<close>

inductive follows :: "crypto \<Rightarrow> inbox \<Rightarrow> inbox \<Rightarrow> cursor_text \<Rightarrow> billing_record list \<Rightarrow> bool" for cr ib0 where
  start: "follows cr ib0 ib0 NoCursor []"
| others: "follows cr ib0 ib cu rs \<Longrightarrow> serve cr ib ib' \<Longrightarrow> follows cr ib0 ib' cu rs"
| reads: "follows cr ib0 ib cu rs \<Longrightarrow> page cr c cu limit ib = (Inr p, ib') \<Longrightarrow>
     follows cr ib0 ib' (Cursor (bp_next p)) (rs @ bp_records p)"

lemma follows_serves: "follows cr ib0 ib cu rs \<Longrightarrow> serves cr ib0 ib"
  by (induction rule: follows.induct) (auto intro: serves.intros s_page)

end
