(* ===== verification/CompactionRun.thy ===== *)
theory CompactionRun
  imports Growth
begin

text \<open>
  The whole of \<open>CompactOnline\<close> with other operations running in between: what the session
  and the cutover change, that the catch-up keeps its invariant, and that it ends.
\<close>

section \<open>Housekeeping\<close>

text \<open>Writes of compaction itself: buckets and \<open>meta\<close> keys that no other operation reads.\<close>

definition upkeep_key :: "bytes \<Rightarrow> bool" where
  "upkeep_key k = (k \<in> {''compaction_session'', ''storage_generation'', ''manifest_required'', ''mutation_generation''})"

lemma upkeep_key_simps [simp]:
  "upkeep_key ''compaction_session''" "upkeep_key ''storage_generation''" "upkeep_key ''manifest_required''"
  "upkeep_key ''mutation_generation''" "\<not> upkeep_key ''version''" "\<not> upkeep_key ''identity''"
  "\<not> upkeep_key ''archive_floor''" "\<not> upkeep_key ''legacy_through''" "\<not> upkeep_key ''backfilled_through''"
  by (simp_all add: upkeep_key_def)

definition upkeep :: "db \<Rightarrow> db \<Rightarrow> bool" where
  "upkeep d d' =
     ((\<forall>b. ledger_bucket b \<longrightarrow> aget d' b = aget d b) \<and> db_has d' ''meta'' = db_has d ''meta''
      \<and> (\<forall>k. \<not> upkeep_key k \<longrightarrow> meta_get d' k = meta_get d k))"

lemma upkeep_refl [simp]: "upkeep d d"
  by (simp add: upkeep_def)

lemma upkeep_trans [trans]: "upkeep d e \<Longrightarrow> upkeep e f \<Longrightarrow> upkeep d f"
  by (simp add: upkeep_def)

lemma upkeep_calls:
  "upkeep d e \<Longrightarrow> upkeep_key k \<Longrightarrow> upkeep d (set_key ''meta'' k v e)"
  "upkeep d e \<Longrightarrow> upkeep_key k \<Longrightarrow> upkeep d (del_key ''meta'' k e)"
  "upkeep d e \<Longrightarrow> upkeep d (set_key ''mutation_journal'' k' v e)"
proof -
  have "upkeep e (set_key ''meta'' k v e) \<and> upkeep e (del_key ''meta'' k e)" if "upkeep_key k"
  proof -
    have "k' \<noteq> k" if "\<not> upkeep_key k'" for k' using \<open>upkeep_key k\<close> that by blast
    then show ?thesis unfolding upkeep_def ledger_bucket_def by (simp add: bucket_after)
  qed
  then show "upkeep d e \<Longrightarrow> upkeep_key k \<Longrightarrow> upkeep d (set_key ''meta'' k v e)"
    "upkeep d e \<Longrightarrow> upkeep_key k \<Longrightarrow> upkeep d (del_key ''meta'' k e)"
    using upkeep_trans by blast+
  have "upkeep e (set_key ''mutation_journal'' k' v e)"
    unfolding upkeep_def ledger_bucket_def by (simp add: bucket_after)
  then show "upkeep d e \<Longrightarrow> upkeep d (set_key ''mutation_journal'' k' v e)" by (rule upkeep_trans [rotated])
qed

lemma upkeep_reset: "upkeep d (reset_journal d)"
proof -
  have "aget (reset_journal d) b = aget d b" if "b \<noteq> ''mutation_journal''" for b
    using that by (simp add: reset_journal_def bucket_after)
  then show ?thesis by (simp add: upkeep_def ledger_bucket_def db_has_def db_get_def db_entries_def)
qed

lemma upkeep_finish: "finish_update io t = Inr d' \<Longrightarrow> upkeep (mt_db t) d'"
  by (erule finish_update_cases) (auto intro!: upkeep_calls)

lemma upkeep_reads:
  assumes "upkeep d d'" "ledger_bucket b"
  shows "db_has d' b = db_has d b" "db_get d' b = db_get d b" "db_seq d' b = db_seq d b" "db_entries d' b = db_entries d b"
  using assms by (auto simp: upkeep_def db_has_def db_get_def db_seq_def db_entries_def fun_eq_iff)

lemma upkeep_meta:
  "upkeep d d' \<Longrightarrow> \<not> upkeep_key k \<Longrightarrow> meta_get d' k = meta_get d k"
  "upkeep d d' \<Longrightarrow> db_has d' ''meta'' = db_has d ''meta''"
  unfolding upkeep_def by blast+

lemma upkeep_ledger: "upkeep d d' \<Longrightarrow> ledger_same d d'"
  unfolding ledger_same_def
  by (simp add: upkeep_reads [of d d'] upkeep_meta [of d d'])

lemma takes_over_upkeep: "takes_over g d d' \<Longrightarrow> upkeep d d'"
  unfolding takes_over_def upkeep_def ledger_bucket_def upkeep_key_def by blast

text \<open>What an operation may do to an inbox: keep its configuration and its captures and extend its ledger.\<close>

definition extends :: "crypto \<Rightarrow> inbox \<Rightarrow> inbox \<Rightarrow> bool" where
  "extends cr ib ib' =
     (ib_cfg ib' = ib_cfg ib
      \<and> (captures_ok (ib_cfg ib) (ib_db ib) \<longrightarrow>
           captures_ok (ib_cfg ib) (ib_db ib') \<and> (\<forall>L. keeps cr (ib_db ib) L \<longrightarrow> appended cr L (ib_db ib'))))"

lemma extends_refl [simp]: "extends cr ib ib"
  by (simp add: extends_def appended_keeps)

lemma extends_trans [trans]: "extends cr a b \<Longrightarrow> extends cr b c \<Longrightarrow> extends cr a c"
  unfolding extends_def appended_def by (metis append.assoc)

lemma extends_upkeep:
  assumes "upkeep (ib_db ib) (ib_db ib')" "ib_cfg ib' = ib_cfg ib"
  shows "extends cr ib ib'"
proof -
  have "captures_ok (ib_cfg ib) (ib_db ib')" if "captures_ok (ib_cfg ib) (ib_db ib)"
    using that by (rule captures_ok_same)
      (use upkeep_reads(4) [OF assms(1), of "''captures''"] upkeep_meta(1) [OF assms(1), of "''identity''"] in auto)
  moreover have "appended cr L (ib_db ib')" if "keeps cr (ib_db ib) L" for L
    using upkeep_reads(2) [OF assms(1), of "''operations''"] that
    by (intro appended_keeps keeps_ledger_same [OF that upkeep_ledger [OF assms(1)]])
       (auto intro: ranges_ordered_same simp: keeps_def)
  ultimately show ?thesis using assms(2) by (simp add: extends_def)
qed

lemma extends_serves: "serves cr ib ib' \<Longrightarrow> sha_hex cr \<Longrightarrow> captures_ok (ib_cfg ib) (ib_db ib) \<Longrightarrow> extends cr ib ib'"
  using serves_commits serves_append unfolding extends_def by blast

lemma update_locked_upkeep:
  assumes "update_locked io body ib = (r, ib')" "\<And>t a. body (begin_tx (ib_db ib)) = Inr (a, t) \<Longrightarrow> upkeep (ib_db ib) (mt_db t)"
  shows "upkeep (ib_db ib) (ib_db ib')"
proof -
  have "upkeep (ib_db ib) d" if "run_update io body (ib_db ib) = Inr (a, d)" for a d
    using that assms(2) by (auto simp: run_update_Inr intro: upkeep_trans upkeep_finish)
  with assms(1) show ?thesis by (cases rule: update_locked_cases) auto
qed

lemma end_session_upkeep:
  assumes "end_session io ib = (r, ib')"
  shows "upkeep (ib_db ib) (ib_db ib')" "ib_cfg ib' = ib_cfg ib"
proof -
  from assms have upd: "update_locked io end_session_body ib = (r, ib')" by (simp add: end_session_def)
  show "upkeep (ib_db ib) (ib_db ib')"
    by (rule update_locked_upkeep [OF upd]) (auto simp: end_session_body_def intro!: upkeep_calls)
  show "ib_cfg ib' = ib_cfg ib" by (rule update_locked_cfg [OF upd])
qed

lemma session_body_effect:
  assumes "session_body g t = Inr (u, t')"
  shows "upkeep (mt_db t) (mt_db t')" "db_entries (mt_db t') ''mutation_journal'' = db_entries (mt_db t) ''mutation_journal''"
    "session_of (mt_db t') = Some (Raw g)" "mt_writes t' \<noteq> []"
  using assms by (auto simp: session_body_def intro!: upkeep_calls split: if_splits)

lemma begin_session_upkeep:
  assumes "begin_session io b rst g ib = (r, ib')"
  shows "upkeep (ib_db ib) (ib_db ib')" "ib_cfg ib' = ib_cfg ib"
proof -
  let ?ib = "ib\<lparr>ib_db := reset_journal (ib_db ib)\<rparr>"
  consider "ib' = ib" | r' where "update_locked io (session_body g) ?ib = (r', ib')"
    using assms by (auto simp: begin_session_def split: sum.splits)
  then have "upkeep (ib_db ib) (ib_db ib') \<and> ib_cfg ib' = ib_cfg ib"
  proof cases
    case 2
    have "upkeep (ib_db ?ib) (ib_db ib')"
      by (rule update_locked_upkeep [OF 2]) (auto dest: session_body_effect(1))
    with upkeep_reset [of "ib_db ib"] update_locked_cfg [OF 2] show ?thesis by (auto intro: upkeep_trans)
  qed simp
  then show "upkeep (ib_db ib) (ib_db ib')" "ib_cfg ib' = ib_cfg ib" by auto
qed

lemma reset_journal_entries [simp]: "db_entries (reset_journal d) ''mutation_journal'' = []"
  by (simp add: reset_journal_def db_entries_def add_bucket_def db_has_def empty_bucket_def)

text \<open>A started session: the journal holds at most the entry of the current generation.\<close>

lemma begin_session_Inr:
  assumes "begin_session io b rst g ib = (Inr u, ib')"
  shows "journal_bounded (ib_db ib')" "version2 (ib_db ib')" "ready (ib_cfg ib) (ib_db ib) = Inr ()"
    "session_of (ib_db ib') = Some (Raw g) \<or> session_of (ib_db ib') = None"
proof -
  let ?ib = "ib\<lparr>ib_db := reset_journal (ib_db ib)\<rparr>"
  from assms have upd: "update_locked io (session_body g) ?ib = (Inr u, ib')" and rdy: "ready (ib_cfg ib) (ib_db ib) = Inr ()"
    by (auto simp: begin_session_def split: sum.splits)
  show "ready (ib_cfg ib) (ib_db ib) = Inr ()" by (rule rdy)
  from ready_version [OF rdy] upkeep_meta(1) [OF begin_session_upkeep(1) [OF assms], of "''version''"]
  show "version2 (ib_db ib')" by simp
  from update_locked_Inr(3) [OF upd] obtain t where t: "session_body g (begin_tx (reset_journal (ib_db ib))) = Inr (u, t)"
      "finish_update io t = Inr (ib_db ib')"
    by (auto simp: run_update_Inr)
  note E = session_body_effect [OF t(1)]
  from t(2) E have "journal_bounded (ib_db ib') \<and> (session_of (ib_db ib') = Some (Raw g) \<or> session_of (ib_db ib') = None)"
  proof (cases rule: finish_update_cases)
    case (journalled gen)
    have "gen + 1 \<noteq> 0" using u64_Suc(2) [OF journalled(3)] by (metis word_not_simps(1))
    then show ?thesis using journalled E by (auto simp: journal_bounded_def db_get_def)
  qed (auto simp: journal_bounded_def db_get_def)
  then show "journal_bounded (ib_db ib')" "session_of (ib_db ib') = Some (Raw g) \<or> session_of (ib_db ib') = None" by auto
qed

lemma commits_in_step: "commits cr cfg d d' \<Longrightarrow> in_step cp d \<Longrightarrow> in_step cp d'"
proof (induction rule: commits.induct)
  case (more d d' d'')
  then have step: "in_step cp d'" by blast
  then have "version2 d'" by (simp add: in_step_def)
  from in_step_step [OF step commit_journal_step [OF more.hyps(2) this]] show ?case .
qed

lemma commits_bounded:
  "commits cr cfg d d' \<Longrightarrow> journal_bounded d \<and> version2 d \<Longrightarrow> journal_bounded d' \<and> version2 d'"
proof (induction rule: commits.induct)
  case (more d d' d'')
  then have ok: "journal_bounded d'" "version2 d'" by auto
  note step = commit_journal_step [OF more.hyps(2) ok(2)]
  have "version2 d''" using step ok(2) by (auto simp: journal_step_def)
  with journal_step_bounded [OF step ok(1)] show ?case by blast
qed

section \<open>The catch-up\<close>

lemma catch_up_in_step:
  assumes "catch_up k c base saved live elapsed i cp = Some (Inr cp')" "in_step cp (live i)"
    and step: "\<And>j cp. in_step cp (live j) \<Longrightarrow> in_step cp (live (Suc j))"
  shows "\<exists>j < i + k. in_step cp' (live j) \<and> cp_generation cp' = cp_generation cp \<and> cp_store cp' = cp_store cp"
  using assms(1,2)
proof (induction k arbitrary: i cp)
  case (Suc k)
  from Suc.prems(1) obtain goal cp1 where one: "replay_batch 256 (saved i) (live i) cp = Inr (goal, cp1)"
    and rest: "cp' = cp1 \<or> catch_up k c base saved live elapsed (i + 1) cp1 = Some (Inr cp')"
    by (auto split: sum.splits if_splits)
  note batch = replay_batch_in_step [OF Suc.prems(2) one]
  from rest show ?case
  proof
    assume "cp' = cp1" with batch show ?thesis by (intro exI [of _ i]) simp
  next
    assume "catch_up k c base saved live elapsed (i + 1) cp1 = Some (Inr cp')"
    from Suc.IH [OF this] step [OF batch(1)] batch(2,3) show ?thesis by auto
  qed
qed simp

text \<open>The clock bounds the number of rounds.\<close>

lemma catch_up_ends_by:
  assumes "i \<le> n" "elapsed n > catch_up_budget" "n < i + k"
  shows "catch_up k c base saved live elapsed i cp \<noteq> None"
  using assms
proof (induction k arbitrary: i cp)
  case (Suc k)
  show ?case
  proof (cases "i = n")
    case True
    then show ?thesis using Suc.prems(2) by (auto split: sum.splits)
  next
    case False
    then have "catch_up k c base saved live elapsed (i + 1) cp \<noteq> None" for cp
      using Suc.prems by (intro Suc.IH) auto
    then show ?thesis by (auto split: sum.splits)
  qed
qed simp

text \<open>A session that is still marked has its whole journal.\<close>

definition journal_full :: "compaction \<Rightarrow> db \<Rightarrow> bool" where
  "journal_full cp d =
     (in_step cp d \<and> (session_of d \<noteq> None \<longrightarrow>
        (\<forall>g. cp_replayed cp < g \<and> g \<le> generation_of d \<longrightarrow> entry_of d g \<noteq> None)))"

lemma journal_full_step:
  assumes "journal_full cp d" "journal_step d d'"
  shows "journal_full cp d'"
proof (cases "d' = d")
  case False
  have step: "in_step cp d'" using assms by (auto simp: journal_full_def intro: in_step_step)
  moreover have "entry_of d' g \<noteq> None"
    if sess: "session_of d' \<noteq> None" and g: "cp_replayed cp < g" "g \<le> generation_of d'" for g
  proof -
    from assms(2) False sess obtain ws where old: "session_of d \<noteq> None" "generation_of d \<noteq> - 1"
        "generation_of d' = generation_of d + 1"
      and e: "db_entries d' ''mutation_journal'' =
                aput (sequence_key (generation_of d + 1)) (DWrites ws) (db_entries d ''mutation_journal'')"
      by (auto simp: journal_step_def)
    show ?thesis
    proof (cases "g = generation_of d + 1")
      case True
      then show ?thesis by (simp add: db_get_def e)
    next
      case False
      then have "g \<le> generation_of d" using g(2) old(2,3) u64_Suc(3) by metis
      with assms(1) old(1) g(1) have "entry_of d g \<noteq> None" by (simp add: journal_full_def)
      with False show ?thesis by (simp add: db_get_def e)
    qed
  qed
  ultimately show ?thesis by (simp add: journal_full_def)
qed (use assms in simp)

lemma collect_total: "(\<And>g. g \<in> set gs \<Longrightarrow> entry_of d g \<noteq> None) \<Longrightarrow> \<exists>sets. collect d gs = Inr sets"
  by (induction gs) (auto split: option.splits)

lemma not_max: "a \<le> b \<Longrightarrow> b \<noteq> - 1 \<Longrightarrow> a \<noteq> (- 1 :: u64)"
  by (auto simp: word_order.extremum_unique)

lemma replay_batch_total:
  assumes full: "journal_full cp d" and sess: "session_of d = Some (Raw (cp_generation cp))"
    and gen: "generation_of d \<noteq> - 1"
  obtains cp' where "replay_batch batch (Inr ()) d cp = Inr (generation_of d, cp')" "journal_full cp' d"
    "cp_generation cp' = cp_generation cp"
    "unat (generation_of d - cp_replayed cp') = unat (generation_of d) - (unat (cp_replayed cp) + unat batch)"
proof -
  let ?g = "generation_of d" and ?r = "cp_replayed cp"
  let ?stop = "if ?g - ?r > batch then ?r + batch else ?g"
  have step: "in_step cp d" using full by (simp add: journal_full_def)
  then have r: "?r \<le> ?g" by (auto simp: in_step_def intro: order.trans)
  have diff: "unat (?g - ?r) = unat ?g - unat ?r" using r by (simp add: unat_sub)
  have stop: "?r \<le> ?stop" "?stop \<le> ?g"
  proof -
    have "unat (?r + batch) = unat ?r + unat batch" if "?g - ?r > batch"
    proof -
      have "unat ?g < 2 ^ LENGTH(64)" by (rule unsigned_less)
      then have "unat ?r + unat batch < 2 ^ LENGTH(64)"
        using that diff r by (simp add: word_less_nat_alt word_le_nat_alt)
      then show ?thesis by (rule unat_add_lem [THEN iffD1])
    qed
    then show "?r \<le> ?stop" "?stop \<le> ?g" using diff r by (auto simp: word_less_nat_alt word_le_nat_alt)
  qed
  have "?r \<noteq> - 1" by (rule not_max [OF r gen])
  have "\<exists>sets. collect d (between ?r ?stop) = Inr sets"
  proof (rule collect_total)
    fix g assume "g \<in> set (between ?r ?stop)"
    then have "?r < g" "g \<le> ?stop" unfolding set_between by blast+
    then have "?r < g" "g \<le> ?g" using stop(2) by (blast intro: order.trans)+
    moreover have "session_of d \<noteq> None" using sess by simp
    ultimately show "entry_of d g \<noteq> None" using full unfolding journal_full_def by blast
  qed
  then obtain sets where sets: "collect d (between ?r ?stop) = Inr sets" by blast
  have "?stop \<noteq> - 1" by (rule not_max [OF stop(2) gen])
  then have js: "journal_sets d ?r ?stop = Inr sets"
    using sets \<open>?r \<noteq> - 1\<close> by (simp add: journal_sets_def between_seq_range)
  from step sets stop obtain f more e u where "for_state apply_mutations sets (cp_candidate cp) = Inr u"
    by (rule in_step_covers)
  then have "\<exists>cp'. replay_batch batch (Inr ()) d cp = Inr (?g, cp')"
    using js sess by (simp add: replay_batch_def Let_def)
  then obtain cp' where one: "replay_batch batch (Inr ()) d cp = Inr (?g, cp')" by blast
  note B = replay_batch_in_step [OF step one]
  have "?r \<le> cp_replayed cp'" using B(6) r by (simp add: word_le_nat_alt)
  then have "journal_full cp' d" using full B(1) by (auto simp: journal_full_def)
  moreover have "unat (?g - cp_replayed cp') = unat ?g - (unat ?r + unat batch)"
    using B(5,6) by (simp add: unat_sub)
  ultimately show thesis using one B(2) that by blast
qed

lemma catch_up_quiet:
  assumes "journal_full cp d" "session_of d = Some (Raw (cp_generation cp))" "generation_of d \<noteq> - 1"
    and free: "\<And>j. c j = None" "\<And>j. saved j = Inr ()" "\<And>j. j < i + k \<Longrightarrow> elapsed j \<le> catch_up_budget"
    and lag: "unat (generation_of d) - unat (cp_replayed cp) \<le> 32 + 256 * Suc k"
  shows "\<exists>cp'. catch_up (Suc k) c base saved (\<lambda>_. d) elapsed i cp = Some (Inr cp')"
  using assms
proof (induction k arbitrary: i cp)
  case (0 i cp)
  from "0.prems"(1-3) obtain cp' where one: "replay_batch 256 (Inr ()) d cp = Inr (generation_of d, cp')"
      "unat (generation_of d - cp_replayed cp') = unat (generation_of d) - (unat (cp_replayed cp) + unat (256 :: u64))"
    by (rule replay_batch_total)
  have "generation_of d - cp_replayed cp' \<le> 32" using one(2) "0.prems"(7) by (simp add: word_le_nat_alt)
  then show ?case using one(1) "0.prems"(4,5) by (simp add: ctx_check_def)
next
  case (Suc k i cp)
  from Suc.prems(1-3) obtain cp' where one: "replay_batch 256 (Inr ()) d cp = Inr (generation_of d, cp')"
      "journal_full cp' d" "cp_generation cp' = cp_generation cp"
      "unat (generation_of d - cp_replayed cp') = unat (generation_of d) - (unat (cp_replayed cp) + unat (256 :: u64))"
    by (rule replay_batch_total)
  show ?case
  proof (cases "generation_of d - cp_replayed cp' \<le> 32")
    case True
    then show ?thesis using one(1) Suc.prems(4,5) by (simp add: ctx_check_def)
  next
    case False
    have step: "in_step cp' d" using one(2) by (simp add: journal_full_def)
    then have "cp_replayed cp' \<le> generation_of d" by (auto simp: in_step_def intro: order.trans)
    then have "unat (generation_of d) - unat (cp_replayed cp') \<le> 32 + 256 * Suc k"
      using one(4) Suc.prems(7) by (simp add: unat_sub)
    then have "\<exists>cp''. catch_up (Suc k) c base saved (\<lambda>_. d) elapsed (i + 1) cp' = Some (Inr cp'')"
      using one(2,3) Suc.prems(2-6) by (intro Suc.IH) auto
    moreover have "\<not> elapsed i > catch_up_budget" using Suc.prems(6) [of i] by simp
    ultimately show ?thesis
      using one(1) Suc.prems(4,5) False by (subst catch_up.simps) (simp add: ctx_check_def del: catch_up.simps)
  qed
qed

section \<open>The whole operation\<close>

lemma later_serves:
  assumes "\<And>n ib. serves cr ib (co_others ev n ib)"
  shows "serves cr ib (later_inbox ev i ib)"
  using assms by (induction i) (auto intro: serves_trans)

lemma later_in_step:
  assumes others: "\<And>n ib. serves cr ib (co_others ev n ib)" and caps: "captures_ok (ib_cfg ib) (ib_db ib)"
    and "in_step cp (ib_db (later_inbox ev i ib))" "i \<le> j"
  shows "in_step cp (ib_db (later_inbox ev j ib))"
  using assms(4,3)
proof (induction rule: dec_induct)
  case (step n)
  let ?ib = "later_inbox ev n ib"
  from serves_commits [OF later_serves [OF others] caps, of n]
  have "ib_cfg ?ib = ib_cfg ib" "captures_ok (ib_cfg ?ib) (ib_db ?ib)" by auto
  from serves_commits [OF others this(2)] step show ?case by (auto intro: commits_in_step)
qed

lemma cutover_switches:
  assumes "cutover ev cp ib = (r, ib', switched)"
  shows "ib_cfg ib' = ib_cfg ib"
    and "\<not> switched \<Longrightarrow> ib_db ib' = ib_db ib \<and> (\<exists>x. r = Inl x)"
    and "switched \<Longrightarrow> \<exists>final. finish_candidate (ib_db ib) cp = Inr (final, ib_db ib')
           \<and> (\<forall>n. r = Inr n \<longrightarrow> n = final \<and> ib' = ib\<lparr>ib_db := ib_db ib'\<rparr>)"
  using assms by (auto simp: cutover_def split: if_splits sum.splits publication.splits)

text \<open>The shape of a run: it stops before the session, gives up, or reaches the cutover.\<close>

lemma compact_online_cases:
  assumes run: "compact_online k cr c ev ib = Some (r, ib')"
  obtains
    (early) "upkeep (ib_db ib) (ib_db ib')" "ib_cfg ib' = ib_cfg ib" "\<exists>x. r = Inl x"
  | (given_up) ib1 n q where "begin_session (co_io ev 0) (co_bootstrap ev) (co_reset ev) (co_generation ev) ib = (Inr (), ib1)"
      "q = co_others ev 0 ib1 \<or> (\<exists>i. q = later_inbox ev i (co_others ev 0 ib1))"
      "upkeep (ib_db (co_others ev n q)) (ib_db ib')" "ib_cfg ib' = ib_cfg (co_others ev n q)" "\<exists>x. r = Inl x"
  | (cut) ib1 cp ib4 switched where
      "begin_session (co_io ev 0) (co_bootstrap ev) (co_reset ev) (co_generation ev) ib = (Inr (), ib1)"
      "catch_up k (cl_ctx c) 1 (co_saved ev) (\<lambda>i. ib_db (later_inbox ev i (co_others ev 0 ib1))) (co_elapsed ev) 0
         (snapshot (co_generation ev) (store_id (ib_db ib1)) (ib_db (co_others ev 0 ib1))) = Some (Inr cp)"
      "cutover (co_cutover ev) cp (later_inbox ev k (co_others ev 0 ib1)) = (r, ib4, switched)"
      "if switched then ib' = ib4 else upkeep (ib_db ib4) (ib_db ib') \<and> ib_cfg ib' = ib_cfg ib4"
proof -
  obtain r1 ib1 where b: "begin_session (co_io ev 0) (co_bootstrap ev) (co_reset ev) (co_generation ev) ib = (r1, ib1)"
    by fastforce
  note up = begin_session_upkeep [OF b]
  show thesis
  proof (cases r1)
    case (Inl x)
    from run b Inl up show thesis
      by (intro early) (auto simp: compact_online_def Let_def split: if_splits sum.splits)
  next
    case (Inr u)
    let ?ib2 = "co_others ev 0 ib1"
    let ?cp = "snapshot (co_generation ev) (store_id (ib_db ib1)) (ib_db ?ib2)"
    let ?cu = "catch_up k (cl_ctx c) 1 (co_saved ev) (\<lambda>i. ib_db (later_inbox ev i ?ib2)) (co_elapsed ev) 0 ?cp"
    have start: "begin_session (co_io ev 0) (co_bootstrap ev) (co_reset ev) (co_generation ev) ib = (Inr (), ib1)"
      using b Inr by simp
    have quit: thesis if "(case end_session (co_io ev 1) (co_others ev n q) of (_, ib) \<Rightarrow> Some (Inl x, ib)) = Some (r, ib')"
      "q = ?ib2 \<or> (\<exists>i. q = later_inbox ev i ?ib2)" for x n q
      using that(1) by (intro given_up [OF start that(2), of n]) (auto split: prod.splits dest: end_session_upkeep)
    consider "ib' = ib" "\<exists>x. r = Inl x"
      | x where "(case end_session (co_io ev 1) (co_others ev 1 ?ib2) of (_, ib) \<Rightarrow> Some (Inl x, ib)) = Some (r, ib')"
      | x where "(case end_session (co_io ev 1) (co_others ev (k + 2) (later_inbox ev k ?ib2)) of (_, ib) \<Rightarrow> Some (Inl x, ib))
            = Some (r, ib')"
      | cp where "?cu = Some (Inr cp)"
          "(case cutover (co_cutover ev) cp (later_inbox ev k ?ib2) of
              (r, ib4, True) \<Rightarrow> Some (r, ib4)
            | (r, ib4, False) \<Rightarrow> (case end_session (co_io ev 1) ib4 of (_, ib5) \<Rightarrow> Some (r, ib5))) = Some (r, ib')"
      using run b Inr
      by (auto simp: compact_online_def Let_def simp del: catch_up.simps split: if_splits sum.splits option.splits)
    then show thesis
    proof cases
      case 1
      then show thesis by (intro early) auto
    next
      case 2
      then show thesis by (rule quit) simp
    next
      case 3
      then show thesis by (rule quit) blast
    next
      case (4 cp)
      obtain r4 ib4 sw where c: "cutover (co_cutover ev) cp (later_inbox ev k ?ib2) = (r4, ib4, sw)" by (metis prod_cases3)
      with 4(2) have "r4 = r" "if sw then ib' = ib4 else upkeep (ib_db ib4) (ib_db ib') \<and> ib_cfg ib' = ib_cfg ib4"
        by (auto split: prod.splits if_splits bool.splits dest: end_session_upkeep)
      with c show thesis by (intro cut [OF start 4(1)]) auto
    qed
  qed
qed

text \<open>At the cutover the candidate is in step with the live database.\<close>

lemma cutover_in_step:
  assumes b: "begin_session io boot rst g ib = (Inr (), ib1)" and caps: "captures_ok (ib_cfg ib) (ib_db ib)"
    and others: "\<And>n ib. serves cr ib (co_others ev n ib)"
    and cu: "catch_up k c base saved (\<lambda>i. ib_db (later_inbox ev i (co_others ev 0 ib1))) elapsed 0
               (snapshot g s (ib_db (co_others ev 0 ib1))) = Some (Inr cp)"
  shows "in_step cp (ib_db (later_inbox ev k (co_others ev 0 ib1)))" "cp_generation cp = g"
proof -
  let ?ib2 = "co_others ev 0 ib1"
  have caps1: "captures_ok (ib_cfg ib1) (ib_db ib1)"
    using extends_upkeep [OF begin_session_upkeep [OF b]] caps begin_session_upkeep(2) [OF b] unfolding extends_def by auto
  note two = serves_commits [OF others caps1, of 0]
  have caps2: "captures_ok (ib_cfg ?ib2) (ib_db ?ib2)" using two by simp
  have "journal_bounded (ib_db ?ib2)" "version2 (ib_db ?ib2)"
    using commits_bounded [OF conjunct1 [OF two]] begin_session_Inr [OF b] by auto
  then have snap: "in_step (snapshot g s (ib_db ?ib2)) (ib_db ?ib2)" by (rule in_step_snapshot)
  have zero: "in_step (snapshot g s (ib_db ?ib2)) (ib_db (later_inbox ev 0 ?ib2))"
    using serves_commits [OF others caps2, of 1] snap by (auto intro: commits_in_step)
  have "\<exists>j < 0 + k. in_step cp (ib_db (later_inbox ev j ?ib2)) \<and> cp_generation cp = cp_generation (snapshot g s (ib_db ?ib2))
      \<and> cp_store cp = cp_store (snapshot g s (ib_db ?ib2))"
    by (rule catch_up_in_step [OF cu zero]) (erule later_in_step [OF others caps2], simp)
  then obtain j where j: "j < k" "in_step cp (ib_db (later_inbox ev j ?ib2))" "cp_generation cp = g"
    by (auto simp: snapshot_def)
  with later_in_step [OF others caps2 j(2), of k]
  show "in_step cp (ib_db (later_inbox ev k ?ib2))" "cp_generation cp = g" by auto
qed

lemma compact_online_extends:
  assumes run: "compact_online k cr c ev ib = Some (r, ib')" and hex: "sha_hex cr"
    and caps: "captures_ok (ib_cfg ib) (ib_db ib)" and others: "\<And>n ib. serves cr ib (co_others ev n ib)"
  shows "extends cr ib ib'"
proof -
  have ext: "extends cr ib q'" if "extends cr ib q" "serves cr q q'" for q q'
  proof -
    have "captures_ok (ib_cfg q) (ib_db q)" using that(1) caps by (simp add: extends_def)
    with that hex show ?thesis by (blast intro: extends_trans extends_serves)
  qed
  from run show ?thesis
  proof (cases rule: compact_online_cases)
    case early
    then show ?thesis by (intro extends_upkeep)
  next
    case (given_up ib1 n q)
    have "serves cr ib1 (co_others ev n q)"
      using given_up(2) others later_serves [OF others] by (meson serves_trans)
    with ext [OF extends_upkeep [OF begin_session_upkeep [OF given_up(1)]]]
    have "extends cr ib (co_others ev n q)" by blast
    also have "extends cr (co_others ev n q) ib'" using given_up by (intro extends_upkeep)
    finally show ?thesis .
  next
    case (cut ib1 cp ib4 switched)
    let ?ib3 = "later_inbox ev k (co_others ev 0 ib1)"
    have "serves cr ib1 ?ib3" using others later_serves [OF others] by (meson serves_trans)
    with ext [OF extends_upkeep [OF begin_session_upkeep [OF cut(1)]]] have "extends cr ib ?ib3" by blast
    also have "extends cr ?ib3 ib'"
    proof (rule extends_upkeep)
      note step = cutover_in_step [OF cut(1) caps others cut(2)]
      show "upkeep (ib_db ?ib3) (ib_db ib')"
      proof (cases switched)
        case True
        from cutover_switches(3) [OF cut(3) True] obtain final where
          "finish_candidate (ib_db ?ib3) cp = Inr (final, ib_db ib4)" by blast
        from finish_candidate_takes_over [OF step(1) this] cut(4) True show ?thesis by (auto intro: takes_over_upkeep)
      next
        case False
        with cutover_switches(2) [OF cut(3)] cut(4) show ?thesis by auto
      qed
      show "ib_cfg ib' = ib_cfg ?ib3" using cutover_switches(1) [OF cut(3)] cut(4) by (auto split: if_splits)
    qed
    finally show ?thesis .
  qed
qed

end
