(* ===== verification/CompactionSample.thy ===== *)
theory CompactionSample
  imports CompactionRun
begin

text \<open>
  A run of online compaction on an empty store of the second format, step by step.
\<close>

definition quiet_db :: db where
  "quiet_db =
     [(''archive_cache'', empty_bucket), (''captures'', empty_bucket), (''catalog'', empty_bucket),
      (''events'', empty_bucket), (''ids'', empty_bucket),
      (''meta'', \<lparr>bk_entries = [(''backfilled_through'', Raw (sequence_key 0)), (''identity'', Raw toy_store),
         (''legacy_age_floor'', DTime toy_time), (''legacy_through'', Raw (sequence_key 0)),
         (''mutation_generation'', Raw (sequence_key 1)), (''version'', Raw ''2'')], bk_seq = 0\<rparr>),
      (''mutation_journal'', empty_bucket), (''operations'', empty_bucket),
      (''receipt_ids'', empty_bucket), (''receipt_times'', empty_bucket)]"

definition quiet_inbox :: inbox where
  "quiet_inbox = (open_inbox quiet_db)\<lparr>ib_cfg := toy_config\<lparr>lc_compact := True\<rparr>\<rparr>"

definition quiet_run :: compact_env where
  "quiet_run = \<lparr>co_prepare = Inr (), co_generation = ''g'', co_bootstrap = Inr (), co_reset = Inr (), co_copy = Inr (),
     co_sound = True, co_saved = (\<lambda>_. Inr ()), co_elapsed = (\<lambda>_. 0), co_synced = Inr (),
     co_cutover = \<lparr>ce_ready = Inr (), ce_publish = Published, ce_same = True\<rparr>,
     co_io = (\<lambda>_. \<lparr>io_commit = Committed, io_journal_inuse = 0\<rparr>), co_others = (\<lambda>_ ib. ib)\<rparr>"

text \<open>The store with the session marked, and the store the run switches to.\<close>

definition begun_db :: db where
  "begun_db =
     [(''archive_cache'', empty_bucket), (''captures'', empty_bucket), (''catalog'', empty_bucket),
      (''events'', empty_bucket), (''ids'', empty_bucket),
      (''meta'', \<lparr>bk_entries = [(''backfilled_through'', Raw (sequence_key 0)), 
         (''compaction_session'', Raw ''g''), (''identity'', Raw toy_store),
         (''legacy_age_floor'', DTime toy_time), (''legacy_through'', Raw (sequence_key 0)),
         (''manifest_required'', Raw ''1''),
         (''mutation_generation'', Raw (sequence_key 2)), (''version'', Raw ''2'')], bk_seq = 0\<rparr>),
      (''mutation_journal'', \<lparr>bk_entries = [(sequence_key 2, DWrites 
          [Mutation ''meta'' ''manifest_required'' (Raw ''1'') ''put'' 0, 
           Mutation ''meta'' ''compaction_session'' (Raw ''g'') ''put'' 0,
           Mutation ''meta'' ''mutation_generation'' (Raw (sequence_key 2)) ''put'' 0])], bk_seq = 0\<rparr>), 
      (''operations'', empty_bucket),
      (''receipt_ids'', empty_bucket), (''receipt_times'', empty_bucket)]"

definition over_db :: db where
  "over_db =
     [(''archive_cache'', empty_bucket), (''captures'', empty_bucket), (''catalog'', empty_bucket),
      (''events'', empty_bucket), (''ids'', empty_bucket),
      (''meta'', \<lparr>bk_entries = [(''backfilled_through'', Raw (sequence_key 0)), 
         (''identity'', Raw toy_store),
         (''legacy_age_floor'', DTime toy_time), (''legacy_through'', Raw (sequence_key 0)),
         (''manifest_required'', Raw ''1''),
         (''mutation_generation'', Raw (sequence_key 2)), (''storage_generation'', Raw ''g''), (''version'', Raw ''2'')], bk_seq = 0\<rparr>),
      (''mutation_journal'', \<lparr>bk_entries = [(sequence_key 2, DWrites 
          [Mutation ''meta'' ''manifest_required'' (Raw ''1'') ''put'' 0, 
           Mutation ''meta'' ''compaction_session'' (Raw ''g'') ''put'' 0,
           Mutation ''meta'' ''mutation_generation'' (Raw (sequence_key 2)) ''put'' 0])], bk_seq = 0\<rparr>), 
      (''operations'', empty_bucket),
      (''receipt_ids'', empty_bucket), (''receipt_times'', empty_bucket)]"

lemma begins: "begin_session (co_io quiet_run 0) (co_bootstrap quiet_run) (co_reset quiet_run) (co_generation quiet_run) quiet_inbox
   = (Inr (), quiet_inbox\<lparr>ib_db := begun_db\<rparr>)"
  by (simp add: begin_session_def quiet_inbox_def quiet_run_def open_inbox_def quiet_db_def begun_db_def ready_def reset_journal_def
     update_locked_def run_update_def session_body_def finish_update_def begin_tx_def toy_config_def no_lifecycle_def
     t_put_def db_put_def set_key_def on_bucket_def db_defs add_bucket_def empty_bucket_def Let_def journal_limit_def less_char_def adel_def)

lemma audits: "audit_lifecycle toy_crypto background 1 True ''e'' [''e''] (Some [(''v'', toy_key)]) begun_db = Inr ()"
  by (simp add: audit_lifecycle_def begun_db_def Let_def need_def audit_shape_def audit_buckets_def db_defs empty_bucket_def
     audit_meta_def ctx_each_def audit_sequence_keys_def audit_events_def catalog_ranges_def completed_ranges_def audit_journal_entry_def mutation_kinds_def seq_range_def)

lemma quiet_later: "later_inbox quiet_run i ib = ib"
  by (induction i) (simp_all add: quiet_run_def)

lemma toy_store_len: "length toy_store = 32"
  by (simp add: toy_store_def)

lemma finishes: "finish_candidate begun_db (snapshot ''g'' toy_store begun_db) = Inr (2, over_db)"
  by (simp add: finish_candidate_def snapshot_def begun_db_def over_db_def journal_sets_def seq_range_def
    db_del_def db_put_def set_key_def del_key_def on_bucket_def db_defs empty_bucket_def Let_def less_char_def adel_def)

lemma catches: "catch_up 1 background 1 (co_saved quiet_run) (\<lambda>_. begun_db) (co_elapsed quiet_run) 0 (snapshot ''g'' toy_store begun_db)
   = Some (Inr (snapshot ''g'' toy_store begun_db))"
  by (simp add: replay_batch_def snapshot_def begun_db_def journal_sets_def seq_range_def quiet_run_def db_defs Let_def)

lemma begun_id: "store_id begun_db = toy_store"
  by (simp add: store_id_def begun_db_def db_defs text_or_empty_def)

lemma quiet_compacts: "compact_online 1 toy_crypto toy_call quiet_run quiet_inbox = Some (Inr 2, quiet_inbox\<lparr>ib_db := over_db\<rparr>)"
proof -
  have cfg: "lc_compact (ib_cfg quiet_inbox)" "lc_env (ib_cfg quiet_inbox) = ''e''" "lc_sources (ib_cfg quiet_inbox) = [''e'']"
     "lc_keys (ib_cfg quiet_inbox) = [(''v'', toy_key)]"
    by (simp_all add: quiet_inbox_def toy_config_def no_lifecycle_def)
  have rdy: "ready (ib_cfg quiet_inbox) (ib_db quiet_inbox) = Inr ()"
    by (simp add: ready_def cfg) (simp add: quiet_inbox_def quiet_db_def db_defs)
  have run: "co_others quiet_run n ib = ib" "co_prepare quiet_run = Inr ()" "co_copy quiet_run = Inr ()" "co_sound quiet_run"
    "co_generation quiet_run = ''g''" "co_synced quiet_run = Inr ()" for n ib
    by (simp_all add: quiet_run_def)
  have flags: "\<not> ib_failed quiet_inbox" "\<not> ib_closed quiet_inbox" "\<not> ib_recovering quiet_inbox"
    by (simp_all add: quiet_inbox_def)
  have cut: "cutover (co_cutover quiet_run) (snapshot ''g'' toy_store begun_db) (quiet_inbox\<lparr>ib_db := begun_db\<rparr>)
       = (Inr 2, quiet_inbox\<lparr>ib_db := over_db\<rparr>, True)"
    using finishes flags by (simp add: cutover_def quiet_run_def)
  have hl: "health toy_call 0 0 quiet_inbox = Inr ()" by (simp add: health_Inr flags)
  have cand: "cp_candidate (snapshot ''g'' toy_store begun_db) = begun_db" by (simp add: snapshot_def)
  show ?thesis
    unfolding compact_online_def Let_def
    by (simp add: cfg hl rdy run begins [unfolded run] quiet_later catches begun_id cand audits cut del: catch_up.simps One_nat_def)
qed

lemma quiet_represents: "represents toy_crypto quiet_db []"
  by (auto simp: represents_def versioned_def quiet_db_def db_defs empty_bucket_def)

lemma quiet_ok: "captures_ok (ib_cfg quiet_inbox) (ib_db quiet_inbox)" "ranges_ordered (ib_db quiet_inbox)"
    "ib_db quiet_inbox = quiet_db" "serves cr ib (co_others quiet_run n ib)"
  by (simp_all add: captures_ok_def ranges_ordered_def quiet_inbox_def quiet_db_def db_defs empty_bucket_def quiet_run_def serves.idle)

lemma begun_facts: "journal_bounded begun_db" "version2 begun_db" "generation_of begun_db = 2"
    "session_of begun_db = Some (Raw ''g'')"
  by (auto simp: journal_bounded_def begun_db_def db_defs)

end
