(* ===== verification/RetirementProperties.thy ===== *)
theory RetirementProperties
  imports ArchiveSample
begin

text \<open>
  The properties of the lifecycle: what must hold before a payload is dropped, that no
  operation of the lifecycle changes the ledger, that decisions are final, and that the
  migration of the receipts preserves the stored bytes and finishes.
\<close>

lemma apply_retirement_cases:
  assumes "apply_retirement cr c auth op ib = (r, ib')"
  obtains (same) "ib' = ib"
  | (run) st where "retirement c 0 0 op ib = Inr st" "rs_status st = ''pending''" "lc_retire (ib_cfg ib)"
      "validate_authority (ib_cfg ib) auth st ''ACTIVE'' = Inr ()"
      "update_locked (cl_io c) (apply_body cr (ib_cfg ib) (cl_ctx c) (cl_now c) op st) ib = (r, ib')"
proof (cases "retirement c 0 0 op ib")
  case (Inl x)
  with assms same show thesis by (auto simp: apply_retirement_def)
next
  case (Inr st)
  show thesis
  proof (cases "rs_status st = ''pending'' \<and> lc_retire (ib_cfg ib) \<and> validate_authority (ib_cfg ib) auth st ''ACTIVE'' = Inr ()")
    case True
    with assms Inr run show thesis by (auto simp: apply_retirement_def split: if_splits)
  next
    case False
    with assms Inr have "ib' = ib" by (auto simp: apply_retirement_def split: if_splits sum.splits)
    then show thesis by (rule same)
  qed
qed

lemma retirement_reads: "retirement c n k op ib = Inr st \<Longrightarrow> db_get (ib_db ib) ''operations'' op = Some (DStatus st)"
  by (auto simp: retirement_def split: option.splits if_splits)

lemma same_content_get: "same_content d d' \<Longrightarrow> ledger_bucket b \<Longrightarrow> db_get d' b = db_get d b"
  by (rule ext) (rule same_contentD(4))

lemma update_locked_effect:
  assumes "update_locked io body ib = (r, ib')"
  shows "ib_db ib' = ib_db ib
    \<or> (\<exists>a t. body (begin_tx (ib_db ib)) = Inr (a, t) \<and> same_content (mt_db t) (ib_db ib'))"
  using assms
proof (cases rule: update_locked_cases)
  case (committed a d)
  then show ?thesis using finish_same_content by (auto simp: run_update_Inr)
next
  case (unknown a d)
  then show ?thesis using finish_same_content by (auto simp: run_update_Inr)
qed auto

text \<open>C5: A payload is dropped only by an approved decision. When applying a retirement removes the
  event of a sequence, the operation was pending and the authority had released it, a verified
  catalog entry with a valid completion covers the sequence, its receipt is older than the
  retention period, and the dedupe binding of the removed bytes stays in place.\<close>

theorem payload_dropped_only_when_covered:
  assumes app: "apply_retirement cr c auth op ib = (r, ib')"
    and present: "db_get (ib_db ib) ''events'' (sequence_key n) = Some body"
    and absent: "db_get (ib_db ib') ''events'' (sequence_key n) = None"
  shows "\<exists>st ce p received b rec.
      db_get (ib_db ib) ''operations'' op = Some (DStatus st) \<and> rs_status st = ''pending''
    \<and> validate_authority (ib_cfg ib) auth st ''ACTIVE'' = Inr ()
    \<and> db_get (ib_db ib) ''catalog'' (rs_set st) = Some (DCatalog ce) \<and> ce_status ce = ''verified''
    \<and> verify_completion cr (lc_keys (ib_cfg ib)) (ce_completion ce) (ce_manifest ce) (ce_bytes ce) = Inr p
    \<and> mf_from (ce_manifest ce) \<le> n \<and> n \<le> mf_through (ce_manifest ce)
    \<and> receipt_time (ib_db ib) n = Inr received
    \<and> instant received \<le> instant (cl_now c 0) - lc_retention_days (ib_cfg ib) * day
    \<and> body = DRecord rec \<and> db_get (ib_db ib') ''ids'' (ev_id (br_event rec)) = Some (DBinding b)
    \<and> rb_seq b = n \<and> rb_record b = sha cr body"
  using app
proof (cases rule: apply_retirement_cases)
  case same
  with present absent show ?thesis by simp
next
  case (run st)
  let ?d = "ib_db ib"
  from update_locked_effect [OF run(5)] present absent obtain st' t where
    t: "apply_body cr (ib_cfg ib) (cl_ctx c) (cl_now c) op st (begin_tx ?d) = Inr (st', t)"
    and same: "same_content (mt_db t) (ib_db ib')"
    by fastforce
  note E = apply_body_effect [OF t, simplified] and S = same_contentD [OF same]
  have gone: "db_get (mt_db t) ''events'' (sequence_key n) = None" using absent S(4) by simp
  then have n: "rs_from st \<le> n" "n \<le> rs_through st"
    using present E(9) [of "sequence_key n"] by (auto split: if_splits)
  from E(6) obtain ce p where ce: "db_get ?d ''catalog'' (rs_set st) = Some (DCatalog ce)" "ce_status ce = ''verified''"
      "mf_from (ce_manifest ce) \<le> rs_from st" "rs_through st \<le> mf_through (ce_manifest ce)"
      "verify_completion cr (lc_keys (ib_cfg ib)) (ce_completion ce) (ce_manifest ce) (ce_bytes ce) = Inr p"
    and cov: "coverage_record cr (add_ns (utc (cl_now c 0)) (- lc_retention_days (ib_cfg ib) * day)) ?d n = Inr ()"
    using n by (elim retirement_coverageD) blast
  from cov obtain rec b received where rec: "receipt_time ?d n = Inr received"
      "\<not> after received (add_ns (utc (cl_now c 0)) (- lc_retention_days (ib_cfg ib) * day))"
      "db_get ?d ''events'' (sequence_key n) = Some (DRecord rec)"
      "db_get ?d ''ids'' (ev_id (br_event rec)) = Some (DBinding b)" "rb_seq b = n"
      "rb_record b = sha cr (DRecord rec)"
    by (rule coverage_recordD)
  have "db_get (ib_db ib') ''ids'' k = db_get ?d ''ids'' k" for k
    using S(4) [of "''ids''"] E(12) [of "''ids''"] by (simp add: db_get_def)
  moreover have "instant received \<le> instant (cl_now c 0) - lc_retention_days (ib_cfg ib) * day"
    using rec(2) by (simp add: after_def add_ns_def)
  moreover have "body = DRecord rec" using rec(3) present by simp
  ultimately show ?thesis
    using run(2,4) E(3) ce n rec by (intro exI conjI) (auto intro: order.trans)
qed

theorem payload_dropped_only_when_covered_witness:
  "\<exists>st ce. db_get planned_db ''operations'' ''o'' = Some (DStatus st) \<and> rs_status st = ''pending''
     \<and> db_get planned_db ''catalog'' (rs_set st) = Some (DCatalog ce) \<and> ce_status ce = ''verified''"
proof -
  from toy_apply obtain d where d: "apply_retirement toy_crypto late_call (LocalAuthority (\<lambda>_. Inr ())) ''o'' planned_inbox =
      (Inr toy_done, planned_inbox\<lparr>ib_db := d\<rparr>)" "db_get d ''events'' (sequence_key 1) = None" by blast
  have db: "ib_db planned_inbox = planned_db" by (simp add: planned_inbox_def)
  from payload_dropped_only_when_covered [OF d(1), of 1 one_body] d(2) db show ?thesis
    by (auto simp: status_for_def toy_plan_def)
qed

text \<open>C7: Retirement never changes the ledger. Planning, applying and aborting an operation, whatever
  they return and also when the outcome of the commit is unknown, leave a database that
  represents the same ledger of identifiers and digests.\<close>

theorem retirement_keeps_ledger:
  assumes rep: "represents cr (ib_db ib) L" and ord: "ranges_ordered (ib_db ib)"
    and step: "apply_retirement cr c auth op ib = (r, ib') \<or> plan_retirement cr c p ib = (r, ib')
      \<or> abort_plan cr c auth p ib = (r, ib')"
  shows "represents cr (ib_db ib') L"
  using step
proof (elim disjE)
  assume "apply_retirement cr c auth op ib = (r, ib')"
  then show ?thesis
  proof (cases rule: apply_retirement_cases)
    case (run st)
    have "rs_from st \<le> rs_through st" using retirement_reads [OF run(1)] ord by (auto simp: ranges_ordered_def)
    with update_locked_effect [OF run(5)] apply_body_represents [of cr "begin_tx (ib_db ib)" L] rep
    show ?thesis by (auto simp: represents_same_content)
  qed (simp add: rep)
next
  assume "plan_retirement cr c p ib = (r, ib')"
  then have "ib' = ib \<or> update_locked (cl_io c) (plan_body cr (ib_cfg ib) (cl_ctx c) (cl_now c 0) p) ib = (r, ib')"
    by (auto simp: plan_retirement_def split: if_splits)
  then show ?thesis
  proof
    assume "update_locked (cl_io c) (plan_body cr (ib_cfg ib) (cl_ctx c) (cl_now c 0) p) ib = (r, ib')"
    from update_locked_effect [OF this] rep show ?thesis
      by (auto dest!: plan_body_effect(1)
          simp: represents_same_content ledger_same_represents [OF ledger_same_set_key(1)])
  qed (simp add: rep)
next
  assume "abort_plan cr c auth p ib = (r, ib')"
  then have "ib' = ib \<or> (\<exists>st. update_locked (cl_io c) (abort_body cr (ib_cfg ib) (cl_ctx c) (cl_now c 0) p st) ib = (r, ib'))"
    by (auto simp: abort_plan_def Let_def split: if_splits sum.splits)
  then show ?thesis
  proof (elim disjE exE)
    fix st
    assume "update_locked (cl_io c) (abort_body cr (ib_cfg ib) (cl_ctx c) (cl_now c 0) p st) ib = (r, ib')"
    from update_locked_effect [OF this] rep show ?thesis
      by (auto dest!: abort_body_effect(1)
          simp: represents_same_content ledger_same_represents [OF ledger_same_set_key(1)])
  qed (simp add: rep)
qed

theorem retirement_keeps_ledger_witness:
  "\<exists>ib'. apply_retirement toy_crypto late_call (LocalAuthority (\<lambda>_. Inr ())) ''o'' planned_inbox = (Inr toy_done, ib')
     \<and> represents toy_crypto (ib_db ib') [(''a'', toy_sha)]"
proof -
  from toy_apply obtain d where d: "apply_retirement toy_crypto late_call (LocalAuthority (\<lambda>_. Inr ())) ''o'' planned_inbox =
      (Inr toy_done, planned_inbox\<lparr>ib_db := d\<rparr>)" by blast
  have "ranges_ordered (ib_db planned_inbox)" "represents toy_crypto (ib_db planned_inbox) [(''a'', toy_sha)]"
    using planned_db_represents by (simp_all add: ranges_ordered_def planned_inbox_def status_for_def toy_plan_def)
  from retirement_keeps_ledger [OF this(2,1) disjI1 [OF d]] d show ?thesis by auto
qed

text \<open>C10: A decision is final. Once an operation is completed or aborted its stored status never
  changes, whatever operation is planned, applied or aborted afterwards and with whatever
  outcome.\<close>

theorem decisions_are_final:
  assumes stored: "db_get (ib_db ib) ''operations'' k = Some (DStatus st)" "terminal st"
    and step: "apply_retirement cr c auth op ib = (r, ib') \<or> plan_retirement cr c p ib = (r, ib')
      \<or> abort_plan cr c auth p ib = (r, ib')"
  shows "db_get (ib_db ib') ''operations'' k = Some (DStatus st)"
  using step
proof (elim disjE)
  assume "apply_retirement cr c auth op ib = (r, ib')"
  then show ?thesis
  proof (cases rule: apply_retirement_cases)
    case (run live)
    have "k \<noteq> op" using retirement_reads [OF run(1)] run(2) stored by (auto simp: terminal_def)
    from update_locked_effect [OF run(5)] show ?thesis
    proof (elim disjE exE conjE)
      fix a t
      assume t: "apply_body cr (ib_cfg ib) (cl_ctx c) (cl_now c) op live (begin_tx (ib_db ib)) = Inr (a, t)"
        and same: "same_content (mt_db t) (ib_db ib')"
      show ?thesis
        using stored(1) \<open>k \<noteq> op\<close> by (simp add: same_contentD(4) [OF same] apply_body_effect(11) [OF t])
    qed (simp add: stored)
  qed (simp add: stored)
next
  assume "plan_retirement cr c p ib = (r, ib')"
  then have "ib' = ib \<or> update_locked (cl_io c) (plan_body cr (ib_cfg ib) (cl_ctx c) (cl_now c 0) p) ib = (r, ib')"
    by (auto simp: plan_retirement_def split: if_splits)
  then show ?thesis
  proof
    assume "update_locked (cl_io c) (plan_body cr (ib_cfg ib) (cl_ctx c) (cl_now c 0) p) ib = (r, ib')"
    from update_locked_effect [OF this] stored(1) show ?thesis
      by (auto dest!: plan_body_effect(1) same_content_get [of _ _ "''operations''"])
  qed (simp add: stored)
next
  assume "abort_plan cr c auth p ib = (r, ib')"
  then have "ib' = ib \<or> (\<exists>st. update_locked (cl_io c) (abort_body cr (ib_cfg ib) (cl_ctx c) (cl_now c 0) p st) ib = (r, ib'))"
    by (auto simp: abort_plan_def Let_def split: if_splits sum.splits)
  then show ?thesis
  proof (elim disjE exE)
    fix x
    assume "update_locked (cl_io c) (abort_body cr (ib_cfg ib) (cl_ctx c) (cl_now c 0) p x) ib = (r, ib')"
    from update_locked_effect [OF this] stored show ?thesis
      by (auto dest!: abort_body_effect(1) same_content_get [of _ _ "''operations''"])
  qed (simp add: stored)
qed

text \<open>A second plan under a decided identifier.\<close>

definition decided_db :: db where
  "decided_db = set_key ''operations'' ''o'' (DStatus toy_done) planned_db"

lemma toy_done_terminal: "terminal toy_done"
  by (simp add: toy_done_def terminal_def seal_status_def)

theorem decisions_are_final_witness:
  "db_get (ib_db (snd (apply_retirement toy_crypto late_call (LocalAuthority (\<lambda>_. Inr ())) ''o''
       (planned_inbox\<lparr>ib_db := decided_db\<rparr>)))) ''operations'' ''o'' = Some (DStatus toy_done)"
proof -
  let ?ib = "planned_inbox\<lparr>ib_db := decided_db\<rparr>"
  obtain r ib' where step: "apply_retirement toy_crypto late_call (LocalAuthority (\<lambda>_. Inr ())) ''o'' ?ib = (r, ib')"
    by fastforce
  have "db_get (ib_db ?ib) ''operations'' ''o'' = Some (DStatus toy_done)"
    by (simp add: decided_db_def planned_db_has toy_entries_def)
  from decisions_are_final [OF this toy_done_terminal disjI1 [OF step]] step show ?thesis by simp
qed

section \<open>Migration\<close>

text \<open>C8: Migration changes neither the ledger nor a stored byte. Whatever a batch returns, the
  database represents the same ledger and holds the same events under the same sequence.\<close>

theorem migration_keeps_ledger:
  assumes rep: "represents cr (ib_db ib) L" and hex: "sha_hex cr" and mig: "migrate cr c batch ib = (r, ib')"
  shows "represents cr (ib_db ib') L \<and> db_entries (ib_db ib') ''events'' = db_entries (ib_db ib) ''events''
    \<and> db_seq (ib_db ib') ''events'' = db_seq (ib_db ib) ''events''"
proof -
  have "ib' = ib \<or> (\<exists>r'. update_locked (cl_io c) (migrate_body cr (cl_ctx c) (cl_now c 0) (nat batch)) ib = (r', ib'))"
    using mig by (auto simp: migrate_def split: if_splits sum.splits prod.splits)
  then show ?thesis
  proof (elim disjE exE)
    fix r'
    assume "update_locked (cl_io c) (migrate_body cr (cl_ctx c) (cl_now c 0) (nat batch)) ib = (r', ib')"
    from update_locked_effect [OF this] show ?thesis
    proof (elim disjE exE conjE)
      fix a t
      assume t: "migrate_body cr (cl_ctx c) (cl_now c 0) (nat batch) (begin_tx (ib_db ib)) = Inr (a, t)"
        and same: "same_content (mt_db t) (ib_db ib')"
      from migrate_body_represents [OF rep hex t] same_contentD [OF same] show ?thesis
        by (simp add: represents_same_content [OF same])
    qed (simp add: rep)
  qed (simp add: rep)
qed

theorem migration_keeps_ledger_witness:
  "represents toy_crypto (ib_db (snd (migrate toy_crypto toy_call 10 (open_inbox one_db)))) [(''a'', toy_sha)]"
proof -
  obtain r ib' where "migrate toy_crypto toy_call 10 (open_inbox one_db) = (r, ib')" by fastforce
  with migration_keeps_ledger [OF _ toy_crypto_hex this, of "[(''a'', toy_sha)]"] one_db_facts(1)
  show ?thesis by simp
qed

text \<open>C9: Migration makes progress and finishes. On an honest store, none of whose records has been made
  larger than the bound by redaction, a batch succeeds and advances the
  backfilled sequence by the batch size up to the last legacy sequence; the format is the second
  one exactly when that sequence is reached, so a store of \<open>n\<close> legacy records is migrated by
  \<open>n / batch\<close> calls, rounded up.\<close>

theorem migration_advances:
  assumes rep: "represents cr (ib_db ib) L" and hex: "sha_hex cr" and small: "small_records (ib_db ib)"
    and call: "cl_ctx c = background" "\<And>k. cl_file_ok c k" "io_commit (cl_io c) = Committed"
    and ok: "\<not> ib_failed ib" "\<not> ib_closed ib" "\<not> ib_recovering ib" "writable (ib_db ib)"
      "meta_get (ib_db ib) ''recovery_fence'' = None" "version_of (ib_db ib) \<noteq> Some (Raw ''2'')"
    and batch: "1 \<le> batch" "batch \<le> 1000"
  shows "\<exists>st ib'. migrate cr c batch ib = (Inr st, ib')
    \<and> unat (mg_backfilled st) =
        min (unat (meta_uint (ib_db ib) ''backfilled_through'') + nat batch) (unat (migration_target (ib_db ib)))
    \<and> mg_legacy st = migration_target (ib_db ib)
    \<and> (mg_version st = ''2'') = (mg_backfilled st = migration_target (ib_db ib))"
proof -
  let ?d = "ib_db ib"
  have bg: "background m = None" for m by (simp add: background_def)
  have fence: "as_text (meta_get ?d ''recovery_fence'') \<noteq> Some ''1''" using ok(5) by simp
  from migrate_body_progress [where c = background and now = "cl_now c 0" and batch = "nat batch",
      OF rep hex small bg fence ok(6)]
  obtain t where t: "migrate_body cr background (cl_now c 0) (nat batch) (begin_tx ?d) = Inr ((), t)"
    and bf: "unat (meta_uint (mt_db t) ''backfilled_through'') =
       min (unat (meta_uint ?d ''backfilled_through'') + nat batch) (unat (migration_target ?d))"
    and leg: "meta_uint (mt_db t) ''legacy_through'' = migration_target ?d"
    and ver: "version_of (mt_db t) =
       Some (Raw (if meta_uint (mt_db t) ''backfilled_through'' = migration_target ?d then ''2'' else ''2-migrating''))"
    and has: "\<And>b. db_has ?d b \<Longrightarrow> db_has (mt_db t) b"
    and meta: "\<And>k. k \<notin> {''version'', ''legacy_through'', ''backfilled_through'', ''legacy_age_floor''} \<Longrightarrow>
       meta_get (mt_db t) k = meta_get ?d k"
    by metis
  have "writable (mt_db t)" using ok(4) has by (auto simp: writable_def meta)
  then obtain d' where d': "finish_update (cl_io c) t = Inr d'" using finish_update_ok by blast
  note S = same_contentD [OF finish_same_content [OF d']]
  let ?ib = "ib\<lparr>ib_db := d'\<rparr>"
  have upd: "update_locked (cl_io c) (migrate_body cr (cl_ctx c) (cl_now c 0) (nat batch)) ib = (Inr (), ?ib)"
    using t d' ok call by (simp add: update_locked_def run_update_def)
  have "migrate cr c batch ib = (migration c (nat batch + 2) 1 ?ib, ?ib)"
  proof -
    have "health c 0 0 ib = Inr ()" using ok(1-3) call by (simp add: health_Inr bg)
    with upd batch show ?thesis by (simp add: migrate_def)
  qed
  moreover obtain st where st: "migration c (nat batch + 2) 1 ?ib = Inr st"
      "mg_version st = text_or_empty (version_of d')" "mg_legacy st = meta_uint d' ''legacy_through''"
      "mg_backfilled st = meta_uint d' ''backfilled_through''"
    using ok call by (simp add: migration_def health_Inr bg Let_def)
  ultimately show ?thesis
    using bf leg ver by (auto simp: S text_or_empty_def)
qed

theorem migration_advances_witness:
  "\<exists>st ib'. migrate toy_crypto toy_call 10 (open_inbox one_db) = (Inr st, ib')
     \<and> mg_version st = ''2'' \<and> mg_legacy st = 1 \<and> mg_backfilled st = 1"
proof -
  note meta = one_db_meta
  have "migration_target one_db = 1" by (simp add: migration_target_def meta one_db_facts(2))
  with migration_advances [of toy_crypto "open_inbox one_db" "[(''a'', toy_digest)]" toy_call 10] one_db_facts(1) one_db_small
    toy_crypto_hex one_db_writable meta
  show ?thesis by (auto simp: word_unat_eq_iff)
qed

end
