(* ===== verification/SystemProperties.thy ===== *)
theory SystemProperties
  imports CompactionSample RetirementProperties
begin

text \<open>
  The properties of the system as a whole: the ledger only grows, a consumer that follows its
  cursor receives every entry once, and online compaction loses nothing and ends.
\<close>

text \<open>C15: The ledger only grows. Whatever operations of the inbox run, in whatever order and with
  whatever outcome (insertions, pages, migration batches, retirements, captures, catalog
  verifications, rehydrations, evictions, fences, admissions), the database afterwards represents
  the old ledger with entries appended, and the store keeps its identity.\<close>

theorem ledger_only_grows:
  assumes run: "serves cr ib ib'" and rep: "represents cr (ib_db ib) L" and hex: "sha_hex cr"
    and stored: "ranges_ordered (ib_db ib)" "captures_ok (ib_cfg ib) (ib_db ib)"
  shows "\<exists>M. represents cr (ib_db ib') (L @ M)
     \<and> meta_get (ib_db ib') ''identity'' = meta_get (ib_db ib) ''identity''"
  using serves_append [OF run stored(2) _ hex, of L] rep stored(1)
    commits_identity [OF conjunct1 [OF serves_commits [OF run stored(2)]]]
  by (auto simp: keeps_def appended_def)

theorem ledger_only_grows_witness:
  "\<exists>M. represents toy_crypto one_db ([] @ M)"
proof -
  have "serve toy_crypto (open_inbox fresh_db) (open_inbox one_db)"
    by (rule s_insert [OF _ toy_insert]) (simp add: running_clock_def toy_time_facts)
  then have run: "serves toy_crypto (open_inbox fresh_db) (open_inbox one_db)" by (intro serves.work [OF serves.idle])
  have stored: "ranges_ordered (ib_db (open_inbox fresh_db))" "captures_ok (ib_cfg (open_inbox fresh_db)) (ib_db (open_inbox fresh_db))"
    by (simp_all add: ranges_ordered_def captures_ok_def fresh_db_def db_defs)
  from ledger_only_grows [OF run _ toy_crypto_hex stored, of "[]"] fresh_db_represents show ?thesis by auto
qed

text \<open>C1: A consumer that follows its cursor receives every entry of the ledger exactly once, in commit
  order and without a gap: after any number of pages, with any operations in between, what it
  holds is the prefix of the ledger that its cursor says.\<close>

theorem consumer_receives_each_entry_once:
  assumes run: "follows cr ib0 ib cu rs" and rep: "represents cr (ib_db ib0) L" and hex: "sha_hex cr"
    and stored: "ranges_ordered (ib_db ib0)" "captures_ok (ib_cfg ib0) (ib_db ib0)"
  shows "\<exists>M. represents cr (ib_db ib) (L @ M)
     \<and> map summary rs = take (length rs) (L @ M) \<and> length rs = unat (cursor_after cu)
     \<and> map (\<lambda>r. unat (br_seq r)) rs = [1..<Suc (length rs)]"
proof -
  have "\<exists>M. keeps cr (ib_db ib) (L @ M) \<and> captures_ok (ib_cfg ib) (ib_db ib)
     \<and> map summary rs = take (length rs) (L @ M) \<and> length rs = unat (cursor_after cu)
     \<and> length rs \<le> length (L @ M) \<and> map (\<lambda>r. unat (br_seq r)) rs = [1..<Suc (length rs)]"
    using run
  proof (induction rule: follows.induct)
    case start
    show ?case using rep stored by (intro exI [of _ "[]"]) (simp add: keeps_def cursor_after_def)
  next
    case (others ib cu rs ib')
    then obtain M where M: "keeps cr (ib_db ib) (L @ M)" "captures_ok (ib_cfg ib) (ib_db ib)"
        "map summary rs = take (length rs) (L @ M)" "length rs = unat (cursor_after cu)"
        "length rs \<le> length (L @ M)" "map (\<lambda>r. unat (br_seq r)) rs = [1..<Suc (length rs)]" by blast
    have run: "serves cr ib ib'" by (rule serves.work [OF serves.idle others.hyps(2)])
    from serves_append [OF run M(2,1) hex] obtain N where N: "keeps cr (ib_db ib') ((L @ M) @ N)" by (auto simp: appended_def)
    have "captures_ok (ib_cfg ib') (ib_db ib')" using serves_commits [OF run M(2)] by simp
    with M N show ?case by (intro exI [of _ "M @ N"]) simp
  next
    case (reads ib cu rs c limit p ib')
    then obtain M where M: "keeps cr (ib_db ib) (L @ M)" "captures_ok (ib_cfg ib) (ib_db ib)"
        "map summary rs = take (length rs) (L @ M)" "length rs = unat (cursor_after cu)"
        "length rs \<le> length (L @ M)" "map (\<lambda>r. unat (br_seq r)) rs = [1..<Suc (length rs)]" by blast
    from reads.hyps(2) have view: "page_view cr (cl_ctx c) (ib_db ib) cu (nat limit) = Inr p" and same: "ib' = ib"
      by (auto simp: page_def split: sum.splits if_splits)
    have rep': "represents cr (ib_db ib) (L @ M)" using M(1) by (simp add: keeps_def)
    note V = page_view_slice [OF rep' view]
    let ?ps = "bp_records p"
    have after: "unat (bc_after (bp_next p)) = length (rs @ ?ps)" using V(2) M(4) by simp
    have "bc_after (bp_next p) \<le> db_seq (ib_db ib) ''events''" using V(4,5) by (rule order.trans)
    then have fits: "length (rs @ ?ps) \<le> length (L @ M)"
      using after rep' by (simp add: represents_def word_le_nat_alt)
    have "map summary (rs @ ?ps) = take (length (rs @ ?ps)) (L @ M)"
      using V(1) M(3,4) by (simp add: take_add flip: take_append)
    moreover have "map (\<lambda>r. unat (br_seq r)) (rs @ ?ps) = [1..<Suc (length (rs @ ?ps))]"
      using V(3) M(4,6) after upt_add_eq_append [of 1 "Suc (length rs)" "length ?ps"] by (simp del: upt_Suc)
    ultimately show ?case
      using M(1,2) same after fits by (intro exI [of _ M]) (simp add: cursor_after_def del: upt_Suc)
  qed
  then show ?thesis by (auto simp: keeps_def)
qed

theorem consumer_receives_each_entry_once_witness:
  "\<exists>p. page toy_crypto toy_call NoCursor 1 (open_inbox one_db) = (Inr p, open_inbox one_db)
     \<and> map (\<lambda>r. unat (br_seq r)) (bp_records p) = [1..<Suc (length (bp_records p))]"
proof -
  obtain p where p: "page toy_crypto toy_call NoCursor 1 (open_inbox one_db) = (Inr p, open_inbox one_db)"
    using toy_page by blast
  have start: "follows toy_crypto (open_inbox fresh_db) (open_inbox fresh_db) NoCursor []" by (rule follows.start)
  have "serve toy_crypto (open_inbox fresh_db) (open_inbox one_db)"
    by (rule s_insert [OF _ toy_insert]) (simp add: running_clock_def toy_time_facts)
  from follows.reads [OF follows.others [OF start this] p]
  have run: "follows toy_crypto (open_inbox fresh_db) (open_inbox one_db) (Cursor (bp_next p)) (bp_records p)" by simp
  have stored: "ranges_ordered (ib_db (open_inbox fresh_db))" "captures_ok (ib_cfg (open_inbox fresh_db)) (ib_db (open_inbox fresh_db))"
    by (simp_all add: ranges_ordered_def captures_ok_def fresh_db_def db_defs)
  from consumer_receives_each_entry_once [OF run _ toy_crypto_hex stored, of "[]"] fresh_db_represents p
  show ?thesis by auto
qed

text \<open>C2: Online compaction loses nothing. When it reports success, other operations may have run all
  the while; the inbox has switched to a database with exactly the contents of the live one at
  the moment of the switch: every bucket, key and sequence but the journal and the bookkeeping
  of compaction, and the generation it reports is the live one.\<close>

theorem compaction_takes_over:
  assumes run: "compact_online k cr c ev ib = Some (Inr final, ib')"
    and others: "\<And>n ib. serves cr ib (co_others ev n ib)" and caps: "captures_ok (ib_cfg ib) (ib_db ib)"
  shows "\<exists>ib1 live. begin_session (co_io ev 0) (co_bootstrap ev) (co_reset ev) (co_generation ev) ib = (Inr (), ib1)
     \<and> serves cr ib1 live \<and> takes_over (co_generation ev) (ib_db live) (ib_db ib')
     \<and> final = generation_of (ib_db live) \<and> ib' = live\<lparr>ib_db := ib_db ib'\<rparr>"
  using run
proof (cases rule: compact_online_cases)
  case (cut ib1 cp ib4 switched)
  let ?live = "later_inbox ev k (co_others ev 0 ib1)"
  have sw: "switched" using cutover_switches(2) [OF cut(3)] by auto
  with cut(4) have ib': "ib' = ib4" by simp
  from cutover_switches(3) [OF cut(3) sw] have fin: "finish_candidate (ib_db ?live) cp = Inr (final, ib_db ib4)"
      and rec: "ib4 = ?live\<lparr>ib_db := ib_db ib4\<rparr>" by auto
  note step = cutover_in_step [OF cut(1) caps others cut(2)]
  have "serves cr ib1 ?live" using others later_serves [OF others] by (meson serves_trans)
  moreover have "takes_over (co_generation ev) (ib_db ?live) (ib_db ib') \<and> final = generation_of (ib_db ?live)"
    using finish_candidate_takes_over [OF step(1) fin] step(2) ib' by simp
  moreover have "ib' = ?live\<lparr>ib_db := ib_db ib'\<rparr>" using rec unfolding ib' .
  ultimately show ?thesis using cut(1) by (intro exI [of _ ib1] exI [of _ ?live]) blast
qed auto

theorem compaction_takes_over_witness:
  "\<exists>live. takes_over ''g'' live over_db \<and> generation_of live = 2"
proof -
  from compaction_takes_over [OF quiet_compacts quiet_ok(4,1)] show ?thesis
    by (auto simp: quiet_run_def)
qed

text \<open>C16: However an online compaction ends (success, refusal, a failed copy, an overgrown journal, a
  catch-up that does not converge, a failed or half-visible publication), the inbox afterwards
  represents the old ledger with the entries appended by the operations that ran meanwhile.\<close>

theorem compaction_keeps_ledger:
  assumes run: "compact_online k cr c ev ib = Some (r, ib')"
    and others: "\<And>n ib. serves cr ib (co_others ev n ib)" and hex: "sha_hex cr"
    and rep: "represents cr (ib_db ib) L" and stored: "ranges_ordered (ib_db ib)" "captures_ok (ib_cfg ib) (ib_db ib)"
  shows "\<exists>M. represents cr (ib_db ib') (L @ M)"
  using compact_online_extends [OF run hex stored(2) others] rep stored
  unfolding extends_def appended_def keeps_def by blast

theorem compaction_keeps_ledger_witness: "\<exists>M. represents toy_crypto over_db ([] @ M)"
  using compaction_keeps_ledger [OF quiet_compacts quiet_ok(4) toy_crypto_hex _ quiet_ok(2,1), of "[]"]
    quiet_represents quiet_ok(3) by simp

text \<open>C17: The catch-up of an online compaction ends. A clock that passes the budget of thirty seconds
  bounds its rounds whatever the other writers do, and a store that stands still is caught up
  to within thirty-two generations after one round per 256 generations of lag.\<close>

theorem catch_up_returns:
  assumes clock: "elapsed n > catch_up_budget"
    and step: "journal_full cp d" "session_of d = Some (Raw (cp_generation cp))" "generation_of d \<noteq> - 1"
    and free: "\<And>j. c j = None" "\<And>j. saved j = Inr ()" "\<And>j. j < k \<Longrightarrow> quiet j \<le> catch_up_budget"
    and lag: "unat (generation_of d) - unat (cp_replayed cp) \<le> 32 + 256 * Suc k"
  shows "catch_up (Suc n) c' base saved' live elapsed 0 cp' \<noteq> None
     \<and> (\<exists>cp''. catch_up (Suc k) c base saved (\<lambda>_. d) quiet 0 cp = Some (Inr cp''))"
  using catch_up_ends_by [of 0 n elapsed "Suc n"] clock catch_up_quiet [OF step free(1,2), of 0 k quiet] free(3) lag
  by auto

theorem catch_up_returns_witness:
  "\<exists>cp'. catch_up (Suc 0) background 1 (\<lambda>_. Inr ()) (\<lambda>_. begun_db) (\<lambda>_. 0) 0 (snapshot ''g'' toy_store begun_db) = Some (Inr cp')"
proof -
  have full: "journal_full (snapshot ''g'' toy_store begun_db) begun_db"
    using in_step_snapshot [OF begun_facts(1,2)] by (auto simp: journal_full_def snapshot_def)
  have "catch_up_budget < catch_up_budget + 1" "background j = None" for j
    by (simp_all add: background_def)
  from catch_up_returns [of "\<lambda>_. catch_up_budget + 1" 0, OF _ full, of background "\<lambda>_. Inr ()" 0 "\<lambda>_. 0"] this
  show ?thesis using begun_facts by (simp add: snapshot_def)
qed

end
