(* ===== verification/Forwarder.thy ===== *)
theory Forwarder
  imports Event "HOL-Library.Sublist"
begin

text \<open>
  \<open>forwarder.go\<close>, \<open>spool.go\<close>, \<open>cursor.go\<close> and \<open>http_sink.go\<close>: the log forwarder. A run flushes the
  spool, reads the records after the saved cursor, sends their events and saves the new
  cursor; when sending fails the events go to the spool and the cursor stays. The outcome of
  every system call is an argument.
\<close>

section \<open>Cursor stores\<close>

definition memory_load :: "bytes \<Rightarrow> go_error + bytes" where
  "memory_load s = Inr s"

definition memory_save :: "unit \<Rightarrow> bytes \<Rightarrow> bytes \<Rightarrow> (go_error + unit) \<times> bytes" where
  "memory_save io cursor s = (Inr (), cursor)"

text \<open>The cursor file: missing, readable with its content, or not readable.\<close>

datatype cursor_file = Missing | Content bytes | Unreadable go_error

text \<open>\<open>os.WriteFile\<close> truncates the file first; a failed write leaves a part of the data behind.\<close>

datatype file_io = FileOk | MkdirFailed go_error | OpenFailed go_error | WriteFailed go_error nat

definition file_load :: "cursor_file \<Rightarrow> go_error + bytes" where
  "file_load f =
     (case f of
        Missing \<Rightarrow> Inr []
      | Unreadable x \<Rightarrow> Inl x
      | Content data \<Rightarrow> Inr (trim_space data))"

definition file_save :: "file_io \<Rightarrow> bytes \<Rightarrow> cursor_file \<Rightarrow> (go_error + unit) \<times> cursor_file" where
  "file_save io cursor f =
     (case io of
        MkdirFailed x \<Rightarrow> (Inl x, f)
      | OpenFailed x \<Rightarrow> (Inl x, f)
      | WriteFailed x n \<Rightarrow> (Inl x, Content (take n (cursor @ [CHR 0x0A])))
      | FileOk \<Rightarrow> (Inr (), Content (cursor @ [CHR 0x0A])))"

section \<open>The sink\<close>

text \<open>What the HTTP client reports for a request: an error, or a response with its status code.\<close>

datatype http_outcome = NoResponse go_error | Status nat

text \<open>\<open>post n es\<close> is the \<open>n\<close>-th request of a run with its effect on the remote side.\<close>

definition http_send ::
    "(nat \<Rightarrow> log_event list \<Rightarrow> 'k \<Rightarrow> http_outcome \<times> 'k) \<Rightarrow> nat \<Rightarrow> log_event list \<Rightarrow> 'k \<Rightarrow> (go_error + unit) \<times> 'k" where
  "http_send post n events k =
     (if \<not> list_all event_json_ok events then (Inl (ErrMsg ''json: unsupported value''), k)
      else case post n events k of
             (NoResponse x, k) \<Rightarrow> (Inl x, k)
           | (Status s, k) \<Rightarrow>
               if s < 200 \<or> s > 299 then (Inl (ErrMsg (''ingest failed: status='' @ dec_nat s)), k) else (Inr (), k))"

section \<open>The spool\<close>

text \<open>A spool file holds a batch, or text that does not decode; its size and modification time are known.\<close>

datatype spool_data = Batch "log_event list" | Junk

record spool_file =
  sf_data :: spool_data
  sf_size :: int
  sf_time :: gtime

text \<open>The directory by name, in the order of the names, and its subdirectory \<open>bad\<close>.\<close>

record spool =
  sp_files :: "(bytes \<times> spool_file) list"
  sp_bad :: "(bytes \<times> spool_file) list"

text \<open>
  The environment of one call on the spool: \<open>si_list\<close> is the outcome of reading the directory, \<open>si_read\<close>
  and \<open>si_remove\<close> of reading and removing a file, \<open>si_bad_dir\<close> of creating and inspecting \<open>bad\<close>, \<open>si_rename\<close> of moving a file there,
  \<open>si_stamp\<close> the time as it is formatted into names.
\<close>

record spool_io =
  si_mkdir :: "go_error + unit"
  si_write :: "go_error + unit"
  si_list :: "go_error + unit"
  si_read :: "bytes \<Rightarrow> go_error + unit"
  si_remove :: "bytes \<Rightarrow> go_error + unit"
  si_bad_dir :: "go_error + unit"
  si_rename :: "bytes \<Rightarrow> go_error + unit"
  si_stamp :: bytes
  si_now :: gtime

definition spool_total :: "(bytes \<times> spool_file) list \<Rightarrow> int" where
  "spool_total fs = sum_list (map (sf_size \<circ> snd) fs)"

text \<open>The loop of \<open>enforceLimit\<close> over the entries, oldest name first.\<close>

fun drop_oldest ::
    "(bytes \<Rightarrow> go_error + unit) \<Rightarrow> int \<Rightarrow> int \<Rightarrow> (bytes \<times> spool_file) list \<Rightarrow> spool \<Rightarrow> (go_error + unit) \<times> spool" where
  "drop_oldest remove limit used [] s = (Inr (), s)"
| "drop_oldest remove limit used ((name, f) # fs) s =
     (if used \<le> limit then (Inr (), s)
      else case remove name of
             Inl x \<Rightarrow> (Inl x, s)
           | Inr _ \<Rightarrow> drop_oldest remove limit (used - sf_size f) fs (s\<lparr>sp_files := adel name (sp_files s)\<rparr>))"

definition enforce_limit :: "int \<Rightarrow> spool_io \<Rightarrow> spool \<Rightarrow> (go_error + unit) \<times> spool" where
  "enforce_limit max_bytes io s =
     (if max_bytes \<le> 0 then (Inr (), s)
      else case si_list io of
             Inl x \<Rightarrow> (Inl x, s)
           | Inr _ \<Rightarrow> drop_oldest (si_remove io) max_bytes (spool_total (sp_files s)) (sp_files s) s)"

text \<open>A failed write leaves a file that does not decode.\<close>

definition spool_name :: "spool_io \<Rightarrow> bytes" where
  "spool_name io = si_stamp io @ ''.json''"

definition enqueue :: "int \<Rightarrow> spool_io \<Rightarrow> int \<Rightarrow> log_event list \<Rightarrow> spool \<Rightarrow> (go_error + unit) \<times> spool" where
  "enqueue max_bytes io len events s =
     (if events = [] then (Inr (), s)
      else case si_mkdir io of
             Inl x \<Rightarrow> (Inl x, s)
           | Inr _ \<Rightarrow>
               if \<not> list_all event_json_ok events then (Inl (ErrMsg ''json: unsupported value''), s)
               else case si_write io of
                      Inl x \<Rightarrow> (Inl x, s\<lparr>sp_files := aput (spool_name io) \<lparr>sf_data = Junk, sf_size = len, sf_time = si_now io\<rparr> (sp_files s)\<rparr>)
                    | Inr _ \<Rightarrow>
                        enforce_limit max_bytes io
                          (s\<lparr>sp_files := aput (spool_name io) \<lparr>sf_data = Batch events, sf_size = len, sf_time = si_now io\<rparr> (sp_files s)\<rparr>))"

definition quarantine :: "spool_io \<Rightarrow> bytes \<Rightarrow> spool_file \<Rightarrow> spool \<Rightarrow> (go_error + unit) \<times> spool" where
  "quarantine io name f s =
     (case si_bad_dir io of
        Inl x \<Rightarrow> (Inl x, s)
      | Inr _ \<Rightarrow>
          let target = (if aget (sp_bad s) name = None then name else si_stamp io @ ''-'' @ name)
          in case si_rename io name of
               Inl x \<Rightarrow> (Inl x, s)
             | Inr _ \<Rightarrow> (Inr (), s\<lparr>sp_files := adel name (sp_files s), sp_bad := aput target f (sp_bad s)\<rparr>))"

text \<open>The loop of \<open>Flush\<close>; \<open>n\<close> numbers the requests to the sink.\<close>

fun flush_entries ::
    "spool_io \<Rightarrow> (nat \<Rightarrow> log_event list \<Rightarrow> 'k \<Rightarrow> (go_error + unit) \<times> 'k) \<Rightarrow> nat \<Rightarrow> (bytes \<times> spool_file) list \<Rightarrow> spool \<Rightarrow> 'k \<Rightarrow>
     (go_error + nat) \<times> spool \<times> 'k" where
  "flush_entries io send n [] s k = (Inr n, s, k)"
| "flush_entries io send n ((name, f) # fs) s k =
     (case si_read io name of
        Inl x \<Rightarrow> (Inl x, s, k)
      | Inr _ \<Rightarrow>
          (case sf_data f of
             Junk \<Rightarrow>
               (case quarantine io name f s of
                  (Inl x, s) \<Rightarrow> (Inl x, s, k)
                | (Inr _, s) \<Rightarrow> flush_entries io send n fs s k)
           | Batch events \<Rightarrow>
               (case send n events k of
                  (Inl x, k) \<Rightarrow> (Inl x, s, k)
                | (Inr _, k) \<Rightarrow>
                    (case si_remove io name of
                       Inl x \<Rightarrow> (Inl x, s, k)
                     | Inr _ \<Rightarrow> flush_entries io send (n + 1) fs (s\<lparr>sp_files := adel name (sp_files s)\<rparr>) k))))"

definition flush_spool ::
    "spool_io \<Rightarrow> (nat \<Rightarrow> log_event list \<Rightarrow> 'k \<Rightarrow> (go_error + unit) \<times> 'k) \<Rightarrow> spool \<Rightarrow> 'k \<Rightarrow> (go_error + nat) \<times> spool \<times> 'k" where
  "flush_spool io send s k =
     (case si_list io of
        Inl x \<Rightarrow> (Inl x, s, k)
      | Inr _ \<Rightarrow> flush_entries io send 0 (sp_files s) s k)"

record spool_stats =
  st_count :: nat
  st_bytes :: int
  st_age :: int

definition age_seconds :: "gtime \<Rightarrow> gtime \<Rightarrow> int" where
  "age_seconds now t = max 0 ((instant now - instant t) div second)"

definition stats :: "spool_io \<Rightarrow> spool \<Rightarrow> go_error + spool_stats" where
  "stats io s =
     andThen (si_list io) (\<lambda>_.
       Inr \<lparr>st_count = length (sp_files s), st_bytes = spool_total (sp_files s),
            st_age = foldl (\<lambda>oldest kf.
               let age = age_seconds (si_now io) (sf_time (snd kf))
               in if oldest = 0 \<or> age > oldest then age else oldest) 0 (sp_files s)\<rparr>)"

section \<open>The forwarder\<close>

record journal_record =
  jr_cursor :: bytes
  jr_event :: log_event

record forwarder_status =
  fs_cursor :: bytes
  fs_upload :: gtime
  fs_error :: bytes
  fs_degraded :: bool
  fs_uploaded :: nat

record ('c, 'k) forwarder =
  fw_cursor :: 'c
  fw_spool :: "spool option"
  fw_sink :: 'k
  fw_status :: forwarder_status

text \<open>
  One run and its environment: the source, the sink and the cursor store as the interfaces of
  \<open>Forwarder\<close>, and the outcomes of the spool's system calls.
\<close>

record ('c, 'i, 'k) run_env =
  re_read :: "bytes \<Rightarrow> int \<Rightarrow> go_error + journal_record list"
  re_send :: "nat \<Rightarrow> log_event list \<Rightarrow> 'k \<Rightarrow> (go_error + unit) \<times> 'k"
  re_load :: "'c \<Rightarrow> go_error + bytes"
  re_save :: "'i \<Rightarrow> bytes \<Rightarrow> 'c \<Rightarrow> (go_error + unit) \<times> 'c"
  re_save_io :: 'i
  re_spool_io :: spool_io
  re_spool_max :: int
  re_spool_size :: int
  re_batch :: int
  re_now :: gtime

definition batch_size :: "int \<Rightarrow> int" where
  "batch_size n = (if n \<le> 0 then 100 else n)"

definition set_error :: "bytes \<Rightarrow> bytes \<Rightarrow> ('c, 'k) forwarder \<Rightarrow> ('c, 'k) forwarder" where
  "set_error cursor msg f = f\<lparr>fw_status := (fw_status f)\<lparr>fs_cursor := cursor, fs_error := msg, fs_degraded := True\<rparr>\<rparr>"

definition set_ok :: "gtime \<Rightarrow> bytes \<Rightarrow> nat \<Rightarrow> ('c, 'k) forwarder \<Rightarrow> ('c, 'k) forwarder" where
  "set_ok now cursor n f =
     f\<lparr>fw_status := (fw_status f)\<lparr>fs_cursor := cursor, fs_error := [], fs_degraded := False,
        fs_upload := (if n > 0 then utc now else fs_upload (fw_status f)), fs_uploaded := n\<rparr>\<rparr>"

text \<open>The flush at the start of a run; without a spool there is nothing to do.\<close>

definition flush_first :: "('c, 'i, 'k) run_env \<Rightarrow> ('c, 'k) forwarder \<Rightarrow> (go_error + nat) \<times> ('c, 'k) forwarder" where
  "flush_first env f =
     (case fw_spool f of
        None \<Rightarrow> (Inr 0, f)
      | Some s \<Rightarrow>
          (case flush_spool (re_spool_io env) (re_send env) s (fw_sink f) of
             (r, s, k) \<Rightarrow> (r, f\<lparr>fw_spool := Some s, fw_sink := k\<rparr>)))"

text \<open>\<open>msg\<close> is \<open>err.Error()\<close>.\<close>

definition run_once ::
    "(go_error \<Rightarrow> bytes) \<Rightarrow> ('c, 'i, 'k) run_env \<Rightarrow> ('c, 'k) forwarder \<Rightarrow> (go_error + unit) \<times> ('c, 'k) forwarder" where
  "run_once msg env f =
     (case flush_first env f of
        (Inl x, f) \<Rightarrow> (Inl x, set_error [] (msg x) f)
      | (Inr n, f) \<Rightarrow>
          (case re_load env (fw_cursor f) of
             Inl x \<Rightarrow> (Inl x, set_error [] (msg x) f)
           | Inr aft \<Rightarrow>
               (case re_read env aft (batch_size (re_batch env)) of
                  Inl x \<Rightarrow> (Inl x, set_error aft (msg x) f)
                | Inr [] \<Rightarrow> (Inr (), set_ok (re_now env) aft 0 f)
                | Inr (r # rs) \<Rightarrow>
                    let records = r # rs; events = map jr_event records; new = jr_cursor (last records)
                    in case re_send env n events (fw_sink f) of
                         (Inl x, k) \<Rightarrow>
                           let f = f\<lparr>fw_sink := k, fw_spool := map_option (\<lambda>s.
                                 snd (enqueue (re_spool_max env) (re_spool_io env) (re_spool_size env) events s)) (fw_spool f)\<rparr>
                           in (Inl x, set_error aft (msg x) f)
                       | (Inr _, k) \<Rightarrow>
                           let f = f\<lparr>fw_sink := k\<rparr>
                           in case re_save env (re_save_io env) new (fw_cursor f) of
                                (Inl x, c) \<Rightarrow> (Inl x, set_error aft (msg x) (f\<lparr>fw_cursor := c\<rparr>))
                              | (Inr _, c) \<Rightarrow> (Inr (), set_ok (re_now env) new (length events) (f\<lparr>fw_cursor := c\<rparr>)))))"

text \<open>\<open>Status\<close> with the state of the spool, and the health check of \<open>ForwarderStatusHandler\<close>.\<close>

record status_report =
  sr_status :: forwarder_status
  sr_stats :: "spool_stats option"
  sr_spool_error :: bytes

definition report :: "(go_error \<Rightarrow> bytes) \<Rightarrow> spool_io \<Rightarrow> ('c, 'k) forwarder \<Rightarrow> status_report" where
  "report msg io f =
     (case fw_spool f of
        None \<Rightarrow> \<lparr>sr_status = fw_status f, sr_stats = None, sr_spool_error = []\<rparr>
      | Some s \<Rightarrow>
          (case stats io s of
             Inl x \<Rightarrow> \<lparr>sr_status = fw_status f, sr_stats = None, sr_spool_error = msg x\<rparr>
           | Inr st \<Rightarrow> \<lparr>sr_status = fw_status f, sr_stats = Some st, sr_spool_error = []\<rparr>))"

datatype status_reply = StatusError nat bytes | StatusNoContent | StatusBody status_report

definition status_handler :: "(go_error \<Rightarrow> bytes) \<Rightarrow> spool_io \<Rightarrow> bytes \<Rightarrow> bytes \<Rightarrow> ('c, 'k) forwarder \<Rightarrow> status_reply" where
  "status_handler msg io path verb f =
     (if path = ''/healthz'' then
        (if verb \<noteq> ''GET'' then StatusError 405 ''method not allowed''
         else if fs_degraded (sr_status (report msg io f)) then StatusError 503 ''forwarder degraded'' else StatusNoContent)
      else if path = ''/status'' then
        (if verb \<noteq> ''GET'' then StatusError 405 ''method not allowed'' else StatusBody (report msg io f))
      else StatusError 404 ''404 page not found'')"

end
