(* ===== verification/EventStore.thy ===== *)
theory EventStore
  imports Event "HOL-Library.Multiset"
begin

text \<open>
  \<open>store.go\<close>: the event store of the operational logs, the query and its filters, the order
  and the limit of the answer, and the store in memory. A locale states what the callers of a
  store rely on: an event identifier is accepted at most once.
\<close>

section \<open>Queries\<close>

record event_query =
  eq_since :: gtime
  eq_until :: gtime
  eq_limit :: int
  eq_order :: bytes
  eq_id :: bytes
  eq_env :: bytes
  eq_service :: bytes
  eq_host :: bytes
  eq_unit :: bytes
  eq_level :: bytes
  eq_source :: bytes
  eq_stream :: bytes
  eq_trace :: bytes
  eq_request :: bytes
  eq_operation :: bytes
  eq_device :: bytes
  eq_org :: bytes
  eq_user :: bytes
  eq_component :: bytes
  eq_actor :: bytes
  eq_actor_type :: bytes
  eq_outcome :: bytes
  eq_status_code :: bytes
  eq_status_class :: bytes

definition match :: "bytes \<Rightarrow> bytes \<Rightarrow> bool" where
  "match want got = (want = [] \<or> want = got)"

definition matches :: "event_query \<Rightarrow> log_event \<Rightarrow> bool" where
  "matches q e =
     (if \<not> is_zero (eq_since q) \<and> before (ev_time e) (eq_since q) then False
      else if \<not> is_zero (eq_until q) \<and> after (ev_time e) (eq_until q) then False
      else
        match (eq_env q) (ev_env e) \<and> match (eq_id q) (ev_id e) \<and> match (eq_service q) (ev_service e)
        \<and> match (eq_host q) (ev_host e) \<and> match (eq_unit q) (ev_unit e) \<and> match (eq_level q) (ev_level e)
        \<and> match (eq_source q) (ev_source e) \<and> match (eq_stream q) (ev_stream e)
        \<and> match (eq_trace q) (ev_trace e) \<and> match (eq_request q) (ev_request e)
        \<and> match (eq_operation q) (ev_operation e) \<and> match (eq_device q) (ev_device e)
        \<and> match (eq_org q) (ev_org e) \<and> match (eq_user q) (ev_user e)
        \<and> match (eq_component q) (ev_component e) \<and> match (eq_actor q) (ev_actor e)
        \<and> match (eq_actor_type q) (ev_actor_type e) \<and> match (eq_outcome q) (ev_outcome e)
        \<and> match (eq_status_code q) (ev_status_code e) \<and> match (eq_status_class q) (ev_status_class e))"

section \<open>Order and limit\<close>

text \<open>
  The comparison that \<open>applyQueryOrderAndLimit\<close> passes to \<open>sort.Slice\<close>. The sort is not stable and
  its algorithm is not specified; \<open>sorted_perm_unique\<close> shows that on events with distinct
  identifiers there is only one sorted arrangement, so insertion gives what any sort gives.
\<close>

definition event_less :: "bytes \<Rightarrow> log_event \<Rightarrow> log_event \<Rightarrow> bool" where
  "event_less order a b =
     (if same_instant (ev_time a) (ev_time b) then
        (if order = ''asc'' then ev_id a < ev_id b else ev_id b < ev_id a)
      else if order = ''asc'' then before (ev_time a) (ev_time b)
      else after (ev_time a) (ev_time b))"

fun insert_by :: "('a \<Rightarrow> 'a \<Rightarrow> bool) \<Rightarrow> 'a \<Rightarrow> 'a list \<Rightarrow> 'a list" where
  "insert_by lt x [] = [x]"
| "insert_by lt x (y # ys) = (if lt y x then y # insert_by lt x ys else x # y # ys)"

definition sort_slice :: "('a \<Rightarrow> 'a \<Rightarrow> bool) \<Rightarrow> 'a list \<Rightarrow> 'a list" where
  "sort_slice lt xs = foldr (insert_by lt) xs []"

definition apply_order_and_limit :: "log_event list \<Rightarrow> event_query \<Rightarrow> log_event list" where
  "apply_order_and_limit events q =
     (let order = (if eq_order q = [] then ''desc'' else eq_order q);
          events = sort_slice (event_less order) events
      in if eq_limit q > 0 \<and> int (length events) > eq_limit q then take (nat (eq_limit q)) events else events)"

lemma set_insert_by [simp]: "set (insert_by lt x ys) = insert x (set ys)"
  by (induction ys) auto

lemma mset_insert_by [simp]: "mset (insert_by lt x ys) = add_mset x (mset ys)"
  by (induction ys) auto

lemma mset_sort_slice [simp]: "mset (sort_slice lt xs) = mset xs"
  unfolding sort_slice_def by (induction xs) auto

lemma set_sort_slice [simp]: "set (sort_slice lt xs) = set xs"
  using mset_sort_slice [of lt xs] by (metis set_mset_mset)

lemma length_sort_slice [simp]: "length (sort_slice lt xs) = length xs"
  using mset_sort_slice [of lt xs] by (metis size_mset)

text \<open>A strict order that compares any two different members of a list.\<close>

definition strict_on :: "('a \<Rightarrow> 'a \<Rightarrow> bool) \<Rightarrow> 'a set \<Rightarrow> bool" where
  "strict_on lt A =
     ((\<forall>x \<in> A. \<not> lt x x) \<and> (\<forall>x \<in> A. \<forall>y \<in> A. \<forall>z \<in> A. lt x y \<longrightarrow> lt y z \<longrightarrow> lt x z)
      \<and> (\<forall>x \<in> A. \<forall>y \<in> A. x \<noteq> y \<longrightarrow> lt x y \<or> lt y x))"

lemma strict_on_subset: "strict_on lt A \<Longrightarrow> B \<subseteq> A \<Longrightarrow> strict_on lt B"
  unfolding strict_on_def by blast

lemma sorted_insert_by:
  assumes "strict_on lt (insert x (set ys))" "x \<notin> set ys" "sorted_wrt lt ys"
  shows "sorted_wrt lt (insert_by lt x ys)"
  using assms
proof (induction ys)
  case (Cons y ys)
  have sub: "strict_on lt (insert x (set ys))"
    by (rule strict_on_subset [OF Cons.prems(1)]) auto
  show ?case
  proof (cases "lt y x")
    case True
    then show ?thesis using Cons.IH [OF sub] Cons.prems by auto
  next
    case False
    have xy: "lt x y" using Cons.prems(1,2) False by (auto simp: strict_on_def)
    have "lt x z" if "z \<in> set ys" for z
    proof -
      have "lt y z" using that Cons.prems(3) by simp
      with xy that Cons.prems(1) show ?thesis unfolding strict_on_def by (meson insertCI list.set_intros)
    qed
    with xy False Cons.prems(3) show ?thesis by auto
  qed
qed simp

lemma sorted_sort_slice:
  assumes "strict_on lt (set xs)" "distinct xs"
  shows "sorted_wrt lt (sort_slice lt xs)"
  using assms
proof (induction xs)
  case (Cons x xs)
  have "strict_on lt (set xs)" by (rule strict_on_subset [OF Cons.prems(1)]) auto
  with Cons have "sorted_wrt lt (sort_slice lt xs)" by simp
  moreover have "strict_on lt (insert x (set (sort_slice lt xs)))" using Cons.prems(1) by simp
  ultimately have "sorted_wrt lt (insert_by lt x (sort_slice lt xs))"
    using Cons.prems(2) by (intro sorted_insert_by) auto
  then show ?case by (simp add: sort_slice_def)
qed (simp add: sort_slice_def)

lemma sorted_perm_unique:
  assumes "mset xs = mset ys" "sorted_wrt lt xs" "sorted_wrt lt ys" "strict_on lt (set xs)"
  shows "xs = ys"
  using assms
proof (induction xs arbitrary: ys)
  case (Cons x xs)
  then obtain y zs where ys: "ys = y # zs" by (cases ys) auto
  have sets: "set (x # xs) = set (y # zs)" using Cons.prems(1) ys by (metis set_mset_mset)
  have "x = y"
  proof (rule ccontr)
    assume ne: "x \<noteq> y"
    with sets have "y \<in> set xs" "x \<in> set zs" by auto
    then have "lt x y" "lt y x" using Cons.prems(2,3) ys by auto
    with Cons.prems(4) sets show False unfolding strict_on_def by (metis list.set_intros(1))
  qed
  moreover have "strict_on lt (set xs)" by (rule strict_on_subset [OF Cons.prems(4)]) auto
  ultimately show ?case using Cons.IH [of zs] Cons.prems(1-3) ys by simp
qed simp

lemma event_less_strict:
  assumes "inj_on ev_id A"
  shows "strict_on (event_less order) A"
  unfolding strict_on_def event_less_def time_defs
  using assms by (auto simp: not_less le_less dest: inj_onD split: if_splits intro: order.strict_trans)

section \<open>The store in memory\<close>

text \<open>The map from identifiers to events, in the order of the keys.\<close>

type_synonym memory_store = "(bytes \<times> log_event) list"

definition memory_insert :: "log_event \<Rightarrow> memory_store \<Rightarrow> (go_error + unit) \<times> memory_store" where
  "memory_insert e s =
     (let e = redact_event e
      in case validate_event e of
           Inl x \<Rightarrow> (Inl x, s)
         | Inr _ \<Rightarrow>
             if aget s (ev_id e) \<noteq> None then (Inl ErrDuplicateEvent, s)
             else (Inr (), aput (ev_id e) e s))"

definition memory_query :: "event_query \<Rightarrow> memory_store \<Rightarrow> log_event list" where
  "memory_query q s = apply_order_and_limit (filter (matches q) (map snd s)) q"

definition memory_count :: "memory_store \<Rightarrow> nat" where
  "memory_count s = length s"

section \<open>The contract of a store\<close>

text \<open>Inserting a list of events, each with what its environment contributes.\<close>

fun insert_all ::
    "('x \<Rightarrow> log_event \<Rightarrow> 's \<Rightarrow> (go_error + unit) \<times> 's) \<Rightarrow> ('x \<times> log_event) list \<Rightarrow> 's \<Rightarrow> (go_error + unit) list \<times> 's" where
  "insert_all ins [] s = ([], s)"
| "insert_all ins ((x, e) # xs) s =
     (case ins x e s of (r, s) \<Rightarrow> (case insert_all ins xs s of (rs, s) \<Rightarrow> (r # rs, s)))"

definition accepted_ids :: "('x \<times> log_event) list \<Rightarrow> (go_error + unit) list \<Rightarrow> bytes list" where
  "accepted_ids xs rs = map (\<lambda>((x, e), r). ev_id e) (filter (\<lambda>(xe, r). r = Inr ()) (zip xs rs))"

locale event_store =
  fixes ins :: "'x \<Rightarrow> log_event \<Rightarrow> 's \<Rightarrow> (go_error + unit) \<times> 's" and known :: "'s \<Rightarrow> bytes set"
  assumes accepts: "ins x e s = (Inr u, s') \<Longrightarrow> ev_id e \<notin> known s \<and> known s' = insert (ev_id e) (known s)"
    and refuses: "ins x e s = (Inl er, s') \<Longrightarrow> known s \<subseteq> known s'"
    and repeats: "ins x e s = (r, s') \<Longrightarrow> ev_id e \<in> known s \<Longrightarrow> s' = s \<and> (\<exists>er. r = Inl er)"
begin

lemma known_grows: "insert_all ins xs s = (rs, s') \<Longrightarrow> known s \<subseteq> known s'"
proof (induction xs arbitrary: s rs)
  case (Cons xe xs)
  obtain x e where xe: "xe = (x, e)" by fastforce
  obtain r s1 rs1 where one: "ins x e s = (r, s1)" "insert_all ins xs s1 = (rs1, s')"
    using Cons.prems xe by (auto split: prod.splits)
  have "known s \<subseteq> known s1" using one(1) accepts refuses by (cases r) blast+
  with Cons.IH [OF one(2)] show ?case by blast
qed simp

lemma accepted_once:
  "insert_all ins xs s = (rs, s') \<Longrightarrow>
     distinct (accepted_ids xs rs) \<and> set (accepted_ids xs rs) \<inter> known s = {} \<and> set (accepted_ids xs rs) \<subseteq> known s'"
proof (induction xs arbitrary: s rs)
  case (Cons xe xs)
  obtain x e where xe: "xe = (x, e)" by fastforce
  obtain r s1 rs1 where one: "ins x e s = (r, s1)" "insert_all ins xs s1 = (rs1, s')" "rs = r # rs1"
    using Cons.prems xe by (auto split: prod.splits)
  note rest = Cons.IH [OF one(2)]
  show ?case
  proof (cases r)
    case (Inl er)
    have "known s \<subseteq> known s1" using one(1) Inl refuses by blast
    moreover have "accepted_ids (xe # xs) rs = accepted_ids xs rs1" by (simp add: accepted_ids_def one(3) Inl)
    ultimately show ?thesis using rest by auto
  next
    case (Inr u)
    have "ev_id e \<notin> known s" "known s1 = insert (ev_id e) (known s)" using accepts one(1) Inr by blast+
    moreover have "accepted_ids (xe # xs) rs = ev_id e # accepted_ids xs rs1"
      by (simp add: accepted_ids_def one(3) Inr xe)
    moreover have "known s1 \<subseteq> known s'" by (rule known_grows [OF one(2)])
    ultimately show ?thesis using rest by auto
  qed
qed (simp add: accepted_ids_def)

end

text \<open>A store whose failures leave no trace, so that a rejected event can be sent again.\<close>

locale retriable_store = event_store +
  assumes untouched: "ins x e s = (Inl er, s') \<Longrightarrow> known s' = known s"
begin

lemma known_exactly:
  "insert_all ins xs s = (rs, s') \<Longrightarrow> known s' = known s \<union> set (accepted_ids xs rs)"
proof (induction xs arbitrary: s rs)
  case (Cons xe xs)
  obtain x e where xe: "xe = (x, e)" by fastforce
  obtain r s1 rs1 where one: "ins x e s = (r, s1)" "insert_all ins xs s1 = (rs1, s')" "rs = r # rs1"
    using Cons.prems xe by (auto split: prod.splits)
  note rest = Cons.IH [OF one(2)]
  show ?case
  proof (cases r)
    case (Inl er)
    then show ?thesis using rest untouched one(1) by (simp add: accepted_ids_def one(3))
  next
    case (Inr u)
    then show ?thesis using rest accepts one(1) by (simp add: accepted_ids_def one(3) xe)
  qed
qed (simp add: accepted_ids_def)

end

lemma memory_insert_cases:
  assumes "memory_insert e s = (r, s')"
  obtains (invalid) x where "r = Inl x" "x \<noteq> ErrDuplicateEvent" "s' = s"
  | (known) "r = Inl ErrDuplicateEvent" "aget s (ev_id e) \<noteq> None" "s' = s"
  | (new) "r = Inr ()" "aget s (ev_id e) = None" "validate_event (redact_event e) = Inr ()"
      "s' = aput (ev_id e) (redact_event e) s"
proof (cases "validate_event (redact_event e)")
  case (Inl x)
  then have "x \<noteq> ErrDuplicateEvent" by (auto simp: validate_event_def split: if_splits)
  with assms Inl show thesis by (intro invalid) (auto simp: memory_insert_def Let_def)
next
  case (Inr u)
  with assms show thesis
    by (cases "aget s (ev_id e)") (auto simp: memory_insert_def Let_def intro: known new)
qed

interpretation memory: retriable_store "\<lambda>_. memory_insert" "\<lambda>s. set (akeys s)"
proof
  fix x :: 'x and e s s' r and u :: unit and er
  have keys: "aget s i = None \<longleftrightarrow> i \<notin> set (akeys s)" for i s
    by (simp add: map_of_eq_None_iff akeys_def)
  show "memory_insert e s = (Inr u, s') \<Longrightarrow> ev_id e \<notin> set (akeys s) \<and> set (akeys s') = insert (ev_id e) (set (akeys s))"
    by (erule memory_insert_cases) (auto simp: keys)
  show "memory_insert e s = (Inl er, s') \<Longrightarrow> set (akeys s) \<subseteq> set (akeys s')"
    by (erule memory_insert_cases) auto
  show "memory_insert e s = (r, s') \<Longrightarrow> ev_id e \<in> set (akeys s) \<Longrightarrow> s' = s \<and> (\<exists>er. r = Inl er)"
    by (erule memory_insert_cases) (simp_all add: keys)
  show "memory_insert e s = (Inl er, s') \<Longrightarrow> set (akeys s') = set (akeys s)"
    by (erule memory_insert_cases) auto
qed

section \<open>What a store in memory holds and answers\<close>

definition memory_ok :: "memory_store \<Rightarrow> bool" where
  "memory_ok s =
     (ordered s \<and> list_all (\<lambda>(k, e). ev_id e = k \<and> redact_event e = e \<and> validate_event e = Inr ()) s)"

lemma memory_insert_ok: "memory_insert e s = (r, s') \<Longrightarrow> memory_ok s \<Longrightarrow> memory_ok s'"
  by (erule memory_insert_cases) (auto simp: memory_ok_def redact_event_idem intro!: list_all_aput)

lemma memory_ids: "memory_ok s \<Longrightarrow> map ev_id (map snd s) = akeys s"
  by (auto simp: memory_ok_def akeys_def list_all_iff)

text \<open>The filtered events have distinct identifiers, so the answer does not depend on how the map is walked.\<close>

lemma order_and_limit_walk:
  assumes "mset es = mset es'" "inj_on ev_id (set es)" "distinct es"
  shows "apply_order_and_limit es q = apply_order_and_limit es' q"
proof -
  define order where "order = (if eq_order q = [] then ''desc'' else eq_order q)"
  have sets: "set es' = set es" "distinct es'" using assms(1,3) by (metis set_mset_mset, metis mset_eq_imp_distinct_iff)
  have strict: "strict_on (event_less order) (set es)" by (rule event_less_strict [OF assms(2)])
  have "sort_slice (event_less order) es = sort_slice (event_less order) es'"
  proof (rule sorted_perm_unique [where lt = "event_less order"])
    show "sorted_wrt (event_less order) (sort_slice (event_less order) es)"
      by (rule sorted_sort_slice [OF strict assms(3)])
    show "sorted_wrt (event_less order) (sort_slice (event_less order) es')"
      by (rule sorted_sort_slice [OF _ sets(2)]) (simp add: sets(1) strict)
  qed (use assms(1) strict in simp_all)
  moreover have "length es = length es'" using assms(1) by (metis size_mset)
  ultimately show ?thesis by (simp add: apply_order_and_limit_def order_def Let_def)
qed

lemma memory_filtered:
  assumes "memory_ok s"
  shows "inj_on ev_id (set (filter P (map snd s)))" "distinct (filter P (map snd s))"
proof -
  have "distinct (map ev_id (map snd s))"
    unfolding memory_ids [OF assms] using assms by (simp add: memory_ok_def ordered_distinct)
  then have d: "inj_on ev_id (set (map snd s)) \<and> distinct (map snd s)" unfolding distinct_map by simp
  then show "distinct (filter P (map snd s))" by (intro distinct_filter) simp
  show "inj_on ev_id (set (filter P (map snd s)))"
    by (rule inj_on_subset [OF conjunct1 [OF d]]) auto
qed

end
