(* ===== verification/Ingest.thy ===== *)
theory Ingest
  imports Inbox EventStore
begin

text \<open>
  \<open>ingest.go\<close>: the public HTTP handler. Requests are routed by credential and by the kind of
  each event to the operational store or to the billing inbox; queries reach the operational
  store only. \<open>net/http\<close> supplies the request, \<open>encoding/json\<close> the decoded body.
\<close>

section \<open>Requests and replies\<close>

record ingest_config =
  ic_token :: bytes
  ic_billing_token :: bytes
  ic_lifecycle_token :: bytes
  ic_lifecycle_read_token :: bytes
  ic_max_body :: int
  ic_max_events :: int

definition default_query_limit :: int where "default_query_limit = 100"
definition default_max_body_bytes :: int where "default_max_body_bytes = 10 * 1024 * 1024"
definition default_max_events_batch :: int where "default_max_events_batch = 1000"

text \<open>What decoding the body under a byte limit gives: the limit is hit, the text is not a request, or
  the events with the verdict whether nothing follows them.\<close>

datatype ingest_body = TooLarge | Malformed | Decoded "log_event list" bool

text \<open>\<open>hq_query\<close> are the pairs of \<open>r.URL.Query()\<close> in order, \<open>hq_body\<close> the body as read under a limit.\<close>

record http_request =
  hq_path :: bytes
  hq_method :: bytes
  hq_auth :: bytes
  hq_query :: "(bytes \<times> bytes) list"
  hq_body :: "int \<Rightarrow> ingest_body"

record ingest_result =
  ir_id :: bytes
  ir_status :: bytes
  ir_error :: bytes

datatype http_reply =
    Failed nat bytes
  | ArchiveUnavailable
  | NoContent
  | Metrics
  | Results "ingest_result list"
  | Events "log_event list"
  | PageOf billing_page
  | Aborted

text \<open>The operational store behind the interface \<open>EventStore\<close>, with \<open>HealthChecker\<close> when it has one.
  The number says which call of the request it is.\<close>

record 's store_ops =
  so_insert :: "nat \<Rightarrow> log_event \<Rightarrow> 's \<Rightarrow> (go_error + unit) \<times> 's"
  so_query :: "event_query \<Rightarrow> 's \<Rightarrow> go_error + log_event list"
  so_health :: "('s \<Rightarrow> go_error + unit) option"

text \<open>The billing inbox is a pointer that may be nil.\<close>

record 's server =
  sv_inbox :: "inbox option"
  sv_store :: 's

text \<open>\<open>err.Error()\<close>.\<close>

fun error_text :: "go_error \<Rightarrow> bytes" where
  "error_text ErrBillingConflict = ''billing event identity conflicts with stored content''"
| "error_text ErrBillingCursor = ''invalid billing inbox cursor or store identity''"
| "error_text ErrBillingUnavailable = ''billing inbox unavailable''"
| "error_text ErrBillingArchiveUnavailable = ''billing archive range is not rehydrated''"
| "error_text ErrDuplicateEvent = ''duplicate event''"
| "error_text ErrLifecycleConflict = ''billing lifecycle precondition failed''"
| "error_text ErrOperationNotFound = ''billing retirement operation not found''"
| "error_text CtxCanceled = ''context canceled''"
| "error_text CtxDeadlineExceeded = ''context deadline exceeded''"
| "error_text (ErrMsg m) = m"
| "error_text ErrPanic = []"

section \<open>Credentials\<close>

definition bearer_token :: "bytes \<Rightarrow> bytes" where
  "bearer_token header =
     (if \<not> starts_with header ''Bearer '' then [] else trim_space (drop (length ''Bearer '') header))"

definition authorized_token :: "ingest_config \<Rightarrow> bytes \<Rightarrow> bool" where
  "authorized_token cfg token =
     (if ic_token cfg = [] \<and> ic_billing_token cfg = [] then True
      else (ic_token cfg \<noteq> [] \<and> token = ic_token cfg) \<or> (ic_billing_token cfg \<noteq> [] \<and> token = ic_billing_token cfg))"

definition billing_authorized :: "ingest_config \<Rightarrow> bytes \<Rightarrow> bool" where
  "billing_authorized cfg token =
     (ic_billing_token cfg \<noteq> [] \<and> ic_billing_token cfg \<noteq> ic_token cfg \<and> token = ic_billing_token cfg)"

definition max_body_bytes :: "ingest_config \<Rightarrow> int" where
  "max_body_bytes cfg = (if ic_max_body cfg \<le> 0 then default_max_body_bytes else ic_max_body cfg)"

definition max_events_per_batch :: "ingest_config \<Rightarrow> int" where
  "max_events_per_batch cfg = (if ic_max_events cfg \<le> 0 then default_max_events_batch else ic_max_events cfg)"

section \<open>Queries\<close>

text \<open>\<open>strconv.Atoi\<close>: an optional sign, at least one digit, a value of 64 bits.\<close>

definition dec_value :: "bytes \<Rightarrow> int" where
  "dec_value s = foldl (\<lambda>n c. n * 10 + (int (of_char c) - 48)) 0 s"

definition atoi :: "bytes \<Rightarrow> int option" where
  "atoi s =
     (let neg = starts_with s ''-'';
          digits = (if neg \<or> starts_with s ''+'' then drop 1 s else s);
          n = (if neg then - dec_value digits else dec_value digits)
      in if digits = [] \<or> \<not> list_all is_digit digits \<or> n < - (2 ^ 63) \<or> n \<ge> 2 ^ 63 then None else Some n)"

definition query_get :: "(bytes \<times> bytes) list \<Rightarrow> bytes \<Rightarrow> bytes" where
  "query_get values key = (case aget values key of None \<Rightarrow> [] | Some v \<Rightarrow> v)"

definition parse_query_limit :: "bytes \<Rightarrow> go_error + int" where
  "parse_query_limit value =
     (if value = [] then Inr default_query_limit
      else case atoi value of
             None \<Rightarrow> Inl (ErrMsg ''limit must be an integer'')
           | Some limit \<Rightarrow>
               if limit < 1 \<or> limit > max_query_limit then Inl (ErrMsg ''limit must be between 1 and 1000'')
               else Inr limit)"

definition parse_query_order :: "bytes \<Rightarrow> go_error + bytes" where
  "parse_query_order value =
     (let value = trim_space value
      in if value = [] then Inr ''desc''
         else if value = ''asc'' \<or> value = ''desc'' then Inr value
         else Inl (ErrMsg ''order must be asc or desc''))"

text \<open>\<open>parse_time\<close> is \<open>time.Parse(time.RFC3339Nano, value)\<close>.\<close>

definition parse_query_time :: "(bytes \<Rightarrow> gtime option) \<Rightarrow> bytes \<Rightarrow> bytes \<Rightarrow> go_error + gtime" where
  "parse_query_time parse_time name value =
     (if value = [] then Inr zero_time
      else case parse_time value of
             None \<Rightarrow> Inl (ErrMsg (name @ '' must be RFC3339''))
           | Some t \<Rightarrow> Inr t)"

definition query_from_request :: "(bytes \<Rightarrow> gtime option) \<Rightarrow> (bytes \<times> bytes) list \<Rightarrow> go_error + event_query" where
  "query_from_request parse_time vs =
     andThen (parse_query_time parse_time ''since'' (query_get vs ''since'')) (\<lambda>since.
     andThen (parse_query_time parse_time ''until'' (query_get vs ''until'')) (\<lambda>until.
     andThen (parse_query_limit (query_get vs ''limit'')) (\<lambda>limit.
     andThen (parse_query_order (query_get vs ''order'')) (\<lambda>order.
       Inr \<lparr>eq_since = since, eq_until = until, eq_limit = limit, eq_order = order,
            eq_id = query_get vs ''event_id'', eq_env = query_get vs ''env'', eq_service = query_get vs ''service'',
            eq_host = query_get vs ''host'', eq_unit = query_get vs ''unit'', eq_level = query_get vs ''level'',
            eq_source = query_get vs ''source'', eq_stream = query_get vs ''stream'',
            eq_trace = query_get vs ''trace_id'', eq_request = query_get vs ''request_id'',
            eq_operation = query_get vs ''operation_id'', eq_device = query_get vs ''device_id'',
            eq_org = query_get vs ''org_id'', eq_user = query_get vs ''user_id'',
            eq_component = query_get vs ''component'', eq_actor = query_get vs ''actor_id'',
            eq_actor_type = query_get vs ''actor_type'', eq_outcome = query_get vs ''outcome'',
            eq_status_code = query_get vs ''status_code'', eq_status_class = query_get vs ''status_class''\<rparr>))))"

section \<open>Ingesting\<close>

definition is_billing :: "log_event \<Rightarrow> bool" where
  "is_billing e = (ev_stream e = ''billing_usage'' \<or> ev_source e = ''billing_usage'')"

text \<open>Methods of a nil inbox: \<open>InsertEvent\<close> and \<open>Page\<close> start with \<open>Health\<close>, which reports it.\<close>

definition inbox_health :: "call \<Rightarrow> inbox option \<Rightarrow> go_error + unit" where
  "inbox_health c p =
     (case p of
        None \<Rightarrow> andThen (ctx_check (cl_ctx c) 0) (\<lambda>_. Inl ErrBillingUnavailable)
      | Some ib \<Rightarrow> health c 0 0 ib)"

definition inbox_insert :: "crypto \<Rightarrow> call \<Rightarrow> log_event \<Rightarrow> inbox option \<Rightarrow> (go_error + unit) \<times> inbox option" where
  "inbox_insert cr c e p =
     (case p of
        None \<Rightarrow> (inbox_health c None, None)
      | Some ib \<Rightarrow> (case insert_event cr c e ib of (r, ib) \<Rightarrow> (r, Some ib)))"

definition inbox_page ::
    "crypto \<Rightarrow> call \<Rightarrow> cursor_text \<Rightarrow> int \<Rightarrow> inbox option \<Rightarrow> (go_error + billing_page) \<times> inbox option" where
  "inbox_page cr c text limit p =
     (case p of
        None \<Rightarrow> (andThen (inbox_health c None) (\<lambda>_. Inl ErrBillingUnavailable), None)
      | Some ib \<Rightarrow> (case page cr c text limit ib of (r, ib) \<Rightarrow> (r, Some ib)))"

definition recovery_fenced :: "inbox option \<Rightarrow> bool" where
  "recovery_fenced p = (case p of None \<Rightarrow> False | Some ib \<Rightarrow> ib_recovering ib)"

definition result_of :: "log_event \<Rightarrow> go_error + unit \<Rightarrow> ingest_result" where
  "result_of e r =
     (case r of
        Inr _ \<Rightarrow> \<lparr>ir_id = ev_id e, ir_status = ''accepted'', ir_error = []\<rparr>
      | Inl x \<Rightarrow>
          if x = ErrDuplicateEvent then \<lparr>ir_id = ev_id e, ir_status = ''duplicate'', ir_error = []\<rparr>
          else \<lparr>ir_id = ev_id e, ir_status = ''rejected'', ir_error = error_text x\<rparr>)"

text \<open>One round of the loop over the events; a panic ends the request.\<close>

definition ingest_one ::
    "crypto \<Rightarrow> ingest_config \<Rightarrow> 's store_ops \<Rightarrow> (nat \<Rightarrow> call) \<Rightarrow> bytes \<Rightarrow> nat \<Rightarrow> log_event \<Rightarrow> 's server \<Rightarrow>
     ingest_result option \<times> 's server" where
  "ingest_one cr cfg st calls token n e sv =
     (if is_billing e \<and> (\<not> billing_authorized cfg token \<or> ev_stream e \<noteq> ''billing_usage'' \<or> ev_source e \<noteq> ''billing_usage'')
      then (Some \<lparr>ir_id = ev_id e, ir_status = ''rejected'', ir_error = ''billing usage token required''\<rparr>, sv)
      else
        (case (if is_billing e
               then (case inbox_insert cr (calls n) e (sv_inbox sv) of (r, p) \<Rightarrow> (r, sv\<lparr>sv_inbox := p\<rparr>))
               else if ic_billing_token cfg \<noteq> [] \<and> token = ic_billing_token cfg
               then (Inl (ErrMsg ''billing credential cannot write operational logs''), sv)
               else (case so_insert st n e (sv_store sv) of (r, s) \<Rightarrow> (r, sv\<lparr>sv_store := s\<rparr>))) of
           (r, sv) \<Rightarrow> (if r = Inl ErrPanic then None else Some (result_of e r), sv)))"

fun ingest_loop ::
    "crypto \<Rightarrow> ingest_config \<Rightarrow> 's store_ops \<Rightarrow> (nat \<Rightarrow> call) \<Rightarrow> bytes \<Rightarrow> nat \<Rightarrow> log_event list \<Rightarrow> 's server \<Rightarrow>
     ingest_result list option \<times> 's server" where
  "ingest_loop cr cfg st calls token n [] sv = (Some [], sv)"
| "ingest_loop cr cfg st calls token n (e # es) sv =
     (case ingest_one cr cfg st calls token n e sv of
        (None, sv) \<Rightarrow> (None, sv)
      | (Some r, sv) \<Rightarrow>
          (case ingest_loop cr cfg st calls token (n + 1) es sv of
             (None, sv) \<Rightarrow> (None, sv)
           | (Some rs, sv) \<Rightarrow> (Some (r # rs), sv)))"

definition handle_ingest ::
    "crypto \<Rightarrow> ingest_config \<Rightarrow> 's store_ops \<Rightarrow> (nat \<Rightarrow> call) \<Rightarrow> http_request \<Rightarrow> 's server \<Rightarrow> http_reply \<times> 's server" where
  "handle_ingest cr cfg st calls req sv =
     (let token = bearer_token (hq_auth req)
      in if hq_method req \<noteq> ''POST'' then (Failed 405 ''method not allowed'', sv)
         else if \<not> authorized_token cfg token then (Failed 401 ''unauthorized'', sv)
         else case hq_body req (max_body_bytes cfg) of
                TooLarge \<Rightarrow> (Failed 413 ''request body too large'', sv)
              | Malformed \<Rightarrow> (Failed 400 ''invalid json'', sv)
              | Decoded events ended \<Rightarrow>
                  if int (length events) > max_events_per_batch cfg then (Failed 400 ''too many events'', sv)
                  else if \<not> ended then (Failed 400 ''invalid trailing json'', sv)
                  else if billing_authorized cfg token \<and> recovery_fenced (sv_inbox sv) \<and> list_ex is_billing events
                  then (Failed 503 ''billing inbox recovery admission required'', sv)
                  else case ingest_loop cr cfg st calls token 0 events sv of
                         (None, sv) \<Rightarrow> (Aborted, sv)
                       | (Some rs, sv) \<Rightarrow> (Results rs, sv))"

section \<open>Reading\<close>

definition handle_health :: "ingest_config \<Rightarrow> 's store_ops \<Rightarrow> (nat \<Rightarrow> call) \<Rightarrow> 's server \<Rightarrow> http_reply" where
  "handle_health cfg st calls sv =
     (if ic_billing_token cfg \<noteq> [] \<and> inbox_health (calls 0) (sv_inbox sv) \<noteq> Inr ()
      then Failed 503 ''billing inbox unavailable''
      else case so_health st of
             None \<Rightarrow> NoContent
           | Some check \<Rightarrow> if check (sv_store sv) \<noteq> Inr () then Failed 503 ''backend unavailable'' else NoContent)"

definition handle_logs ::
    "(bytes \<Rightarrow> gtime option) \<Rightarrow> ingest_config \<Rightarrow> 's store_ops \<Rightarrow> http_request \<Rightarrow> 's server \<Rightarrow> http_reply" where
  "handle_logs parse_time cfg st req sv =
     (let token = bearer_token (hq_auth req)
      in if hq_method req \<noteq> ''GET'' then Failed 405 ''method not allowed''
         else if \<not> authorized_token cfg token then Failed 401 ''unauthorized''
         else case query_from_request parse_time (hq_query req) of
                Inl x \<Rightarrow> Failed 400 (''invalid query parameter: '' @ error_text x)
              | Inr q \<Rightarrow>
                  if (ic_billing_token cfg \<noteq> [] \<and> token = ic_billing_token cfg)
                     \<or> eq_stream q = ''billing_usage'' \<or> eq_source q = ''billing_usage''
                  then Failed 401 ''unauthorized''
                  else case so_query st q (sv_store sv) of
                         Inl _ \<Rightarrow> Failed 500 ''query failed''
                       | Inr events \<Rightarrow>
                           Events (filter (\<lambda>e. ev_stream e \<noteq> ''billing_usage'' \<and> ev_source e \<noteq> ''billing_usage'') events))"

text \<open>\<open>cursor_of\<close> decodes the base64 and the JSON of a cursor of at most 512 bytes.\<close>

definition cursor_param :: "(bytes \<Rightarrow> cursor_text) \<Rightarrow> bytes \<Rightarrow> cursor_text" where
  "cursor_param cursor_of encoded =
     (if encoded = [] then NoCursor else if length encoded > 512 then BadCursor else cursor_of encoded)"

definition handle_billing_events ::
    "crypto \<Rightarrow> (bytes \<Rightarrow> cursor_text) \<Rightarrow> ingest_config \<Rightarrow> (nat \<Rightarrow> call) \<Rightarrow> http_request \<Rightarrow> 's server \<Rightarrow>
     http_reply \<times> 's server" where
  "handle_billing_events cr cursor_of cfg calls req sv =
     (if hq_method req \<noteq> ''GET'' then (Failed 405 ''method not allowed'', sv)
      else if \<not> billing_authorized cfg (bearer_token (hq_auth req)) then (Failed 401 ''unauthorized'', sv)
      else if \<not> list_all (\<lambda>(k, v). k = ''cursor'' \<or> k = ''limit'') (hq_query req)
      then (Failed 400 ''unsupported billing query'', sv)
      else case parse_query_limit (query_get (hq_query req) ''limit'') of
             Inl _ \<Rightarrow> (Failed 400 ''invalid limit'', sv)
           | Inr limit \<Rightarrow>
               (case inbox_page cr (calls 0) (cursor_param cursor_of (query_get (hq_query req) ''cursor'')) limit (sv_inbox sv) of
                  (r, p) \<Rightarrow>
                    ((case r of
                        Inr pg \<Rightarrow> PageOf pg
                      | Inl x \<Rightarrow>
                          if x = ErrBillingCursor then Failed 409 ''invalid billing cursor''
                          else if x = ErrBillingArchiveUnavailable then ArchiveUnavailable
                          else Failed 503 ''billing inbox unavailable''),
                     sv\<lparr>sv_inbox := p\<rparr>)))"

text \<open>The routes of the public handler.\<close>

definition ingest_handler ::
    "crypto \<Rightarrow> (bytes \<Rightarrow> gtime option) \<Rightarrow> (bytes \<Rightarrow> cursor_text) \<Rightarrow> ingest_config \<Rightarrow> 's store_ops \<Rightarrow> (nat \<Rightarrow> call) \<Rightarrow>
     http_request \<Rightarrow> 's server \<Rightarrow> http_reply \<times> 's server" where
  "ingest_handler cr parse_time cursor_of cfg st calls req sv =
     (if hq_path req = ''/healthz'' then (handle_health cfg st calls sv, sv)
      else if hq_path req = ''/metrics/prometheus''
      then ((if hq_method req \<noteq> ''GET'' then Failed 405 ''method not allowed'' else Metrics), sv)
      else if hq_path req = ''/v1/logs/ingest'' then handle_ingest cr cfg st calls req sv
      else if hq_path req = ''/v1/logs'' then (handle_logs parse_time cfg st req sv, sv)
      else if hq_path req = ''/v1/billing-usage/events'' then handle_billing_events cr cursor_of cfg calls req sv
      else (Failed 404 ''404 page not found'', sv))"

end
