(* ===== verification/Readers.thy ===== *)
theory Readers
  imports Forwarder Ingest
begin

text \<open>
  \<open>journal.go\<close>, \<open>docker_logs.go\<close> and \<open>EventIDFromJournalMetadata\<close> of \<open>event.go\<close>: the two sources of the
  forwarder. The programs they run, the JSON decoder, the hash and the formats of times and
  durations are arguments; the scanner, the choice of the arguments, the construction of the
  event and every error path are modelled.
\<close>

section \<open>Running a program and scanning its output\<close>

text \<open>The outcome of starting the program, what it prints (and an error of the pipe after it), and the
  outcome of waiting for it.\<close>

record process =
  pr_start :: "go_error + unit"
  pr_output :: bytes
  pr_broken :: "go_error option"
  pr_wait :: "go_error + unit"

definition max_token :: nat where "max_token = 64 * 1024"

definition drop_cr :: "bytes \<Rightarrow> bytes" where
  "drop_cr s = (if s \<noteq> [] \<and> last s = CHR 0x0D then butlast s else s)"

text \<open>\<open>bufio.Scanner\<close> over lines with its default limit: the lines, and the error that ends them.\<close>

function scan_lines :: "go_error option \<Rightarrow> bytes \<Rightarrow> bytes list \<times> go_error option" where
  "scan_lines broken s =
     (if s = [] then ([], broken)
      else let line = takeWhile (\<lambda>c. c \<noteq> CHR 0x0A) s; rest = drop 1 (dropWhile (\<lambda>c. c \<noteq> CHR 0x0A) s)
           in if length line \<ge> max_token then ([], Some (ErrMsg ''bufio.Scanner: token too long''))
              else case scan_lines broken rest of (ls, e) \<Rightarrow> (drop_cr line # ls, e))"
  by pat_completeness auto

termination
proof (relation "measure (\<lambda>(b, s). length s)")
  fix s line rest :: bytes
  assume "s \<noteq> []" "rest = drop 1 (dropWhile (\<lambda>c. c \<noteq> CHR 0x0A) s)"
  moreover have "length (dropWhile (\<lambda>c. c \<noteq> CHR 0x0A) s) \<le> length s" by (rule length_dropWhile_le)
  ultimately have "length rest < length s" by (cases s) auto
  then show "((b, rest), (b, s)) \<in> measure (\<lambda>(b, s). length s)" for b by simp
qed simp

declare scan_lines.simps [simp del]

text \<open>The loop of \<open>ParseJournalRecords\<close> and \<open>ParseDockerLogRecords\<close>; \<open>n\<close> counts the records so far.\<close>

fun take_records ::
    "(nat \<Rightarrow> bytes \<Rightarrow> go_error + journal_record) \<Rightarrow> int \<Rightarrow> nat \<Rightarrow> bytes list \<Rightarrow> go_error option \<Rightarrow> go_error + journal_record list" where
  "take_records parse limit n [] err = (case err of None \<Rightarrow> Inr [] | Some x \<Rightarrow> Inl x)"
| "take_records parse limit n (l # ls) err =
     andThen (parse n l) (\<lambda>r.
       if limit > 0 \<and> int (n + 1) \<ge> limit then Inr [r]
       else andThen (take_records parse limit (n + 1) ls err) (\<lambda>rs. Inr (r # rs)))"

definition parse_records :: "(nat \<Rightarrow> bytes \<Rightarrow> go_error + journal_record) \<Rightarrow> int \<Rightarrow> process \<Rightarrow> go_error + journal_record list" where
  "parse_records parse limit p =
     (case scan_lines (pr_broken p) (pr_output p) of (ls, e) \<Rightarrow> take_records parse limit 0 ls e)"

text \<open>\<open>Start\<close>, scan and \<open>Wait\<close>, as both \<open>Read\<close> methods end.\<close>

definition read_process :: "(nat \<Rightarrow> bytes \<Rightarrow> go_error + journal_record) \<Rightarrow> int \<Rightarrow> process \<Rightarrow> go_error + journal_record list" where
  "read_process parse limit p =
     andThen (pr_start p) (\<lambda>_.
       case parse_records parse limit p of
         Inl x \<Rightarrow> Inl x
       | Inr rs \<Rightarrow> andThen (pr_wait p) (\<lambda>_. Inr rs))"

fun first_non_empty :: "bytes list \<Rightarrow> bytes" where
  "first_non_empty [] = []"
| "first_non_empty (v # vs) = (if trim_space v \<noteq> [] then trim_space v else first_non_empty vs)"

section \<open>The journal\<close>

record journal_config =
  jc_service :: bytes
  jc_env :: bytes
  jc_version :: bytes

text \<open>A conversion of a \<open>float64\<close> to \<open>int64\<close>, with the value that amd64 gives out of range.\<close>

definition float_to_int64 :: "rat \<Rightarrow> int" where
  "float_to_int64 q =
     (let n = (if q < 0 then \<lceil>q\<rceil> else \<lfloor>q\<rfloor>) in if - (2 ^ 63) \<le> n \<and> n < 2 ^ 63 then n else - (2 ^ 63))"

definition string_field :: "jmap \<Rightarrow> bytes \<Rightarrow> bytes" where
  "string_field raw key =
     (case aget raw key of
        Some (JStr s) \<Rightarrow> trim_space s
      | Some (JFloat q s) \<Rightarrow> dec_int (float_to_int64 q)
      | _ \<Rightarrow> [])"

text \<open>\<open>messageStringField\<close> and \<open>stringField\<close> have the same cases; an empty map has no fields.\<close>

definition message_string_field :: "jmap \<Rightarrow> bytes \<Rightarrow> bytes" where
  "message_string_field mf key = (if mf = [] then [] else string_field mf key)"

text \<open>\<open>decode\<close> is \<open>json.Unmarshal\<close> into a map; the text \<open>null\<close> gives no entries.\<close>

definition parse_message_fields :: "(bytes \<Rightarrow> go_error + jmap) \<Rightarrow> bytes \<Rightarrow> jmap" where
  "parse_message_fields decode message =
     (let m = trim_space message
      in if m = [] \<or> \<not> starts_with m ''{'' then []
         else case decode m of Inl _ \<Rightarrow> [] | Inr mf \<Rightarrow> mf)"

definition promoted_fields :: "bytes list" where
  "promoted_fields =
     [''level'', ''msg'', ''service'', ''env'', ''version'', ''trace_id'', ''request_id'', ''operation_id'',
      ''device_id'', ''org_id'', ''user_id'', ''component'', ''error_category'', ''actor_id'', ''actor_type'',
      ''outcome'', ''status_code'', ''status_class'']"

definition message_promoted_field :: "bytes \<Rightarrow> bool" where
  "message_promoted_field key = (to_lower (trim_space key) \<in> set promoted_fields)"

definition message_extra_fields :: "jmap \<Rightarrow> jmap" where
  "message_extra_fields mf = filter (\<lambda>(k, v). \<not> message_promoted_field k) mf"

text \<open>The product \<open>micros * 1000\<close> is a product of \<open>int64\<close>.\<close>

definition journal_time :: "gtime \<Rightarrow> jmap \<Rightarrow> gtime" where
  "journal_time now raw =
     (let t = string_field raw ''__REALTIME_TIMESTAMP''
      in if t = [] then utc now
         else case atoi t of
                None \<Rightarrow> utc now
              | Some micros \<Rightarrow> from_unix_nano (sint (of_int (micros * 1000) :: u64)))"

definition journal_level :: "bytes \<Rightarrow> bytes" where
  "journal_level priority =
     (if priority \<in> {''0'', ''1'', ''2'', ''3''} then ''error''
      else if priority = ''4'' then ''warn''
      else if priority = ''7'' then ''debug''
      else ''info'')"

text \<open>The text that is hashed into the identifier, and the identifier; \<open>digest\<close> is the hexadecimal SHA-256.\<close>

definition journal_identity :: "bytes \<Rightarrow> bytes \<Rightarrow> bytes \<Rightarrow> bytes \<Rightarrow> bytes" where
  "journal_identity host boot unt cursor = host @ [CHR 0x00] @ boot @ [CHR 0x00] @ unt @ [CHR 0x00] @ cursor"

definition event_id_from_journal_metadata :: "(bytes \<Rightarrow> bytes) \<Rightarrow> bytes \<Rightarrow> bytes \<Rightarrow> bytes \<Rightarrow> bytes \<Rightarrow> bytes" where
  "event_id_from_journal_metadata digest host boot unt cursor = digest (journal_identity host boot unt cursor)"

definition journal_host :: "jmap \<Rightarrow> bytes" where
  "journal_host raw = first_non_empty [string_field raw ''_HOSTNAME'', ''unknown-host'']"

definition journal_unit :: "jmap \<Rightarrow> bytes" where
  "journal_unit raw =
     first_non_empty [string_field raw ''_SYSTEMD_UNIT'', string_field raw ''SYSLOG_IDENTIFIER'', ''unknown-unit'']"

definition journal_event ::
    "(bytes \<Rightarrow> go_error + jmap) \<Rightarrow> (bytes \<Rightarrow> bytes) \<Rightarrow> gtime \<Rightarrow> journal_config \<Rightarrow> jmap \<Rightarrow> log_event" where
  "journal_event decode digest now cfg raw =
     (let message = first_non_empty [string_field raw ''MESSAGE'', ''journal event''];
          mf = parse_message_fields decode message;
          both = (\<lambda>k K. first_non_empty [message_string_field mf k, string_field raw K])
      in \<lparr>ev_id = event_id_from_journal_metadata digest (journal_host raw) (string_field raw ''_BOOT_ID'') (journal_unit raw)
            (string_field raw ''__CURSOR''),
          ev_time = journal_time now raw,
          ev_level = first_non_empty [message_string_field mf ''level'', journal_level (string_field raw ''PRIORITY'')],
          ev_msg = first_non_empty [message_string_field mf ''msg'', message],
          ev_service = first_non_empty [message_string_field mf ''service'', string_field raw ''SERVICE'', jc_service cfg, journal_unit raw],
          ev_env = first_non_empty [message_string_field mf ''env'', string_field raw ''ENV'', jc_env cfg, ''unknown''],
          ev_version = first_non_empty [message_string_field mf ''version'', string_field raw ''VERSION'', jc_version cfg, ''unknown''],
          ev_host = journal_host raw, ev_unit = journal_unit raw, ev_source = ''journald'', ev_stream = [],
          ev_trace = both ''trace_id'' ''TRACE_ID'', ev_request = both ''request_id'' ''REQUEST_ID'',
          ev_operation = both ''operation_id'' ''OPERATION_ID'', ev_device = both ''device_id'' ''DEVICE_ID'',
          ev_org = both ''org_id'' ''ORG_ID'', ev_user = both ''user_id'' ''USER_ID'',
          ev_component = both ''component'' ''COMPONENT'', ev_errcat = message_string_field mf ''error_category'',
          ev_actor = both ''actor_id'' ''ACTOR_ID'', ev_actor_type = both ''actor_type'' ''ACTOR_TYPE'',
          ev_outcome = both ''outcome'' ''OUTCOME'', ev_status_code = both ''status_code'' ''STATUS_CODE'',
          ev_status_class = both ''status_class'' ''STATUS_CLASS'', ev_fields = message_extra_fields mf\<rparr>)"

definition parse_journal_record ::
    "(bytes \<Rightarrow> go_error + jmap) \<Rightarrow> (bytes \<Rightarrow> bytes) \<Rightarrow> gtime \<Rightarrow> journal_config \<Rightarrow> bytes \<Rightarrow> go_error + journal_record" where
  "parse_journal_record decode digest now cfg line =
     andThen (decode line) (\<lambda>raw.
       let e = redact_event (journal_event decode digest now cfg raw)
       in case validate_event e of
            Inl x \<Rightarrow> Inl (ErrMsg (''invalid journal event: '' @ error_text x))
          | Inr _ \<Rightarrow> Inr \<lparr>jr_cursor = string_field raw ''__CURSOR'', jr_event = e\<rparr>)"

text \<open>\<open>duration\<close> parses a Go duration into nanoseconds, \<open>rfc3339\<close> formats a time.\<close>

definition journal_since_arg :: "(bytes \<Rightarrow> int option) \<Rightarrow> (gtime \<Rightarrow> bytes) \<Rightarrow> gtime \<Rightarrow> bytes \<Rightarrow> bytes" where
  "journal_since_arg duration rfc3339 now value =
     (let v = trim_space value
      in if v = [] then []
         else case duration v of
                Some d \<Rightarrow> rfc3339 (add_ns (utc now) (- d))
              | None \<Rightarrow> v)"

record journal_source =
  js_units :: "bytes list"
  js_since :: bytes
  js_config :: journal_config

definition journal_args :: "(bytes \<Rightarrow> int option) \<Rightarrow> (gtime \<Rightarrow> bytes) \<Rightarrow> gtime \<Rightarrow> journal_source \<Rightarrow> bytes \<Rightarrow> int \<Rightarrow> bytes list" where
  "journal_args duration rfc3339 now src aft limit =
     (let since = journal_since_arg duration rfc3339 now (js_since src)
      in [''-o'', ''json'', ''--no-pager'']
         @ (if limit > 0 then [''-n'', dec_int limit] else [])
         @ (if aft \<noteq> [] then [''--after-cursor'', aft] else if since \<noteq> [] then [''--since'', since] else [])
         @ concat (map (\<lambda>u. [''-u'', u]) (js_units src)))"

text \<open>\<open>exec name args\<close> is the run of a program; \<open>now 0\<close> is the time for the arguments and \<open>now (n + 1)\<close> the
  time of the \<open>n\<close>-th record.\<close>

definition journal_read ::
    "(bytes \<Rightarrow> bytes list \<Rightarrow> process) \<Rightarrow> (bytes \<Rightarrow> go_error + jmap) \<Rightarrow> (bytes \<Rightarrow> bytes) \<Rightarrow> (bytes \<Rightarrow> int option) \<Rightarrow>
     (gtime \<Rightarrow> bytes) \<Rightarrow> (nat \<Rightarrow> gtime) \<Rightarrow> journal_source \<Rightarrow> bytes \<Rightarrow> int \<Rightarrow> go_error + journal_record list" where
  "journal_read exec decode digest duration rfc3339 now src aft limit =
     read_process (\<lambda>n. parse_journal_record decode digest (now (n + 1)) (js_config src)) limit
       (exec ''journalctl'' (journal_args duration rfc3339 (now 0) src aft limit))"

section \<open>Docker\<close>

record docker_config =
  dc_container :: bytes
  dc_service :: bytes
  dc_env :: bytes
  dc_version :: bytes
  dc_host :: bytes
  dc_unit :: bytes
  dc_source :: bytes
  dc_component :: bytes
  dc_operation :: bytes

record docker_source =
  ds_container :: bytes
  ds_since :: bytes
  ds_config :: docker_config

definition docker_args :: "docker_source \<Rightarrow> bytes \<Rightarrow> int \<Rightarrow> bytes list" where
  "docker_args src aft limit =
     [''logs'', ''--timestamps'']
     @ (if aft \<noteq> [] then [''--since'', aft] else if ds_since src \<noteq> [] then [''--since'', ds_since src] else [])
     @ (if limit > 0 then [''--tail'', dec_int limit] else [])
     @ [ds_container src]"

definition split_docker_timestamp :: "bytes \<Rightarrow> bytes \<times> bytes" where
  "split_docker_timestamp line =
     (case cut_at (CHR '' '') (trim_space line) of
        (a, Some b) \<Rightarrow> (a, b)
      | (_, None) \<Rightarrow> ([], line))"

definition docker_log_event_id :: "(bytes \<Rightarrow> bytes) \<Rightarrow> bytes \<Rightarrow> bytes \<Rightarrow> bytes \<Rightarrow> bytes" where
  "docker_log_event_id digest container timestamp message =
     ''docker-log-'' @ take 24 (digest (container @ [CHR 0x00] @ timestamp @ [CHR 0x00] @ message))"

definition docker_log_level :: "bytes \<Rightarrow> bytes" where
  "docker_log_level message =
     (let lower = to_lower message
      in if contains lower ''[error]'' \<or> contains lower '' error'' then ''error''
         else if contains lower ''[warning]'' \<or> contains lower '' warning'' then ''warn''
         else if contains lower ''[debug]'' \<or> contains lower '' debug'' then ''debug''
         else ''info'')"

definition docker_log_message :: "bytes \<Rightarrow> bytes" where
  "docker_log_message message =
     (if contains (to_lower message) ''publish'' \<or> contains (to_lower message) ''subscribe''
      then ''emqx broker mqtt trace'' else ''emqx broker log'')"

text \<open>\<open>parse_time\<close> and \<open>format_time\<close> are those of the layout \<open>RFC3339Nano\<close>.\<close>

definition parse_docker_log_record ::
    "(bytes \<Rightarrow> gtime option) \<Rightarrow> (gtime \<Rightarrow> bytes) \<Rightarrow> (bytes \<Rightarrow> bytes) \<Rightarrow> gtime \<Rightarrow> docker_config \<Rightarrow> bytes \<Rightarrow> go_error + journal_record" where
  "parse_docker_log_record parse_time format_time digest now cfg line =
     (case split_docker_timestamp line of
        (stamp, rest) \<Rightarrow>
          (case (case parse_time stamp of
                   Some t \<Rightarrow> (t, stamp)
                 | None \<Rightarrow> (utc now, format_time (utc now))) of
             (t, stamp) \<Rightarrow>
               let message = redact_text (trim_space rest);
                   e = \<lparr>ev_id = docker_log_event_id digest (dc_container cfg) stamp message,
                        ev_time = utc t,
                        ev_level = docker_log_level message,
                        ev_msg = first_non_empty [docker_log_message message, ''docker log event''],
                        ev_service = first_non_empty [dc_service cfg, dc_container cfg, ''docker''],
                        ev_env = first_non_empty [dc_env cfg, ''unknown''],
                        ev_version = first_non_empty [dc_version cfg, ''unknown''],
                        ev_host = first_non_empty [dc_host cfg, ''unknown-host''],
                        ev_unit = first_non_empty [dc_unit cfg, dc_container cfg],
                        ev_source = first_non_empty [dc_source cfg, ''docker''], ev_stream = [],
                        ev_trace = [], ev_request = [], ev_operation = dc_operation cfg, ev_device = [], ev_org = [],
                        ev_user = [], ev_component = dc_component cfg, ev_errcat = [], ev_actor = [], ev_actor_type = [],
                        ev_outcome = [], ev_status_code = [], ev_status_class = [],
                        ev_fields = [(''container'', JStr (dc_container cfg)), (''log_line'', JStr message)]\<rparr>
               in case validate_event e of
                    Inl x \<Rightarrow> Inl (ErrMsg (''invalid docker log event: '' @ error_text x))
                  | Inr _ \<Rightarrow> Inr \<lparr>jr_cursor = stamp, jr_event = redact_event e\<rparr>))"

definition docker_read ::
    "(bytes \<Rightarrow> bytes list \<Rightarrow> process) \<Rightarrow> (bytes \<Rightarrow> gtime option) \<Rightarrow> (gtime \<Rightarrow> bytes) \<Rightarrow> (bytes \<Rightarrow> bytes) \<Rightarrow> (nat \<Rightarrow> gtime) \<Rightarrow>
     docker_source \<Rightarrow> bytes \<Rightarrow> int \<Rightarrow> go_error + journal_record list" where
  "docker_read exec parse_time format_time digest now src aft limit =
     (if trim_space (ds_container src) = [] then Inl (ErrMsg ''docker container is required'')
      else read_process (\<lambda>n. parse_docker_log_record parse_time format_time digest (now n) (ds_config src)) limit
             (exec ''docker'' (docker_args src aft limit)))"

end
