(* ===== verification/IngestProperties.thy ===== *)
theory IngestProperties
  imports Ingest InboxProperties
begin

text \<open>
  The properties of the public handler: credentials keep the operational store and the
  billing inbox apart, and a batch appends exactly its accepted billing events to the ledger.
\<close>

section \<open>One event\<close>

text \<open>What one round of the loop may change, by the kind of the event and the credential.\<close>

lemma ingest_one_cases:
  assumes "ingest_one cr cfg st calls token n e sv = (res, sv')"
  obtains
    (refused) x where "res = Some x" "ir_id x = ev_id e" "ir_status x = ''rejected''" "sv' = sv"
  | (billing) r p where "is_billing e" "billing_authorized cfg token"
      "inbox_insert cr (calls n) e (sv_inbox sv) = (r, p)" "sv' = sv\<lparr>sv_inbox := p\<rparr>"
      "res = (if r = Inl ErrPanic then None else Some (result_of e r))"
  | (operational) r s where "\<not> is_billing e" "ic_billing_token cfg = [] \<or> token \<noteq> ic_billing_token cfg"
      "so_insert st n e (sv_store sv) = (r, s)" "sv' = sv\<lparr>sv_store := s\<rparr>"
      "res = (if r = Inl ErrPanic then None else Some (result_of e r))"
proof (cases "is_billing e")
  case True
  show thesis
  proof (cases "billing_authorized cfg token \<and> ev_stream e = ''billing_usage'' \<and> ev_source e = ''billing_usage''")
    case True
    obtain r p where ins: "inbox_insert cr (calls n) e (sv_inbox sv) = (r, p)" by fastforce
    show thesis
      by (rule billing [OF \<open>is_billing e\<close> _ ins]) (use assms ins True \<open>is_billing e\<close> in \<open>auto simp: ingest_one_def\<close>)
  next
    case False
    with assms \<open>is_billing e\<close> show thesis by (intro refused) (auto simp: ingest_one_def)
  qed
next
  case False
  show thesis
  proof (cases "ic_billing_token cfg \<noteq> [] \<and> token = ic_billing_token cfg")
    case True
    with assms False show thesis by (intro refused) (auto simp: ingest_one_def result_of_def)
  next
    case op: False
    obtain r s where ins: "so_insert st n e (sv_store sv) = (r, s)" by fastforce
    show thesis
      by (rule operational [OF False _ ins]) (use assms ins op False in \<open>auto simp: ingest_one_def\<close>)
  qed
qed

lemma ingest_one_id: "ingest_one cr cfg st calls token n e sv = (Some x, sv') \<Longrightarrow> ir_id x = ev_id e"
  by (erule ingest_one_cases) (auto simp: result_of_def split: sum.splits if_splits)

lemma ingest_loop_invariant:
  assumes "ingest_loop cr cfg st calls token n es sv = (res, sv')" "I sv"
    and "\<And>n e x sv sv'. e \<in> set es \<Longrightarrow> ingest_one cr cfg st calls token n e sv = (x, sv') \<Longrightarrow> I sv \<Longrightarrow> I sv'"
  shows "I sv'"
  using assms
proof (induction es arbitrary: n sv res)
  case (Cons e es)
  obtain x sv1 where one: "ingest_one cr cfg st calls token n e sv = (x, sv1)" by fastforce
  have "I sv1" using Cons.prems(3) [OF _ one] Cons.prems(2) by simp
  show ?case
  proof (cases x)
    case None
    with Cons.prems(1) one \<open>I sv1\<close> show ?thesis by simp
  next
    case (Some r)
    obtain res1 where "ingest_loop cr cfg st calls token (n + 1) es sv1 = (res1, sv')"
      using Cons.prems(1) one Some by (auto split: prod.splits option.splits)
    then show ?thesis using \<open>I sv1\<close>
    proof (rule Cons.IH)
      fix n' e' x' s s'
      assume "e' \<in> set es" "ingest_one cr cfg st calls token n' e' s = (x', s')" "I s"
      then show "I s'" using Cons.prems(3) [of e' n' s x' s'] by simp
    qed
  qed
qed simp

lemma ingest_loop_ids:
  "ingest_loop cr cfg st calls token n es sv = (Some rs, sv') \<Longrightarrow> map ir_id rs = map ev_id es"
proof (induction es arbitrary: n sv rs)
  case (Cons e es)
  then obtain x sv1 rs1 where "ingest_one cr cfg st calls token n e sv = (Some x, sv1)"
      "ingest_loop cr cfg st calls token (n + 1) es sv1 = (Some rs1, sv')" "rs = x # rs1"
    by (auto split: prod.splits option.splits)
  with Cons.IH ingest_one_id show ?case by auto
qed simp

lemma handle_ingest_loop:
  assumes "handle_ingest cr cfg st calls req sv = (reply, sv')"
  obtains (refused) k m where "reply = Failed k m" "sv' = sv"
  | (run) events ended res where "authorized_token cfg (bearer_token (hq_auth req))"
      "hq_body req (max_body_bytes cfg) = Decoded events ended"
      "ingest_loop cr cfg st calls (bearer_token (hq_auth req)) 0 events sv = (res, sv')"
      "reply = (case res of None \<Rightarrow> Aborted | Some rs \<Rightarrow> Results rs)"
  using assms
  by (auto simp: handle_ingest_def Let_def split: if_splits ingest_body.splits prod.splits option.splits)

section \<open>Isolation\<close>

lemma inbox_unauthorized:
  assumes "ingest_one cr cfg st calls token n e sv = (x, sv')" "\<not> billing_authorized cfg token"
  shows "sv_inbox sv' = sv_inbox sv"
  using assms by (cases rule: ingest_one_cases) auto

lemma store_billing_token:
  assumes "ingest_one cr cfg st calls token n e sv = (x, sv')" "ic_billing_token cfg \<noteq> []" "token = ic_billing_token cfg"
  shows "sv_store sv' = sv_store sv"
  using assms(1) by (cases rule: ingest_one_cases) (use assms(2,3) in auto)

lemma ingest_routes:
  assumes "ingest_handler cr parse_time cursor_of cfg st calls req sv = (reply, sv')"
  shows "sv' = sv \<and> (reply = handle_health cfg st calls sv \<or> reply = Metrics \<or> (\<exists>k m. reply = Failed k m))
    \<or> handle_ingest cr cfg st calls req sv = (reply, sv')
    \<or> sv' = sv \<and> reply = handle_logs parse_time cfg st req sv
    \<or> handle_billing_events cr cursor_of cfg calls req sv = (reply, sv')"
  using assms by (simp only: ingest_handler_def prod.inject split: if_split_asm) blast+

text \<open>C20: Credentials keep the two stores apart. Whatever request arrives: without the billing
  credential it leaves the billing inbox as it is and receives no page of it, with the billing
  credential it leaves the operational store as it is and receives no logs, an answer to a log
  query never holds a billing event, and a request with neither credential changes nothing.\<close>

theorem credentials_keep_stores_apart:
  assumes handled: "ingest_handler cr parse_time cursor_of cfg st calls req sv = (reply, sv')"
  defines "token \<equiv> bearer_token (hq_auth req)"
  shows "(\<not> billing_authorized cfg token \<longrightarrow> sv_inbox sv' = sv_inbox sv \<and> (\<forall>p. reply \<noteq> PageOf p))
     \<and> (ic_billing_token cfg \<noteq> [] \<and> token = ic_billing_token cfg \<longrightarrow>
          sv_store sv' = sv_store sv \<and> (\<forall>es. reply \<noteq> Events es))
     \<and> (\<forall>es. reply = Events es \<longrightarrow> list_all (\<lambda>e. \<not> is_billing e) es)
     \<and> (\<not> authorized_token cfg token \<longrightarrow> sv' = sv)"
proof -
  have auth: "billing_authorized cfg token \<Longrightarrow> authorized_token cfg token"
    by (auto simp: billing_authorized_def authorized_token_def)
  consider "sv' = sv" "reply = handle_health cfg st calls sv \<or> reply = Metrics \<or> (\<exists>k m. reply = Failed k m)"
    | "handle_ingest cr cfg st calls req sv = (reply, sv')"
    | "sv' = sv" "reply = handle_logs parse_time cfg st req sv"
    | "handle_billing_events cr cursor_of cfg calls req sv = (reply, sv')"
    using ingest_routes [OF handled] by blast
  then show ?thesis
  proof cases
    case 1
    then show ?thesis by (auto simp: handle_health_def split: if_splits option.splits)
  next
    case 2
    then show ?thesis
    proof (cases rule: handle_ingest_loop)
      case (run events ended res)
      have "\<not> billing_authorized cfg token \<Longrightarrow> sv_inbox sv' = sv_inbox sv"
        using ingest_loop_invariant [OF run(3), of "\<lambda>s. sv_inbox s = sv_inbox sv"] inbox_unauthorized
        unfolding token_def by (metis (no_types, lifting))
      moreover have "ic_billing_token cfg \<noteq> [] \<and> token = ic_billing_token cfg \<Longrightarrow> sv_store sv' = sv_store sv"
        using ingest_loop_invariant [OF run(3), of "\<lambda>s. sv_store s = sv_store sv"] store_billing_token
        unfolding token_def by (metis (no_types, lifting))
      ultimately show ?thesis using run(1,4) by (auto simp: token_def split: option.splits)
    qed auto
  next
    case 3
    then show ?thesis
      by (auto simp: handle_logs_def Let_def token_def is_billing_def list_all_iff split: if_splits sum.splits)
  next
    case 4
    then show ?thesis
      using auth by (auto simp: handle_billing_events_def token_def split: if_splits sum.splits prod.splits)
  qed
qed

section \<open>A batch\<close>

definition ledger_entry :: "crypto \<Rightarrow> log_event \<Rightarrow> bytes \<times> bytes" where
  "ledger_entry cr e = (ev_id e, content_digest cr (bound_event e))"

text \<open>The entries of the billing events that a batch reports as accepted.\<close>

definition accepted_entries :: "crypto \<Rightarrow> log_event list \<Rightarrow> ingest_result list \<Rightarrow> (bytes \<times> bytes) list" where
  "accepted_entries cr es rs =
     map (\<lambda>(e, r). ledger_entry cr e) (filter (\<lambda>(e, r). is_billing e \<and> ir_status r = ''accepted'') (zip es rs))"

lemma result_of_accepted: "(ir_status (result_of e r) = ''accepted'') = (r = Inr ())"
  by (auto simp: result_of_def split: sum.splits if_splits)

text \<open>A failed inbox refuses and stays as it is.\<close>

lemma insert_event_failed: "ib_failed ib \<Longrightarrow> insert_event cr c e ib = (r, ib') \<Longrightarrow> ib' = ib \<and> (\<exists>x. r = Inl x)"
  by (auto simp: insert_event_def health_def andThen_def split: sum.splits if_splits)

definition batch_ledger :: "crypto \<Rightarrow> ledger \<Rightarrow> log_event list \<Rightarrow> (bytes \<times> bytes) list \<Rightarrow> inbox \<Rightarrow> bool" where
  "batch_ledger cr L es A ib =
     (represents cr (ib_db ib) (L @ A) \<or> ib_failed ib \<and> (\<exists>e \<in> set es. represents cr (ib_db ib) (L @ A @ [ledger_entry cr e])))"

lemma ingest_loop_failed:
  assumes "ingest_loop cr cfg st calls token n es sv = (Some rs, sv')" "sv_inbox sv = Some ib" "ib_failed ib"
  shows "sv_inbox sv' = Some ib \<and> accepted_entries cr es rs = []"
  using assms
proof (induction es arbitrary: n sv rs)
  case (Cons e es)
  then obtain x sv1 rs1 where one: "ingest_one cr cfg st calls token n e sv = (Some x, sv1)"
      "ingest_loop cr cfg st calls token (n + 1) es sv1 = (Some rs1, sv')" "rs = x # rs1"
    by (auto split: prod.splits option.splits)
  have "sv_inbox sv1 = Some ib \<and> (is_billing e \<longrightarrow> ir_status x \<noteq> ''accepted'')"
    using one(1)
  proof (cases rule: ingest_one_cases)
    case (billing r p)
    then have "p = Some ib \<and> (\<exists>er. r = Inl er)"
      using insert_event_failed [OF Cons.prems(3)] Cons.prems(2) by (auto simp: inbox_insert_def split: prod.splits)
    with billing show ?thesis by (auto simp: result_of_accepted split: if_splits)
  qed (use Cons.prems(2) in auto)
  with Cons.IH [OF one(2) _ Cons.prems(3)] show ?case by (auto simp: accepted_entries_def one(3))
qed (simp add: accepted_entries_def)

lemma ingest_loop_ledger:
  assumes "ingest_loop cr cfg st calls token n es sv = (Some rs, sv')" "sv_inbox sv = Some ib" "represents cr (ib_db ib) L"
    and hex: "sha_hex cr" and clock: "\<And>k. \<not> is_zero (cl_now (calls k) 0)"
  shows "\<exists>ib'. sv_inbox sv' = Some ib' \<and> batch_ledger cr L es (accepted_entries cr es rs) ib'"
  using assms(1-3)
proof (induction es arbitrary: n sv rs ib L)
  case Nil
  then show ?case by (simp add: accepted_entries_def batch_ledger_def)
next
  case (Cons e es)
  then obtain x sv1 rs1 where one: "ingest_one cr cfg st calls token n e sv = (Some x, sv1)"
      "ingest_loop cr cfg st calls token (n + 1) es sv1 = (Some rs1, sv')" "rs = x # rs1"
    by (auto split: prod.splits option.splits)
  let ?new = "if is_billing e \<and> ir_status x = ''accepted'' then [ledger_entry cr e] else []"
  have A: "accepted_entries cr (e # es) rs = ?new @ accepted_entries cr es rs1"
    by (simp add: accepted_entries_def one(3))
  have "\<exists>ib1. sv_inbox sv1 = Some ib1 \<and> (represents cr (ib_db ib1) (L @ ?new)
      \<or> ib_failed ib1 \<and> ?new = [] \<and> represents cr (ib_db ib1) (L @ [ledger_entry cr e]))"
    using one(1)
  proof (cases rule: ingest_one_cases)
    case (billing r p)
    obtain ib1 where ib1: "insert_event cr (calls n) e ib = (r, ib1)" "p = Some ib1"
      using billing(3) Cons.prems(2) by (auto simp: inbox_insert_def split: prod.splits)
    have x: "x = result_of e r" using billing(5) by (simp split: if_splits)
    have "case r of
        Inr _ \<Rightarrow> ev_id e \<notin> fst ` set L \<and> represents cr (ib_db ib1) (L @ [ledger_entry cr e]) \<and> ib1 = ib\<lparr>ib_db := ib_db ib1\<rparr>
      | Inl _ \<Rightarrow> represents cr (ib_db ib1) L \<or> ib_failed ib1 \<and> represents cr (ib_db ib1) (L @ [ledger_entry cr e])"
      unfolding ledger_entry_def by (rule insert_event_ledger [OF Cons.prems(3) hex clock ib1(1)])
    then show ?thesis using billing(1,4) ib1(2) x result_of_accepted [of e r] by (cases r) auto
  qed (use Cons.prems(2,3) in \<open>auto split: if_splits\<close>)
  then obtain ib1 where ib1: "sv_inbox sv1 = Some ib1"
    "represents cr (ib_db ib1) (L @ ?new) \<or> ib_failed ib1 \<and> ?new = [] \<and> represents cr (ib_db ib1) (L @ [ledger_entry cr e])"
    by blast
  from ib1(2) show ?case
  proof (elim disjE conjE)
    assume "represents cr (ib_db ib1) (L @ ?new)"
    from Cons.IH [OF one(2) ib1(1) this] show ?thesis
      unfolding batch_ledger_def A by (simp only: append_assoc) fastforce
  next
    assume failed: "ib_failed ib1" and rest: "?new = []" "represents cr (ib_db ib1) (L @ [ledger_entry cr e])"
    from ingest_loop_failed [OF one(2) ib1(1) failed] rest failed show ?thesis
      unfolding batch_ledger_def A by auto
  qed
qed

text \<open>The store in memory as such a store; it has no health check.\<close>

definition memory_ops :: "memory_store store_ops" where
  "memory_ops = \<lparr>so_insert = (\<lambda>_. memory_insert), so_query = (\<lambda>q s. Inr (memory_query q s)), so_health = None\<rparr>"

text \<open>A request with the billing credential on a fresh inbox and an empty store in memory.\<close>

definition toy_ingest :: ingest_config where
  "toy_ingest = \<lparr>ic_token = ''o'', ic_billing_token = ''b'', ic_lifecycle_token = [], ic_lifecycle_read_token = [],
     ic_max_body = 0, ic_max_events = 0\<rparr>"

definition toy_request :: http_request where
  "toy_request = \<lparr>hq_path = ''/v1/logs/ingest'', hq_method = ''POST'', hq_auth = ''Bearer b'', hq_query = [],
     hq_body = (\<lambda>_. Decoded [toy_event ''a''] True)\<rparr>"

definition toy_server :: "db \<Rightarrow> memory_store server" where
  "toy_server d = \<lparr>sv_inbox = Some (open_inbox d), sv_store = []\<rparr>"

lemma toy_token: "bearer_token ''Bearer b'' = ''b''"
  by code_simp

lemma toy_event_billing: "is_billing (toy_event ''a'')" "ev_stream (toy_event ''a'') = ''billing_usage''"
    "ev_source (toy_event ''a'') = ''billing_usage''" "ev_id (toy_event ''a'') = ''a''"
  by (simp_all add: is_billing_def toy_event_def)

lemma toy_handled:
  "handle_ingest toy_crypto toy_ingest memory_ops (\<lambda>_. toy_call) toy_request (toy_server fresh_db) =
     (Results [\<lparr>ir_id = ''a'', ir_status = ''accepted'', ir_error = []\<rparr>], toy_server one_db)"
  by (simp add: handle_ingest_def toy_request_def toy_token toy_ingest_def authorized_token_def billing_authorized_def
      max_events_per_batch_def default_max_events_batch_def recovery_fenced_def toy_server_def ingest_one_def
      toy_event_billing inbox_insert_def toy_insert result_of_def Let_def)

text \<open>C19: A batch is answered event by event and appends exactly what it reports. The answer lists one
  result per event, in the order of the request and under its identifier; the billing inbox
  represents the old ledger followed by the entries of the billing events reported as accepted,
  in that order, or it has failed closed after a commit of unknown outcome that may have added
  one more event of the batch.\<close>

theorem batch_appends_what_it_reports:
  assumes handled: "handle_ingest cr cfg st calls req sv = (Results rs, sv')"
    and inbox: "sv_inbox sv = Some ib" "represents cr (ib_db ib) L"
    and hex: "sha_hex cr" and clock: "\<And>k. \<not> is_zero (cl_now (calls k) 0)"
  shows "\<exists>es ib'. hq_body req (max_body_bytes cfg) = Decoded es True
     \<and> int (length es) \<le> max_events_per_batch cfg \<and> map ir_id rs = map ev_id es
     \<and> sv_inbox sv' = Some ib' \<and> batch_ledger cr L es (accepted_entries cr es rs) ib'"
proof -
  from handled obtain es where es: "hq_body req (max_body_bytes cfg) = Decoded es True"
      "int (length es) \<le> max_events_per_batch cfg"
      "ingest_loop cr cfg st calls (bearer_token (hq_auth req)) 0 es sv = (Some rs, sv')"
    by (auto simp: handle_ingest_def Let_def not_less split: if_splits ingest_body.splits prod.splits option.splits)
  from ingest_loop_ledger [OF es(3) inbox hex clock] ingest_loop_ids [OF es(3)] es(1,2) show ?thesis by blast
qed

theorem batch_appends_what_it_reports_witness:
  "\<exists>es. hq_body toy_request 10485760 = Decoded es True \<and> map ev_id es = [''a''] \<and> batch_ledger toy_crypto [] es
     (accepted_entries toy_crypto es [\<lparr>ir_id = ''a'', ir_status = ''accepted'', ir_error = []\<rparr>]) (open_inbox one_db)"
proof -
  have "max_body_bytes toy_ingest = 10485760"
    by (simp add: max_body_bytes_def toy_ingest_def default_max_body_bytes_def)
  then show ?thesis
    using batch_appends_what_it_reports [OF toy_handled _ _ toy_crypto_hex, of "open_inbox fresh_db" "[]"]
      fresh_db_represents toy_time_facts(1) by (auto simp: toy_server_def)
qed

theorem credentials_keep_stores_apart_witness:
  "ingest_handler toy_crypto (\<lambda>_. None) (\<lambda>_. BadCursor) toy_ingest memory_ops (\<lambda>_. toy_call) toy_request (toy_server fresh_db) =
      (Results [\<lparr>ir_id = ''a'', ir_status = ''accepted'', ir_error = []\<rparr>], toy_server one_db)
   \<and> sv_inbox (toy_server one_db) \<noteq> sv_inbox (toy_server fresh_db)
   \<and> sv_store (toy_server one_db) = sv_store (toy_server fresh_db)"
proof -
  have path: "hq_path toy_request = ''/v1/logs/ingest''" by (simp add: toy_request_def)
  have "ingest_handler toy_crypto (\<lambda>_. None) (\<lambda>_. BadCursor) toy_ingest memory_ops (\<lambda>_. toy_call) toy_request (toy_server fresh_db) =
      (Results [\<lparr>ir_id = ''a'', ir_status = ''accepted'', ir_error = []\<rparr>], toy_server one_db)"
    by (simp add: ingest_handler_def path toy_handled)
  moreover from credentials_keep_stores_apart [OF this] have "sv_store (toy_server one_db) = sv_store (toy_server fresh_db)"
    by (simp add: toy_request_def toy_token toy_ingest_def)
  moreover have "one_db \<noteq> fresh_db" using one_db_facts(2) fresh_db_ready(4) by auto
  ultimately show ?thesis by (auto simp: toy_server_def open_inbox_def)
qed

end
