(* ===== verification/ForwarderProperties.thy ===== *)
theory ForwarderProperties
  imports Forwarder IngestProperties
begin

text \<open>
  The properties of the forwarder: every record before the saved cursor has been handed over,
  the spool loses nothing and keeps its bound, and two ways in which the pieces lose records
  when they are put together.
\<close>

section \<open>Interfaces\<close>

text \<open>
  What the forwarder expects of a cursor store. \<open>plain\<close> says which cursors it can hold; a failed
  save leaves the old cursor, or a torn one.
\<close>

locale cursor_store =
  fixes load :: "'c \<Rightarrow> go_error + bytes" and save :: "'i \<Rightarrow> bytes \<Rightarrow> 'c \<Rightarrow> (go_error + unit) \<times> 'c"
    and plain :: "bytes \<Rightarrow> bool"
  assumes saved: "plain c \<Longrightarrow> save io c s = (Inr u, s') \<Longrightarrow> load s' = Inr c"
    and torn: "plain c \<Longrightarrow> save io c s = (Inl x, s') \<Longrightarrow> load s' = load s \<or> (\<exists>p. load s' = Inr p \<and> prefix p c)"

text \<open>And of a sink: what has been handed over grows, by the whole batch when sending succeeds.\<close>

locale event_sink =
  fixes send :: "nat \<Rightarrow> log_event list \<Rightarrow> 'k \<Rightarrow> (go_error + unit) \<times> 'k" and got :: "'k \<Rightarrow> log_event set"
  assumes sent: "send n es k = (Inr u, k') \<Longrightarrow> set es \<subseteq> got k'"
    and kept: "send n es k = (r, k') \<Longrightarrow> got k \<subseteq> got k'"
begin

text \<open>A flush loses nothing: each batch is still there or has been handed over.\<close>

lemma flush_entries_safe:
  assumes "flush_entries io send n fs s k = (r, s', k')" "sp_files s = fs" "distinct (akeys fs)"
  shows "got k \<subseteq> got k' \<and> (\<exists>front. fs = front @ sp_files s'
     \<and> (\<forall>(name, f) \<in> set front. case sf_data f of Batch es \<Rightarrow> set es \<subseteq> got k' | Junk \<Rightarrow> True)
     \<and> (\<forall>m. r = Inr m \<longrightarrow> sp_files s' = []))"
  using assms
proof (induction fs arbitrary: n s k)
  case (Cons nf fs)
  obtain name f where nf: "nf = (name, f)" by fastforce
  have gone: "adel name (sp_files s) = fs"
    using Cons.prems(2,3) nf by (auto simp: adel_def akeys_def filter_id_conv)
  have stay: "got k \<subseteq> got k' \<and> (\<exists>front. nf # fs = front @ sp_files s'
     \<and> (\<forall>(name, f) \<in> set front. case sf_data f of Batch es \<Rightarrow> set es \<subseteq> got k' | Junk \<Rightarrow> True)
     \<and> (\<forall>m. r = Inr m \<longrightarrow> sp_files s' = []))" if "s' = s" "got k \<subseteq> got k'" "\<exists>x. r = Inl x"
    using that Cons.prems(2) by (intro conjI exI [of _ "[]"]) auto
  have go: "got k \<subseteq> got k' \<and> (\<exists>front. nf # fs = front @ sp_files s'
     \<and> (\<forall>(name, f) \<in> set front. case sf_data f of Batch es \<Rightarrow> set es \<subseteq> got k' | Junk \<Rightarrow> True)
     \<and> (\<forall>m. r = Inr m \<longrightarrow> sp_files s' = []))"
    if rest: "flush_entries io send m fs s1 k1 = (r, s', k')" "sp_files s1 = fs" "got k \<subseteq> got k1"
      and head: "case sf_data f of Batch es \<Rightarrow> set es \<subseteq> got k1 | Junk \<Rightarrow> True" for m s1 k1
  proof -
    have "distinct (akeys fs)" using Cons.prems(3) nf by simp
    from Cons.IH [OF rest(1,2) this] obtain front where d: "got k1 \<subseteq> got k'" "fs = front @ sp_files s'"
      "\<forall>(name, f) \<in> set front. case sf_data f of Batch es \<Rightarrow> set es \<subseteq> got k' | Junk \<Rightarrow> True"
      "\<forall>m. r = Inr m \<longrightarrow> sp_files s' = []" by blast
    have "case sf_data f of Batch es \<Rightarrow> set es \<subseteq> got k' | Junk \<Rightarrow> True"
      using head d(1) by (auto split: spool_data.splits)
    with d rest(3) show ?thesis by (intro conjI exI [of _ "nf # front"]) (auto simp: nf)
  qed
  show ?case
  proof (cases "si_read io name")
    case (Inl x)
    with Cons.prems(1) nf show ?thesis by (intro stay) auto
  next
    case (Inr u)
    show ?thesis
    proof (cases "sf_data f")
      case Junk
      obtain q s1 where q: "quarantine io name f s = (q, s1)" by fastforce
      show ?thesis
      proof (cases q)
        case (Inl x)
        then have "s1 = s" using q by (auto simp: quarantine_def Let_def split: sum.splits)
        with Cons.prems(1) nf \<open>si_read io name = Inr u\<close> Junk q Inl show ?thesis by (intro stay) auto
      next
        case q_ok: (Inr v)
        then have "sp_files s1 = fs" using q gone by (auto simp: quarantine_def Let_def split: sum.splits)
        moreover have "flush_entries io send n fs s1 k = (r, s', k')"
          using Cons.prems(1) nf \<open>si_read io name = Inr u\<close> Junk q q_ok by simp
        ultimately show ?thesis by (intro go) (auto simp: Junk)
      qed
    next
      case (Batch es)
      obtain q k1 where q: "send n es k = (q, k1)" by fastforce
      note mono = kept [OF q]
      show ?thesis
      proof (cases q)
        case (Inl x)
        with Cons.prems(1) nf \<open>si_read io name = Inr u\<close> Batch q mono show ?thesis by (intro stay) auto
      next
        case q_ok: (Inr v)
        have all: "set es \<subseteq> got k1" using sent q q_ok by blast
        show ?thesis
        proof (cases "si_remove io name")
          case (Inl x)
          with Cons.prems(1) nf \<open>si_read io name = Inr u\<close> Batch q q_ok mono show ?thesis by (intro stay) auto
        next
          case rm: (Inr w)
          have "flush_entries io send (n + 1) fs (s\<lparr>sp_files := adel name (sp_files s)\<rparr>) k1 = (r, s', k')"
            using Cons.prems(1) nf \<open>si_read io name = Inr u\<close> Batch q q_ok rm by simp
          then show ?thesis by (rule go) (use gone mono all Batch in auto)
        qed
      qed
    qed
  qed
qed auto

end

text \<open>
  A faithful source over a log: what it returns are records of the log in their order, starting
  with the first one after the cursor, and it knows no other cursors. The log may have grown
  between two reads, so a read may return fewer records than there are.
\<close>

definition position :: "journal_record list \<Rightarrow> bytes \<Rightarrow> nat \<Rightarrow> bool" where
  "position whole c i = (if c = [] then i = 0 else 0 < i \<and> i \<le> length whole \<and> jr_cursor (whole ! (i - 1)) = c)"

definition faithful_source :: "journal_record list \<Rightarrow> (bytes \<Rightarrow> int \<Rightarrow> go_error + journal_record list) \<Rightarrow> bool" where
  "faithful_source whole read =
     (\<forall>c n rs. read c n = Inr rs \<longrightarrow> (\<exists>i. position whole c i \<and> prefix rs (take (nat n) (drop i whole))))"

definition log_ok :: "journal_record list \<Rightarrow> bool" where
  "log_ok whole =
     (distinct (map jr_cursor whole) \<and> (\<forall>r \<in> set whole. jr_cursor r \<noteq> [])
      \<and> (\<forall>r \<in> set whole. \<forall>q \<in> set whole. prefix (jr_cursor r) (jr_cursor q) \<longrightarrow> r = q))"

text \<open>Every record up to the cursor has been handed over.\<close>

definition covered :: "journal_record list \<Rightarrow> bytes \<Rightarrow> log_event set \<Rightarrow> bool" where
  "covered whole c got = (\<forall>i. position whole c i \<longrightarrow> jr_event ` set (take i whole) \<subseteq> got)"

lemma covered_mono: "covered whole c got \<Longrightarrow> got \<subseteq> got' \<Longrightarrow> covered whole c got'"
  by (auto simp: covered_def)

lemma position_last:
  assumes whole: "log_ok whole" and p: "position whole c i" and rs: "prefix rs (drop i whole)" "rs \<noteq> []"
    and q: "position whole (jr_cursor (last rs)) j"
  shows "take j whole = take i whole @ rs"
proof -
  obtain zs where zs: "drop i whole = rs @ zs" using rs(1) by (auto simp: prefix_def)
  define m where "m = i + length rs"
  have i: "i \<le> length whole" using p by (auto simp: position_def split: if_splits)
  have len: "m \<le> length whole" using arg_cong [OF zs, of length] i by (simp add: m_def)
  have take: "take m whole = take i whole @ rs"
    by (simp add: m_def take_add zs)
  have nz: "0 < m" using rs(2) by (simp add: m_def)
  have "last rs = last (take m whole)" using take rs(2) by simp
  also have "\<dots> = whole ! (m - 1)" using nz len by (subst last_conv_nth) auto
  finally have l: "last rs = whole ! (m - 1)" .
  have "whole ! (m - 1) \<in> set whole" using nz len by simp
  then have "jr_cursor (last rs) \<noteq> []" using whole l by (simp add: log_ok_def)
  then have j: "0 < j" "j \<le> length whole" "jr_cursor (whole ! (j - 1)) = jr_cursor (whole ! (m - 1))"
    using q l by (auto simp: position_def)
  have "map jr_cursor whole ! (j - 1) = map jr_cursor whole ! (m - 1)" using j nz len by simp
  then have "j - 1 = m - 1"
    using whole j(1,2) nz len by (subst (asm) nth_eq_iff_index_eq) (auto simp: log_ok_def)
  then show ?thesis using take j(1) nz by (metis Suc_pred')
qed

lemma covered_last:
  assumes "log_ok whole" "position whole c i" "prefix rs (drop i whole)" "rs \<noteq> []" "covered whole c got"
    "jr_event ` set rs \<subseteq> got"
  shows "covered whole (jr_cursor (last rs)) got"
  unfolding covered_def
proof (intro allI impI)
  fix j assume "position whole (jr_cursor (last rs)) j"
  from position_last [OF assms(1-4) this] assms(2,5,6) show "jr_event ` set (take j whole) \<subseteq> got"
    by (auto simp: covered_def)
qed

lemma covered_torn:
  assumes whole: "log_ok whole" and c: "c = jr_cursor r" "r \<in> set whole" and cov: "covered whole c got" and p: "prefix p c"
  shows "covered whole p got"
  unfolding covered_def
proof (intro allI impI)
  fix j assume j: "position whole p j"
  show "jr_event ` set (take j whole) \<subseteq> got"
  proof (cases "p = []")
    case True
    with j show ?thesis by (simp add: position_def)
  next
    case False
    with j have "jr_cursor (whole ! (j - 1)) = p" "whole ! (j - 1) \<in> set whole"
      by (auto simp: position_def)
    with whole p c have "whole ! (j - 1) = r" by (simp add: log_ok_def)
    with \<open>jr_cursor (whole ! (j - 1)) = p\<close> c(1) have "p = c" by simp
    with cov j show ?thesis by (simp add: covered_def)
  qed
qed

text \<open>A run either leaves the cursor alone, or hands over what it read and saves the last cursor.\<close>

lemma run_once_cases [consumes 1, case_names stays moved]:
  assumes run: "run_once msg env f = (r, f')"
  obtains q g where "flush_first env f = (q, g)" "fw_cursor f' = fw_cursor g"
      "fw_sink f' = fw_sink g \<or> (\<exists>n es q'. re_send env n es (fw_sink g) = (q', fw_sink f'))"
  | n g aft rs k q c where "flush_first env f = (Inr n, g)" "re_load env (fw_cursor g) = Inr aft"
      "re_read env aft (batch_size (re_batch env)) = Inr rs" "rs \<noteq> []"
      "re_send env n (map jr_event rs) (fw_sink g) = (Inr (), k)"
      "re_save env (re_save_io env) (jr_cursor (last rs)) (fw_cursor g) = (q, c)"
      "r = q" "fw_cursor f' = c" "fw_sink f' = k"
proof -
  obtain q g where fl: "flush_first env f = (q, g)" by fastforce
  show thesis
  proof (cases q)
    case (Inl x)
    with run fl show thesis by (intro that(1) [OF fl]) (auto simp: run_once_def set_error_def)
  next
    case n: (Inr n)
    show thesis
    proof (cases "re_load env (fw_cursor g)")
      case (Inl x)
      with run fl n show thesis by (intro that(1) [OF fl]) (auto simp: run_once_def set_error_def)
    next
      case aft: (Inr aft)
      show thesis
      proof (cases "re_read env aft (batch_size (re_batch env))")
        case (Inl x)
        with run fl n aft show thesis by (intro that(1) [OF fl]) (auto simp: run_once_def set_error_def)
      next
        case read: (Inr rs)
        show thesis
        proof (cases rs)
          case Nil
          with run fl n aft read show thesis by (intro that(1) [OF fl]) (auto simp: run_once_def set_ok_def)
        next
          case (Cons r0 rs0)
          obtain q2 k where sending: "re_send env n (map jr_event rs) (fw_sink g) = (q2, k)" by fastforce
          obtain q3 c where saving: "re_save env (re_save_io env) (jr_cursor (last rs)) (fw_cursor g) = (q3, c)"
            by fastforce
          show thesis
          proof (cases q2)
            case (Inl x)
            with run fl n aft read Cons sending have "fw_cursor f' = fw_cursor g" "fw_sink f' = k"
              by (auto simp: run_once_def Let_def set_error_def)
            with sending show thesis by (intro that(1) [OF fl]) auto
          next
            case (Inr u)
            with run fl n aft read Cons sending saving
            have "r = q3" "fw_cursor f' = c" "fw_sink f' = k"
              by (auto simp: run_once_def Let_def set_error_def set_ok_def split: sum.splits)
            with fl n aft read Cons sending saving Inr show thesis
              by (intro that(2) [of n g aft rs k q3 c]) auto
          qed
        qed
      qed
    qed
  qed
qed

locale forwarding = cursor_store + event_sink
begin

definition at_least_once :: "journal_record list \<Rightarrow> ('a, 'c) forwarder \<Rightarrow> bool" where
  "at_least_once whole f = (\<forall>c. load (fw_cursor f) = Inr c \<longrightarrow> covered whole c (got (fw_sink f)))"

lemma flush_kept:
  "flush_entries io send n fs s k = (r, s', k') \<Longrightarrow> got k \<subseteq> got k'"
proof (induction fs arbitrary: n s k)
  case (Cons nf fs)
  obtain name f where nf: "nf = (name, f)" by fastforce
  show ?case
    using Cons.prems unfolding nf
    by (auto split: sum.splits spool_data.splits prod.splits dest!: Cons.IH dest: kept)
qed simp

lemma flush_first_kept:
  assumes "re_send env = send" "flush_first env f = (q, g)"
  shows "fw_cursor g = fw_cursor f \<and> got (fw_sink f) \<subseteq> got (fw_sink g)"
proof (cases "fw_spool f")
  case (Some s)
  obtain r s' k where fl: "flush_spool (re_spool_io env) send s (fw_sink f) = (r, s', k)"
    by (metis prod.exhaust)
  then have "got (fw_sink f) \<subseteq> got k"
    by (auto simp: flush_spool_def split: sum.splits dest: flush_kept [THEN subsetD])
  with assms Some fl show ?thesis by (auto simp: flush_first_def)
qed (use assms in \<open>simp add: flush_first_def\<close>)

lemma run_once_covers:
  assumes source: "faithful_source whole (re_read env)" and whole: "log_ok whole" "\<forall>r \<in> set whole. plain (jr_cursor r)"
    and env: "re_send env = send" "re_load env = load" "re_save env = save"
    and before: "at_least_once whole f" and run: "run_once msg env f = (r, f')"
  shows "at_least_once whole f'"
  using run
proof (cases rule: run_once_cases)
  case (stays q g)
  note flush_first_kept [OF env(1) stays(1)]
  moreover have "got (fw_sink g) \<subseteq> got (fw_sink f')"
    using stays(3) env(1) kept by (metis order_refl)
  ultimately show ?thesis
    using before stays(2) unfolding at_least_once_def by (metis covered_mono order_trans)
next
  case (moved n g aft rs k q c)
  note g = flush_first_kept [OF env(1) moved(1)]
  have sending: "send n (map jr_event rs) (fw_sink g) = (Inr (), k)" using moved env by simp
  have grown: "got (fw_sink f) \<subseteq> got k" using kept [OF sending] g by blast
  define new where "new = jr_cursor (last rs)"
  obtain i where i: "position whole aft i" "prefix rs (drop i whole)"
    using source moved(3) unfolding faithful_source_def by (meson prefix_order.trans take_is_prefix)
  have "covered whole aft (got k)"
    using before moved(2) g grown env by (auto simp: at_least_once_def intro: covered_mono)
  moreover have "jr_event ` set rs \<subseteq> got k" using sent [OF sending] by simp
  ultimately have cov: "covered whole new (got k)"
    unfolding new_def using whole(1) i moved(4) by (intro covered_last)
  have inlog: "last rs \<in> set whole"
    using i(2) moved(4) by (meson in_set_dropD last_in_set set_mono_prefix subsetD)
  have saving: "save (re_save_io env) new (fw_cursor g) = (q, c)" "fw_cursor f' = c" "fw_sink f' = k"
    using moved env by (simp_all add: new_def)
  have plain: "plain new" using whole(2) inlog by (simp add: new_def)
  have "load c = Inr new \<or> load c = load (fw_cursor f) \<or> (\<exists>p. load c = Inr p \<and> prefix p new)"
    using saving(1) saved torn plain g by (cases q) metis+
  then show ?thesis
  proof (elim disjE exE conjE)
    assume "load c = load (fw_cursor f)"
    with before grown saving show ?thesis unfolding at_least_once_def by (metis covered_mono)
  next
    fix p assume p: "load c = Inr p" "prefix p new"
    then have "covered whole p (got k)" using covered_torn [OF whole(1) _ inlog cov] by (simp add: new_def)
    with p saving show ?thesis by (simp add: at_least_once_def)
  qed (use cov saving in \<open>simp add: at_least_once_def\<close>)
qed

end

section \<open>Providers\<close>

interpretation memory_cursor: cursor_store memory_load memory_save "\<lambda>_. True"
  by unfold_locales (auto simp: memory_load_def memory_save_def)

lemma trim_space_torn: "list_all visible c \<Longrightarrow> prefix (trim_space (take n (c @ [CHR 0x0A]))) c"
proof (cases "n \<le> length c")
  case True
  assume "list_all visible c"
  with True have "trim_space (take n (c @ [CHR 0x0A])) = take n c"
    by (auto intro!: trim_space_visible simp: list_all_iff) (meson in_set_takeD)
  then show ?thesis by (simp add: take_is_prefix)
qed (simp add: trim_space_newline)

interpretation file_cursor: cursor_store file_load file_save "list_all visible"
  by unfold_locales
    (auto simp: file_load_def file_save_def trim_space_newline trim_space_torn simp del: take_append split: file_io.splits)

text \<open>
  The far side of \<open>HTTPSink\<close> as a recorder of the batches it received. \<open>answer n es\<close> says whether
  the \<open>n\<close>-th request arrives and what the client sees of the answer; a status line is only
  ever seen of a request that arrived.
\<close>

definition reach :: "(nat \<Rightarrow> log_event list \<Rightarrow> http_outcome \<times> bool) \<Rightarrow> nat \<Rightarrow> log_event list \<Rightarrow> log_event list list \<Rightarrow>
    http_outcome \<times> log_event list list" where
  "reach answer n es k =
     (case answer n es of
        (Status c, _) \<Rightarrow> (Status c, k @ [es])
      | (NoResponse x, arrived) \<Rightarrow> (NoResponse x, if arrived then k @ [es] else k))"

definition received :: "log_event list list \<Rightarrow> log_event set" where
  "received k = set (concat k)"

interpretation http: event_sink "http_send (reach answer)" received for answer
  by unfold_locales
    (auto simp: http_send_def reach_def received_def split: if_split_asm prod.splits http_outcome.splits)

interpretation file_to_http: forwarding file_load file_save "list_all visible" "http_send (reach answer)" received for answer
  by unfold_locales

section \<open>At least once\<close>

text \<open>
  A forwarder with a cursor file and an HTTP sink over a log: any number of runs, each with a
  faithful source and any outcome of the system calls and of the requests.
\<close>

definition forwarding_env :: "journal_record list \<Rightarrow> (cursor_file, file_io, log_event list list) run_env \<Rightarrow> bool" where
  "forwarding_env whole env =
     (faithful_source whole (re_read env) \<and> (\<exists>answer. re_send env = http_send (reach answer))
      \<and> re_load env = file_load \<and> re_save env = file_save)"

inductive forwards ::
    "(go_error \<Rightarrow> bytes) \<Rightarrow> journal_record list \<Rightarrow> (cursor_file, log_event list list) forwarder \<Rightarrow>
     (cursor_file, log_event list list) forwarder \<Rightarrow> bool" for msg whole f where
  no_run: "forwards msg whole f f"
| one_more: "forwards msg whole f g \<Longrightarrow> forwarding_env whole env \<Longrightarrow> run_once msg env g = (r, h) \<Longrightarrow> forwards msg whole f h"

text \<open>A source that reads the log itself.\<close>

fun after_record :: "bytes \<Rightarrow> journal_record list \<Rightarrow> journal_record list option" where
  "after_record c [] = None"
| "after_record c (r # rs) = (if jr_cursor r = c then Some rs else after_record c rs)"

definition log_source :: "journal_record list \<Rightarrow> bytes \<Rightarrow> int \<Rightarrow> go_error + journal_record list" where
  "log_source whole c n =
     (if c = [] then Inr (take (nat n) whole)
      else case after_record c whole of
             None \<Rightarrow> Inl (ErrMsg ''exit status 1'')
           | Some rs \<Rightarrow> Inr (take (nat n) rs))"

lemma after_record_Some:
  "after_record c whole = Some rs \<Longrightarrow> \<exists>i < length whole. jr_cursor (whole ! i) = c \<and> rs = drop (Suc i) whole"
proof (induction whole)
  case (Cons r rs')
  show ?case
  proof (cases "jr_cursor r = c")
    case True
    with Cons.prems show ?thesis by (intro exI [of _ 0]) simp
  next
    case False
    with Cons obtain i where "i < length rs'" "jr_cursor (rs' ! i) = c" "rs = drop (Suc i) rs'" by auto
    then show ?thesis by (intro exI [of _ "Suc i"]) simp
  qed
qed simp

lemma after_record_nth:
  "distinct (map jr_cursor whole) \<Longrightarrow> i < length whole \<Longrightarrow> after_record (jr_cursor (whole ! i)) whole = Some (drop (Suc i) whole)"
proof (induction whole arbitrary: i)
  case (Cons r rs)
  show ?case
  proof (cases i)
    case (Suc j)
    with Cons.prems have "jr_cursor r \<noteq> jr_cursor (rs ! j)" by auto
    with Suc Cons show ?thesis by auto
  qed simp
qed simp

lemma log_source_faithful: "faithful_source whole (log_source whole)"
  unfolding faithful_source_def
proof (intro allI impI)
  fix c n rs assume rs: "log_source whole c n = Inr rs"
  show "\<exists>i. position whole c i \<and> prefix rs (take (nat n) (drop i whole))"
  proof (cases "c = []")
    case True
    with rs show ?thesis by (auto simp: log_source_def position_def)
  next
    case False
    with rs obtain zs where "after_record c whole = Some zs" "rs = take (nat n) zs"
      by (auto simp: log_source_def split: option.splits)
    moreover then obtain i where "i < length whole" "jr_cursor (whole ! i) = c" "zs = drop (Suc i) whole"
      using after_record_Some by blast
    ultimately show ?thesis using False by (intro exI [of _ "Suc i"]) (simp add: position_def)
  qed
qed

text \<open>C21: Records are forwarded at least once. However many times the forwarder runs over a log whose
  cursors are distinct printable texts none of which starts another, whatever fails in the
  source, the HTTP requests, the spool and the cursor file (a torn write of it included), when
  the cursor file can be read then the event of every record up to the saved cursor has reached
  the far side of a request. The log may have grown between two reads.\<close>

theorem forwarded_up_to_the_cursor:
  assumes "forwards msg whole f f'" "fw_cursor f = Missing" "log_ok whole"
    "\<forall>r \<in> set whole. list_all visible (jr_cursor r)"
    "file_load (fw_cursor f') = Inr c" "position whole c i" "r \<in> set (take i whole)"
  shows "jr_event r \<in> received (fw_sink f')"
proof -
  have "file_to_http.at_least_once whole f'"
    using assms(1)
  proof induction
    case no_run
    then show ?case
      unfolding file_to_http.at_least_once_def
      using assms(2) by (auto simp: file_load_def covered_def position_def)
  next
    case (one_more g env r h)
    then obtain answer where "re_send env = http_send (reach answer)" by (auto simp: forwarding_env_def)
    show ?case
      by (rule file_to_http.run_once_covers [OF _ assms(3,4) \<open>re_send env = _\<close> _ _ one_more.IH one_more.hyps(3)])
        (use one_more.hyps(2) in \<open>simp_all add: forwarding_env_def\<close>)
  qed
  with assms(5-7) show ?thesis by (auto simp: file_to_http.at_least_once_def covered_def)
qed

text \<open>Two records, forwarded one at a time over a link that answers.\<close>

definition toy_record :: "bytes \<Rightarrow> journal_record" where
  "toy_record c = \<lparr>jr_cursor = c, jr_event = toy_event c\<rparr>"

definition toy_spool_io :: spool_io where
  "toy_spool_io = \<lparr>si_mkdir = Inr (), si_write = Inr (), si_list = Inr (), si_read = (\<lambda>_. Inr ()), si_remove = (\<lambda>_. Inr ()),
     si_bad_dir = Inr (), si_rename = (\<lambda>_. Inr ()), si_stamp = ''1'', si_now = GTime 1 0\<rparr>"

definition accepting :: "nat \<Rightarrow> log_event list \<Rightarrow> http_outcome \<times> bool" where
  "accepting n es = (Status 202, True)"

definition working_env :: "journal_record list \<Rightarrow> int \<Rightarrow> (cursor_file, file_io, log_event list list) run_env" where
  "working_env whole batch = \<lparr>re_read = log_source whole, re_send = http_send (reach accepting),
     re_load = file_load, re_save = file_save, re_save_io = FileOk, re_spool_io = toy_spool_io, re_spool_max = 0,
     re_spool_size = 1, re_batch = batch, re_now = GTime 1 0\<rparr>"

definition new_forwarder :: "(cursor_file, log_event list list) forwarder" where
  "new_forwarder = \<lparr>fw_cursor = Missing, fw_spool = None, fw_sink = [],
     fw_status = \<lparr>fs_cursor = [], fs_upload = zero_time, fs_error = [], fs_degraded = False, fs_uploaded = 0\<rparr>\<rparr>"

lemma working_env_simps [simp]:
  "re_read (working_env whole b) = log_source whole" "re_send (working_env whole b) = http_send (reach accepting)"
  "re_load (working_env whole b) = file_load" "re_save (working_env whole b) = file_save"
  "re_save_io (working_env whole b) = FileOk" "re_batch (working_env whole b) = b"
  by (simp_all add: working_env_def)

lemma working_env_ok: "forwarding_env whole (working_env whole b)"
  by (auto simp: forwarding_env_def log_source_faithful)

text \<open>The state after the first \<open>i\<close> records of a log have been forwarded.\<close>

definition at_position :: "journal_record list \<Rightarrow> nat \<Rightarrow> (cursor_file, log_event list list) forwarder \<Rightarrow> bool" where
  "at_position whole i f =
     (i \<le> length whole \<and> fw_spool f = None \<and> concat (fw_sink f) = map jr_event (take i whole)
      \<and> file_load (fw_cursor f) = Inr (if i = 0 then [] else jr_cursor (whole ! (i - 1))))"

lemma run_at_position:
  assumes f: "at_position whole i f" and whole: "log_ok whole" "\<forall>r \<in> set whole. list_all visible (jr_cursor r)"
    and json: "\<forall>r \<in> set whole. event_json_ok (jr_event r)"
  shows "\<exists>f'. run_once msg (working_env whole b) f = (Inr (), f')
    \<and> at_position whole (min (length whole) (i + nat (batch_size b))) f'"
proof -
  define n where "n = nat (batch_size b)"
  define rs where "rs = take n (drop i whole)"
  have i: "i \<le> length whole" and loaded: "file_load (fw_cursor f) = Inr (if i = 0 then [] else jr_cursor (whole ! (i - 1)))"
    using f by (simp_all add: at_position_def)
  have "log_source whole (if i = 0 then [] else jr_cursor (whole ! (i - 1))) (batch_size b) = Inr rs"
    using i whole after_record_nth [of whole "i - 1"]
    by (auto simp: log_source_def log_ok_def rs_def n_def)
  note read = this
  have rs: "take i whole @ rs = take (i + n) whole" "set rs \<subseteq> set whole"
    by (auto simp: rs_def take_add dest: in_set_takeD in_set_dropD)
  have goal_len: "min (length whole) (i + n) = i + length rs" using i by (simp add: rs_def)
  show ?thesis
  proof (cases "rs = []")
    case True
    then have "run_once msg (working_env whole b) f = (Inr (), set_ok (re_now (working_env whole b))
        (if i = 0 then [] else jr_cursor (whole ! (i - 1))) 0 f)"
      using f loaded read by (simp add: run_once_def flush_first_def at_position_def)
    with f goal_len True show ?thesis by (simp add: at_position_def set_ok_def n_def)
  next
    case False
    have "list_all event_json_ok (map jr_event rs)"
      using json rs(2) by (auto simp: list_all_iff)
    then have sending: "http_send (reach accepting) 0 (map jr_event rs) (fw_sink f) = (Inr (), fw_sink f @ [map jr_event rs])"
      by (simp add: http_send_def reach_def accepting_def)
    obtain f' where f': "run_once msg (working_env whole b) f = (Inr (), f')" "fw_spool f' = None"
        "fw_sink f' = fw_sink f @ [map jr_event rs]" "fw_cursor f' = Content (jr_cursor (last rs) @ [CHR 0x0A])"
      using f loaded read sending False
      by (cases rs) (auto simp: run_once_def flush_first_def at_position_def file_save_def set_ok_def Let_def)
    have "rs ! k = whole ! (i + k)" if "k < length rs" for k using that i by (simp add: rs_def)
    then have "last rs = whole ! (i + (length rs - 1))" using False by (simp add: last_conv_nth)
    moreover have "i + (length rs - 1) = i + length rs - 1" using False by (cases rs) simp_all
    ultimately have "last rs = whole ! (i + length rs - 1)" by simp
    moreover have "list_all visible (jr_cursor (last rs))" using whole(2) rs(2) False by (simp add: subsetD)
    ultimately have loaded': "file_load (fw_cursor f') = Inr (jr_cursor (whole ! (i + length rs - 1)))"
      using f'(4) by (simp add: file_load_def trim_space_newline)
    have "take (i + length rs) whole = take i whole @ rs"
      using rs(1) unfolding goal_len [symmetric] by (simp add: min_def)
    then have "at_position whole (i + length rs) f'"
      using f f'(2,3) False goal_len loaded' by (auto simp: at_position_def)
    with f'(1) goal_len show ?thesis by (simp add: n_def)
  qed
qed

text \<open>C22: A forwarder that is let to work delivers the log, in order and once. With a log that can
  be marshalled, a link that answers with success and a cursor file that can be written, as many
  runs as the log has batches hand over every event exactly once, in the order of the log, and
  no number of further runs sends anything again.\<close>

theorem working_forwarder_drains:
  assumes "log_ok whole" "\<forall>r \<in> set whole. list_all visible (jr_cursor r)" "\<forall>r \<in> set whole. event_json_ok (jr_event r)"
    and "length whole \<le> m * nat (batch_size b)"
  shows "concat (fw_sink (((\<lambda>f. snd (run_once msg (working_env whole b) f)) ^^ m) new_forwarder)) = map jr_event whole"
proof -
  have "at_position whole (min (length whole) (m * nat (batch_size b)))
      (((\<lambda>f. snd (run_once msg (working_env whole b) f)) ^^ m) new_forwarder)" for m
  proof (induction m)
    case 0
    show ?case by (simp add: at_position_def new_forwarder_def file_load_def)
  next
    case (Suc m)
    from run_at_position [OF Suc.IH assms(1-3), of msg b] show ?case
      by (auto simp: min_def add.commute split: if_splits)
  qed
  from this [of m] assms(4) show ?thesis by (simp add: at_position_def min_def)
qed

lemma toy_log: "log_ok [toy_record ''a'', toy_record ''b'']"
    "\<forall>r \<in> set [toy_record ''a'', toy_record ''b'']. list_all visible (jr_cursor r)"
    "\<forall>r \<in> set [toy_record ''a'', toy_record ''b'']. event_json_ok (jr_event r)"
  by (auto simp: log_ok_def toy_record_def visible_def event_json_ok_def toy_event_def toy_time_facts)

theorem working_forwarder_drains_witness:
  "concat (fw_sink (((\<lambda>f. snd (run_once error_text (working_env [toy_record ''a'', toy_record ''b''] 1) f)) ^^ 2) new_forwarder))
     = [toy_event ''a'', toy_event ''b'']"
  using working_forwarder_drains [OF toy_log, of 2 1] by (simp add: batch_size_def toy_record_def)

theorem forwarded_up_to_the_cursor_witness:
  "\<exists>f'. run_once error_text (working_env [toy_record ''a'', toy_record ''b''] 1) new_forwarder = (Inr (), f')
     \<and> toy_event ''a'' \<in> received (fw_sink f')"
proof -
  have "at_position [toy_record ''a'', toy_record ''b''] 0 new_forwarder"
    by (simp add: at_position_def new_forwarder_def file_load_def)
  from run_at_position [OF this toy_log, of error_text 1] obtain f' where
    f': "run_once error_text (working_env [toy_record ''a'', toy_record ''b''] 1) new_forwarder = (Inr (), f')"
      "at_position [toy_record ''a'', toy_record ''b''] 1 f'"
    by (auto simp: batch_size_def)
  have "forwards error_text [toy_record ''a'', toy_record ''b''] new_forwarder f'"
    by (rule one_more [OF no_run working_env_ok f'(1)])
  from forwarded_up_to_the_cursor [OF this _ toy_log(1,2), of "''a''" 1 "toy_record ''a''"] f'
  have "jr_event (toy_record ''a'') \<in> received (fw_sink f')"
    by (simp add: at_position_def new_forwarder_def position_def toy_record_def)
  with f'(1) show ?thesis by (simp add: toy_record_def)
qed

section \<open>The spool\<close>

text \<open>Undecodable files are moved, not dropped.\<close>

lemma flush_entries_bad:
  assumes "flush_entries io send n fs s k = (r, s', k')" "sp_files s = fs" "distinct (akeys fs)"
    and "\<forall>(name, f) \<in> set fs. aget (sp_bad s) name = None"
  shows "aget (sp_bad s) name = Some f \<Longrightarrow> aget (sp_bad s') name = Some f"
    and "(name, f) \<in> set fs \<Longrightarrow> sf_data f = Junk \<Longrightarrow> (name, f) \<in> set (sp_files s') \<or> aget (sp_bad s') name = Some f"
proof -
  have "(aget (sp_bad s) name = Some f \<longrightarrow> aget (sp_bad s') name = Some f)
    \<and> ((name, f) \<in> set fs \<and> sf_data f = Junk \<longrightarrow> (name, f) \<in> set (sp_files s') \<or> aget (sp_bad s') name = Some f)"
    using assms
  proof (induction fs arbitrary: n s k)
    case (Cons nf fs)
    obtain i g where nf: "nf = (i, g)" by fastforce
    have gone: "adel i (sp_files s) = fs"
      using Cons.prems(2,3) nf by (auto simp: adel_def akeys_def filter_id_conv)
    have new: "i \<notin> fst ` set fs" "distinct (akeys fs)" using Cons.prems(3) nf by (auto simp: akeys_def)
    have unused: "aget (sp_bad s) i = None" "\<forall>(name, f) \<in> set fs. aget (sp_bad s) name = None"
      using Cons.prems(4) nf by auto
    show ?case
    proof (cases "s' = s")
      case True
      then show ?thesis using Cons.prems(2) by simp
    next
      case False
      show ?thesis
      proof (cases "sf_data g")
        case Junk
        have rest: "flush_entries io send n fs (s\<lparr>sp_files := fs, sp_bad := aput i g (sp_bad s)\<rparr>) k = (r, s', k')"
          using Cons.prems(1) False nf Junk unused(1) gone
          by (auto simp: quarantine_def Let_def split: sum.splits)
        have "\<forall>(name, f) \<in> set fs. aget (aput i g (sp_bad s)) name = None" using unused(2) new(1) by force
        with Cons.IH [OF rest _ new(2)]
        have "(aget (aput i g (sp_bad s)) name = Some f \<longrightarrow> aget (sp_bad s') name = Some f)
          \<and> ((name, f) \<in> set fs \<and> sf_data f = Junk \<longrightarrow> (name, f) \<in> set (sp_files s') \<or> aget (sp_bad s') name = Some f)" by simp
        with unused(1) nf show ?thesis by (auto split: if_splits)
      next
        case (Batch es)
        obtain k1 where rest: "flush_entries io send (n + 1) fs (s\<lparr>sp_files := fs\<rparr>) k1 = (r, s', k')"
          using Cons.prems(1) False nf Batch gone by (auto split: sum.splits prod.splits)
        with Cons.IH [OF rest _ new(2)] unused(2) nf Batch show ?thesis by auto
      qed
    qed
  qed simp
  then show "aget (sp_bad s) name = Some f \<Longrightarrow> aget (sp_bad s') name = Some f"
    "(name, f) \<in> set fs \<Longrightarrow> sf_data f = Junk \<Longrightarrow> (name, f) \<in> set (sp_files s') \<or> aget (sp_bad s') name = Some f"
    by blast+
qed

text \<open>C24: Flushing the spool loses nothing. Whatever fails on the way, the files that have left the
  spool are the oldest ones, every batch among them has reached the far side of a request, the
  rest is still there in the same order, and after a successful flush the spool is empty. A file
  that does not decode is kept among the bad ones when it leaves, and where none of the names
  has been used there before, it has its name and content and none of the earlier bad files is
  lost.\<close>

theorem flush_loses_nothing:
  assumes "flush_spool io (http_send (reach answer)) s k = (r, s', k')" "distinct (akeys (sp_files s))"
  shows "\<exists>front. sp_files s = front @ sp_files s'
     \<and> (\<forall>(name, f) \<in> set front. case sf_data f of Batch es \<Rightarrow> set es \<subseteq> received k' | Junk \<Rightarrow> True)
     \<and> (\<forall>n. r = Inr n \<longrightarrow> sp_files s' = [])
     \<and> ((\<forall>(name, f) \<in> set (sp_files s). aget (sp_bad s) name = None) \<longrightarrow>
          (\<forall>(name, f) \<in> set front. sf_data f = Junk \<longrightarrow> aget (sp_bad s') name = Some f)
          \<and> (\<forall>name f. aget (sp_bad s) name = Some f \<longrightarrow> aget (sp_bad s') name = Some f))"
proof (cases "si_list io")
  case (Inl x)
  with assms show ?thesis by (intro exI [of _ "[]"]) (auto simp: flush_spool_def)
next
  case (Inr u)
  with assms(1) have "flush_entries io (http_send (reach answer)) 0 (sp_files s) s k = (r, s', k')"
    by (simp add: flush_spool_def)
  note run = this
  from http.flush_entries_safe [OF run _ assms(2)] obtain front where front: "sp_files s = front @ sp_files s'"
      "\<forall>(name, f) \<in> set front. case sf_data f of Batch es \<Rightarrow> set es \<subseteq> received k' | Junk \<Rightarrow> True"
      "\<forall>n. r = Inr n \<longrightarrow> sp_files s' = []" by blast
  have "aget (sp_bad s') name = Some f"
    if "(name, f) \<in> set front" "sf_data f = Junk" "\<forall>(name, f) \<in> set (sp_files s). aget (sp_bad s) name = None" for name f
  proof -
    from flush_entries_bad(2) [OF run _ assms(2) that(3)] front(1) that(1,2)
    have "(name, f) \<in> set (sp_files s') \<or> aget (sp_bad s') name = Some f" by auto
    moreover have "(name, f) \<notin> set (sp_files s')"
      using assms(2) front(1) that(1) by (auto simp: akeys_def dest: imageI [of _ _ fst])
    ultimately show ?thesis by blast
  qed
  with front flush_entries_bad(1) [OF run _ assms(2)] show ?thesis by blast
qed

definition toy_file :: "log_event list \<Rightarrow> spool_file" where
  "toy_file es = \<lparr>sf_data = Batch es, sf_size = 1, sf_time = GTime 1 0\<rparr>"

theorem flush_loses_nothing_witness:
  "toy_event ''a'' \<in> received (snd (snd (flush_spool toy_spool_io (http_send (reach accepting))
     \<lparr>sp_files = [(''0.json'', toy_file [toy_event ''a''])], sp_bad = []\<rparr> [])))"
proof -
  obtain r s' k' where fl: "flush_spool toy_spool_io (http_send (reach accepting))
     \<lparr>sp_files = [(''0.json'', toy_file [toy_event ''a''])], sp_bad = []\<rparr> [] = (r, s', k')"
    by (metis prod.exhaust)
  have "event_json_ok (toy_event ''a'')" using toy_log(3) by (simp add: toy_record_def)
  with fl have "r = Inr 1"
    by (auto simp: flush_spool_def toy_spool_io_def toy_file_def http_send_def reach_def accepting_def)
  moreover obtain front where "[(''0.json'', toy_file [toy_event ''a''])] = front @ sp_files s'"
      "\<forall>(name, f) \<in> set front. case sf_data f of Batch es \<Rightarrow> set es \<subseteq> received k' | Junk \<Rightarrow> True"
      "\<forall>n. r = Inr n \<longrightarrow> sp_files s' = []"
    using flush_loses_nothing [OF fl] by auto
  ultimately show ?thesis using fl by (auto simp: toy_file_def)
qed

lemma drop_oldest_bound:
  assumes "drop_oldest remove m used fs s = (Inr u, s')" "sp_files s = fs" "distinct (akeys fs)" "used = spool_total fs" "0 < m"
  shows "spool_total (sp_files s') \<le> m \<and> suffix (sp_files s') fs
    \<and> (fs \<noteq> [] \<and> sf_size (snd (last fs)) \<le> m \<longrightarrow> sp_files s' \<noteq> [])"
  using assms
proof (induction fs arbitrary: used s)
  case Nil
  then show ?case by (simp add: spool_total_def)
next
  case (Cons nf fs)
  obtain name f where nf: "nf = (name, f)" by fastforce
  show ?case
  proof (cases "used \<le> m")
    case True
    with Cons.prems nf show ?thesis by auto
  next
    case False
    have gone: "adel name (sp_files s) = fs"
      using Cons.prems(2,3) nf by (auto simp: adel_def akeys_def filter_id_conv)
    have rest: "drop_oldest remove m (used - sf_size f) fs (s\<lparr>sp_files := adel name (sp_files s)\<rparr>) = (Inr u, s')"
      using Cons.prems(1) nf False by (simp split: sum.splits)
    have "distinct (akeys fs)" "used - sf_size f = spool_total fs"
      using Cons.prems(3,4) nf by (simp_all add: spool_total_def)
    note Cons.IH [OF rest _ this Cons.prems(5)]
    then have tail: "spool_total (sp_files s') \<le> m" "suffix (sp_files s') fs"
        "fs \<noteq> [] \<and> sf_size (snd (last fs)) \<le> m \<longrightarrow> sp_files s' \<noteq> []"
      using gone by simp_all
    have "sp_files s' \<noteq> []" if last: "sf_size (snd (last (nf # fs))) \<le> m"
    proof -
      have "fs \<noteq> []" using last False Cons.prems(4) nf by (auto simp: spool_total_def)
      with last tail(3) show ?thesis by simp
    qed
    with tail(1,2) show ?thesis by (blast intro: suffix_ConsI)
  qed
qed

lemma aput_newest: "\<forall>k' \<in> set (akeys fs). k' < k \<Longrightarrow> aput k v fs = fs @ [(k, v)]"
proof (induction fs)
  case (Cons kv fs)
  then show ?case by (cases kv) (auto simp: not_less_iff_gr_or_eq)
qed simp

text \<open>C23: The spool keeps its bound and drops the oldest batches first. When a batch is stored under a
  name later than the others and the call succeeds, the files together are no larger than the
  bound, they are the most recent ones of the spool with the new batch, and the new batch is
  among them when it alone fits the bound.\<close>

theorem spool_stays_bounded:
  assumes "enqueue m io len events s = (Inr u, s')" "0 < m" "events \<noteq> []" "distinct (akeys (sp_files s))"
    "\<forall>name \<in> set (akeys (sp_files s)). name < spool_name io"
  defines "new \<equiv> \<lparr>sf_data = Batch events, sf_size = len, sf_time = si_now io\<rparr>"
  shows "spool_total (sp_files s') \<le> m \<and> suffix (sp_files s') (sp_files s @ [(spool_name io, new)])
     \<and> (len \<le> m \<longrightarrow> (spool_name io, new) \<in> set (sp_files s'))"
proof -
  define fs where "fs = sp_files s @ [(spool_name io, new)]"
  have "drop_oldest (si_remove io) m (spool_total fs) fs (s\<lparr>sp_files := fs\<rparr>) = (Inr u, s')"
    using assms(1-3) aput_newest [OF assms(5), of new]
    by (auto simp: enqueue_def enforce_limit_def fs_def new_def split: sum.splits if_splits)
  moreover have "distinct (akeys fs)" using assms(4,5) by (auto simp: fs_def akeys_def)
  ultimately have d: "spool_total (sp_files s') \<le> m" "suffix (sp_files s') fs"
      "fs \<noteq> [] \<and> sf_size (snd (last fs)) \<le> m \<longrightarrow> sp_files s' \<noteq> []"
    using drop_oldest_bound [of _ m _ fs _ u s'] assms(2) by auto
  have "(spool_name io, new) \<in> set (sp_files s')" if "len \<le> m"
  proof -
    have "sp_files s' \<noteq> []" using d(3) that by (simp add: fs_def new_def)
    then have "last (sp_files s') = last fs" using d(2) by (auto simp: suffix_def)
    with \<open>sp_files s' \<noteq> []\<close> show ?thesis by (metis fs_def last_in_set last_snoc)
  qed
  with d show ?thesis by (simp add: fs_def)
qed

theorem spool_stays_bounded_witness:
  "\<exists>s'. enqueue 3 toy_spool_io 2 [toy_event ''b''] \<lparr>sp_files = [(''0.json'', (toy_file [toy_event ''a''])\<lparr>sf_size := 2\<rparr>)], sp_bad = []\<rparr> = (Inr (), s')
     \<and> spool_total (sp_files s') \<le> 3 \<and> sp_files s' \<noteq> []"
proof -
  obtain r s' where e: "enqueue 3 toy_spool_io 2 [toy_event ''b'']
      \<lparr>sp_files = [(''0.json'', (toy_file [toy_event ''a''])\<lparr>sf_size := 2\<rparr>)], sp_bad = []\<rparr> = (r, s')"
    by fastforce
  have "event_json_ok (toy_event ''b'')" using toy_log(3) by (simp add: toy_record_def)
  then have "r = Inr ()"
    using e by (auto simp: enqueue_def toy_spool_io_def enforce_limit_def spool_total_def toy_file_def spool_name_def)
  moreover have "''0.json'' < spool_name toy_spool_io" by (simp add: spool_name_def toy_spool_io_def)
  ultimately show ?thesis
    using spool_stays_bounded [of 3 toy_spool_io 2 "[toy_event ''b'']" _ "()" s'] e by fastforce
qed

end
