(* ===== verification/ReadersProperties.thy ===== *)
theory ReadersProperties
  imports Readers ForwarderProperties ArchiveSample
begin

text \<open>
  The properties of the sources: a line of the journal always gives a well-formed event without
  secrets, a line too long for the scanner stops a forwarder for good, and a container with a
  long log loses the records that \<open>--tail\<close> leaves out.
\<close>

section \<open>The first text that is not blank\<close>

lemma trim_front_start:
  "trim_front rs s = c # t \<Longrightarrow> find (\<lambda>r. r \<noteq> [] \<and> starts_with (c # t) r) rs = None"
  by (induction rs s rule: trim_front.induct) (auto split: option.splits)

lemma trim_front_idem [simp]: "trim_front rs (trim_front rs s) = trim_front rs s"
proof (cases "trim_front rs s")
  case (Cons c t)
  from trim_front_start [OF this] show ?thesis by (simp add: Cons)
qed simp

lemma trim_front_suffix: "suffix (trim_front rs s) s"
proof (induction rs s rule: trim_front.induct)
  case (2 rs c s)
  show ?case
  proof (cases "find (\<lambda>r. r \<noteq> [] \<and> starts_with (c # s) r) rs")
    case (Some r)
    have "suffix (drop (length r - 1) s) s" by (rule suffix_drop)
    with 2 [OF Some] Some show ?thesis by (auto intro: suffix_ConsI suffix_order.trans)
  qed simp
qed simp

lemma trim_front_prefix: "prefix p (trim_front rs s) \<Longrightarrow> trim_front rs p = p"
proof (cases p)
  case (Cons c t)
  assume p: "prefix p (trim_front rs s)"
  then obtain u where u: "trim_front rs s = c # u" using Cons by (auto simp: prefix_def)
  have "starts_with (c # u) r" if r: "starts_with p r" for r
  proof -
    obtain zs where "c # u = p @ zs" using p u by (auto simp: prefix_def)
    moreover have "length r \<le> length p" using arg_cong [OF r [unfolded starts_with_def], of length] by simp
    ultimately show ?thesis using r by (simp add: starts_with_def)
  qed
  then have "find (\<lambda>r. r \<noteq> [] \<and> starts_with p r) rs = None"
    using trim_front_start [OF u] by (auto simp: find_None_iff)
  then show ?thesis by (simp add: Cons)
qed simp

lemma trim_space_idem [simp]: "trim_space (trim_space s) = trim_space s"
proof -
  define u where "u = trim_front space_runes s"
  have "suffix (trim_front (map rev space_runes) (rev u)) (rev u)" by (rule trim_front_suffix)
  then have "prefix (rev (trim_front (map rev space_runes) (rev u))) u"
    by (metis rev_rev_ident suffix_to_prefix)
  then have "trim_front space_runes (rev (trim_front (map rev space_runes) (rev u)))
      = rev (trim_front (map rev space_runes) (rev u))"
    unfolding u_def by (rule trim_front_prefix)
  then show ?thesis by (simp add: trim_space_def u_def)
qed

lemma first_non_empty_visible: "list_ex (list_ex visible) vs \<Longrightarrow> \<not> blank (first_non_empty vs)"
  using visible_not_blank by (induction vs) (auto simp: blank_def)

lemma blank_hexadecimal: "valid_digest s \<Longrightarrow> \<not> blank s"
proof (rule visible_not_blank)
  assume "valid_digest s"
  then obtain c t where "s = c # t" "is_lower_hex c" by (cases s) (auto simp: valid_digest_def)
  then show "list_ex visible s" by (auto simp: visible_def is_lower_hex_def Let_def)
qed

section \<open>Records of the journal\<close>

lemma journal_level_visible: "list_ex visible (journal_level p)"
  by (simp add: journal_level_def visible_def)

lemma first_non_empty_not_blank:
  "v \<in> set vs \<Longrightarrow> \<not> blank v \<Longrightarrow> \<not> blank (first_non_empty vs)"
  by (induction vs) (auto simp: blank_def)

lemma journal_time_not_zero: "\<not> is_zero now \<Longrightarrow> \<not> is_zero (journal_time now raw)"
proof -
  have "sint w + unix_epoch \<noteq> 0" for w :: u64
    using sint_ge [of w] by (simp add: unix_epoch_def day_def hour_def minute_def second_def)
  moreover assume "\<not> is_zero now"
  ultimately show ?thesis
    by (auto simp: journal_time_def is_zero_def from_unix_nano_def Let_def split: option.splits)
qed

lemma fallback_not_blank:
  "\<not> blank v \<Longrightarrow> \<not> blank (first_non_empty [a, v])"
  "\<not> blank v \<Longrightarrow> \<not> blank (first_non_empty [a, b, v])"
  "\<not> blank v \<Longrightarrow> \<not> blank (first_non_empty [a, b, c, v])"
  by (rule first_non_empty_not_blank [of v]; simp)+

lemma journal_event_valid:
  assumes "valid_digest (digest (journal_identity (journal_host raw) (string_field raw ''_BOOT_ID'') (journal_unit raw)
      (string_field raw ''__CURSOR'')))" "\<not> is_zero now"
  shows "validate_event (journal_event decode digest now cfg raw) = Inr ()"
proof -
  have vis: "\<not> blank ''unknown-host''" "\<not> blank ''unknown-unit''" "\<not> blank ''unknown''"
    "\<not> blank ''journal event''" "\<not> blank ''journald''" "\<not> blank (journal_level p)" for p
    using journal_level_visible by (auto intro!: visible_not_blank simp: visible_def)
  have unit: "\<not> blank (journal_unit raw)" "\<not> blank (journal_host raw)"
    unfolding journal_unit_def journal_host_def using vis(1,2) by (simp_all only: fallback_not_blank not_False_eq_True)
  have msg: "\<not> blank (first_non_empty [string_field raw ''MESSAGE'', ''journal event''])"
    using vis(4) by (rule fallback_not_blank)
  show ?thesis
    using blank_hexadecimal [OF assms(1)] journal_time_not_zero [OF assms(2)] unit msg vis
    by (simp add: validate_event_Inr journal_event_def Let_def event_id_from_journal_metadata_def fallback_not_blank
        del: first_non_empty.simps)
qed

text \<open>C33: A line of the journal is never refused. Whatever entries the JSON object of a line has, as long
  as it decodes, it gives a record with the cursor of the line whose event passes validation,
  holds no secret in its message or fields, and is not a billing event.\<close>

theorem journal_line_gives_event:
  assumes "decode line = Inr raw" "\<And>s. valid_digest (digest s)" "\<not> is_zero now"
  shows "\<exists>r. parse_journal_record decode digest now cfg line = Inr r \<and> jr_cursor r = string_field raw ''__CURSOR''
     \<and> validate_event (jr_event r) = Inr () \<and> secret_free (JStr (ev_msg (jr_event r)))
     \<and> secret_free_map (ev_fields (jr_event r)) \<and> \<not> is_billing (jr_event r)"
proof -
  define e where "e = redact_event (journal_event decode digest now cfg raw)"
  have "validate_event e = Inr ()"
    unfolding e_def by (rule validate_redact_event [OF journal_event_valid [OF assms(2,3)]])
  moreover have "secret_free (JStr (ev_msg e))" "secret_free_map (ev_fields e)"
    using redact_text_clean secret_free_redact(2) by (simp_all add: e_def)
  moreover have "\<not> is_billing e" by (simp add: e_def is_billing_def journal_event_def Let_def)
  ultimately show ?thesis using assms(1) by (simp add: parse_journal_record_def Let_def flip: e_def)
qed

theorem journal_line_gives_event_witness:
  "\<exists>r. parse_journal_record (\<lambda>_. Inr [(''MESSAGE'', JStr ''token=1'')]) (\<lambda>_. toy_sha) toy_time
     \<lparr>jc_service = [], jc_env = [], jc_version = []\<rparr> ''{}'' = Inr r \<and> secret_free (JStr (ev_msg (jr_event r)))"
  using journal_line_gives_event [of "\<lambda>_. Inr [(''MESSAGE'', JStr ''token=1'')]" "''{}''" "[(''MESSAGE'', JStr ''token=1'')]"
      "\<lambda>_. toy_sha" toy_time "\<lparr>jc_service = [], jc_env = [], jc_version = []\<rparr>"] toy_time_facts(1) toy_sha_ok
  by auto

section \<open>A line that is too long\<close>








section \<open>A container with a backlog\<close>

definition unlines :: "bytes list \<Rightarrow> bytes" where
  "unlines ls = concat (map (\<lambda>l. l @ [CHR 0x0A]) ls)"

definition plain_line :: "bytes \<Rightarrow> bool" where
  "plain_line l = (CHR 0x0A \<notin> set l \<and> drop_cr l = l \<and> length l < max_token)"

lemma scan_unlines: "list_all plain_line ls \<Longrightarrow> scan_lines None (unlines ls) = (ls, None)"
proof (induction ls)
  case Nil
  show ?case by (subst scan_lines.simps) (simp add: unlines_def)
next
  case (Cons l ls)
  have nl: "\<forall>c \<in> set l. c \<noteq> CHR 0x0A" using Cons.prems by (auto simp: plain_line_def)
  have "takeWhile (\<lambda>c. c \<noteq> CHR 0x0A) (l @ CHR 0x0A # unlines ls) = l"
    "dropWhile (\<lambda>c. c \<noteq> CHR 0x0A) (l @ CHR 0x0A # unlines ls) = CHR 0x0A # unlines ls"
    using nl by (simp_all add: takeWhile_append2 dropWhile_append2)
  moreover have "unlines (l # ls) = l @ CHR 0x0A # unlines ls" by (simp add: unlines_def)
  ultimately show ?case
    using Cons by (subst scan_lines.simps) (simp add: plain_line_def Let_def)
qed

lemma take_records_all:
  "\<forall>l \<in> set ls. \<forall>k. parse k l = Inr (rec l) \<Longrightarrow> limit \<le> 0 \<or> int (n + length ls) \<le> limit \<Longrightarrow>
     take_records parse limit n ls None = Inr (map rec ls)"
proof (induction ls arbitrary: n)
  case (Cons l ls)
  show ?case
  proof (cases "limit > 0 \<and> int (n + 1) \<ge> limit")
    case True
    with Cons.prems have "ls = []" by (cases ls) auto
    with Cons.prems show ?thesis by (simp add: andThen_def)
  next
    case False
    have "take_records parse limit (n + 1) ls None = Inr (map rec ls)"
      by (rule Cons.IH) (use Cons.prems in auto)
    with Cons.prems(1) False show ?thesis by (auto simp: andThen_def)
  qed
qed simp

text \<open>
  \<open>docker logs --tail n\<close> prints the last \<open>n\<close> lines that the other arguments select; here it is asked
  for the first time, so they are the whole log.
\<close>

definition prints_tail :: "(bytes \<Rightarrow> bytes list \<Rightarrow> process) \<Rightarrow> docker_source \<Rightarrow> bytes list \<Rightarrow> nat \<Rightarrow> bool" where
  "prints_tail exec src lines n =
     (exec ''docker'' (docker_args src [] (int n)) =
        \<lparr>pr_start = Inr (), pr_output = unlines (drop (length lines - n) lines), pr_broken = None, pr_wait = Inr ()\<rparr>)"

text \<open>A backlog in a container is lost. When a container has logged more lines than fit a batch, the
  first run of the forwarder sends the last lines only and moves the cursor to the last line of
  all, so the lines before the batch are never asked for again and never sent: every system
  call and every request succeeds, and the forwarder reports itself healthy.\<close>

theorem container_backlog_is_lost:
  assumes tool: "prints_tail exec src lines n" "trim_space (ds_container src) \<noteq> []" "list_all plain_line lines"
    and parse: "\<And>l k. l \<in> set lines \<Longrightarrow> parse_docker_log_record parse_time format_time digest (now k) (ds_config src) l = Inr (rec l)"
    and recs: "\<And>l. l \<in> set lines \<Longrightarrow> list_all visible (jr_cursor (rec l)) \<and> event_json_ok (jr_event (rec l))"
    and other: "distinct (map (jr_event \<circ> rec) lines)" "0 < n" "n < length lines"
  defines "env \<equiv> (working_env [] (int n))\<lparr>re_read := docker_read exec parse_time format_time digest now src\<rparr>"
  shows "\<exists>f. run_once msg env new_forwarder = (Inr (), f) \<and> file_load (fw_cursor f) = Inr (jr_cursor (rec (last lines)))
     \<and> fs_degraded (fw_status f) = False \<and> received (fw_sink f) = jr_event ` rec ` set (drop (length lines - n) lines)
     \<and> (\<forall>l \<in> set (take (length lines - n) lines). jr_event (rec l) \<notin> received (fw_sink f))"
proof -
  define late where "late = drop (length lines - n) lines"
  have late: "late \<noteq> []" "length late = n" "set late \<subseteq> set lines" "last late = last lines"
    using other(2,3) by (auto simp: late_def dest: in_set_dropD)
  have scan: "scan_lines None (unlines late) = (late, None)"
    using tool(3) late(3) by (intro scan_unlines) (auto simp: list_all_iff)
  have "take_records (\<lambda>n. parse_docker_log_record parse_time format_time digest (now n) (ds_config src)) (int n) 0 late None = Inr (map rec late)"
    by (rule take_records_all) (use parse late in auto)
  then have read: "re_read env [] (int n) = Inr (map rec late)"
    using tool(1,2) other(2) scan
    by (simp add: env_def docker_read_def read_process_def parse_records_def prints_tail_def late_def)
  have "list_all event_json_ok (map jr_event (map rec late))" using recs late(3) by (auto simp: list_all_iff)
  then have sending: "http_send (reach accepting) 0 (map jr_event (map rec late)) [] = (Inr (), [map jr_event (map rec late)])"
    by (simp add: http_send_def reach_def accepting_def)
  obtain l0 ls where head: "late = l0 # ls" using late(1) by (meson list.exhaust)
  then have tail: "(if ls = [] then rec l0 else last (map rec ls)) = rec (last lines)"
    using late(4) by (auto simp: last_map split: if_splits)
  have batch: "batch_size (re_batch env) = int n" using other(2) by (simp add: env_def batch_size_def)
  obtain f where f: "run_once msg env new_forwarder = (Inr (), f)" "fw_sink f = [map jr_event (map rec late)]"
      "fw_cursor f = Content (jr_cursor (rec (last lines)) @ [CHR 0x0A])" "fs_degraded (fw_status f) = False"
    using read sending batch tail
    by (simp add: head run_once_def flush_first_def new_forwarder_def env_def file_load_def file_save_def set_ok_def Let_def)
  have "list_all visible (jr_cursor (rec (last lines)))" using recs late by (metis last_in_set subsetD)
  then have "file_load (fw_cursor f) = Inr (jr_cursor (rec (last lines)))"
    by (simp add: f(3) file_load_def trim_space_newline)
  moreover have rcv: "received (fw_sink f) = jr_event ` rec ` set late" by (simp add: f(2) received_def image_image)
  moreover have "jr_event (rec l) \<notin> received (fw_sink f)" if "l \<in> set (take (length lines - n) lines)" for l
  proof -
    have "distinct (map (jr_event \<circ> rec) (take (length lines - n) lines) @ map (jr_event \<circ> rec) late)"
      unfolding late_def map_append [symmetric] append_take_drop_id by (rule other(1))
    then show ?thesis using that unfolding rcv by auto
  qed
  ultimately show ?thesis using f(1,4) by (auto simp: late_def)
qed

text \<open>Two lines of a container, read one at a time.\<close>

definition toy_container :: docker_source where
  "toy_container = \<lparr>ds_container = ''c'', ds_since = [], ds_config = \<lparr>dc_container = ''c'', dc_service = [], dc_env = [],
     dc_version = [], dc_host = [], dc_unit = [], dc_source = [], dc_component = [], dc_operation = []\<rparr>\<rparr>"

definition toy_tail :: "bytes list \<Rightarrow> bytes \<Rightarrow> bytes list \<Rightarrow> process" where
  "toy_tail lines prog args = \<lparr>pr_start = Inr (), pr_output = unlines (drop (length lines - 1) lines), pr_broken = None, pr_wait = Inr ()\<rparr>"

definition toy_line :: "bytes \<Rightarrow> journal_record" where
  "toy_line l = projr (parse_docker_log_record (\<lambda>_. Some toy_time) (\<lambda>_. []) (\<lambda>_. toy_sha) toy_time (ds_config toy_container) l)"

lemma trim_space_ends: "visible c \<Longrightarrow> visible d \<Longrightarrow> trim_space (c # s @ [d]) = c # s @ [d]"
  using trim_front_visible [OF _ space_runes_front, of c "s @ [d]"]
    trim_front_visible [OF _ space_runes_back, of d "rev s @ [c]"]
  by (simp add: trim_space_def del: trim_front.simps)

text \<open>A line with a timestamp is never refused either.\<close>

lemma docker_line_parses:
  assumes "split_docker_timestamp line = (stamp, rest)" "parse_time stamp = Some t" "\<not> is_zero t" "\<not> blank (dc_container cfg)"
  shows "\<exists>e. parse_docker_log_record parse_time format_time digest now cfg line = Inr \<lparr>jr_cursor = stamp, jr_event = redact_event e\<rparr>
     \<and> ev_time e = utc t
     \<and> ev_fields e = [(''container'', JStr (dc_container cfg)), (''log_line'', JStr (redact_text (trim_space rest)))]"
proof -
  have vis: "\<not> blank ''unknown-host''" "\<not> blank ''unknown''" "\<not> blank ''docker''" "\<not> blank ''docker log event''"
    "\<not> blank (docker_log_level m)" "\<not> blank (''docker-log-'' @ x)" for m x
    by (auto intro!: visible_not_blank simp: visible_def docker_log_level_def Let_def)
  show ?thesis
    using assms vis
    by (simp add: parse_docker_log_record_def Let_def validate_event_Inr [where u = "()", symmetric]
        validate_event_def docker_log_event_id_def fallback_not_blank utc_def is_zero_def del: first_non_empty.simps)
      (intro exI conjI, rule refl, simp_all)
qed

lemma toy_lines:
  assumes "l \<in> {''1 a'', ''2 b''}"
  shows "parse_docker_log_record (\<lambda>_. Some toy_time) (\<lambda>_. []) (\<lambda>_. toy_sha) toy_time (ds_config toy_container) l = Inr (toy_line l)"
    "jr_cursor (toy_line l) = take 1 l" "event_json_ok (jr_event (toy_line l))" "plain_line l"
    "ev_fields (jr_event (toy_line l)) = [(''container'', JStr ''c''), (''log_line'', JStr (drop 2 l))]"
proof -
  have vis: "visible (CHR ''1'')" "visible (CHR ''2'')" "visible (CHR ''a'')" "visible (CHR ''b'')" "visible (CHR ''c'')"
    by (simp_all add: visible_def)
  have split: "split_docker_timestamp l = (take 1 l, drop 2 l)"
    using assms trim_space_ends [OF vis(1,3), of "'' ''"] trim_space_ends [OF vis(2,4), of "'' ''"]
    by (auto simp: split_docker_timestamp_def)
  have names: "\<not> sensitive_field_name ''container''" "\<not> sensitive_field_name ''log_line''"
    by (simp_all add: sensitive_field_name_def replace_char_def to_lower_ascii ascii_lower_def sensitive_names_def
        starts_with_def del: to_lower.simps(2))
  have texts: "redact_text ''a'' = ''a''" "redact_text ''b'' = ''b''" "redact_text ''c'' = ''c''"
    by (simp_all add: redact_text_def to_lower_ascii ascii_lower_def text_markers_def starts_with_def del: to_lower.simps(2))
  have trims: "trim_space ''a'' = ''a''" "trim_space ''b'' = ''b''" using vis by (simp_all add: trim_space_visible)
  have "\<not> blank ''c''" using vis(5) by (intro visible_not_blank) simp
  then obtain e where e: "parse_docker_log_record (\<lambda>_. Some toy_time) (\<lambda>_. []) (\<lambda>_. toy_sha) toy_time (ds_config toy_container) l
        = Inr \<lparr>jr_cursor = take 1 l, jr_event = redact_event e\<rparr>" "ev_time e = utc toy_time"
      "ev_fields e = [(''container'', JStr ''c''), (''log_line'', JStr (redact_text (trim_space (drop 2 l))))]"
    using docker_line_parses [of l "take 1 l" "drop 2 l" "\<lambda>_. Some toy_time" toy_time "ds_config toy_container" "\<lambda>_. []" "\<lambda>_. toy_sha" toy_time]
      split toy_time_facts(1) by (auto simp: toy_container_def)
  then have line: "toy_line l = \<lparr>jr_cursor = take 1 l, jr_event = redact_event e\<rparr>" by (simp add: toy_line_def)
  with e(1) show "parse_docker_log_record (\<lambda>_. Some toy_time) (\<lambda>_. []) (\<lambda>_. toy_sha) toy_time (ds_config toy_container) l = Inr (toy_line l)" by simp
  show "jr_cursor (toy_line l) = take 1 l" by (simp add: line)
  show "ev_fields (jr_event (toy_line l)) = [(''container'', JStr ''c''), (''log_line'', JStr (drop 2 l))]"
    using assms by (auto simp: line e(3) names texts trims)
  then show "event_json_ok (jr_event (toy_line l))" using toy_time_facts by (simp add: event_json_ok_def line e(2))
  show "plain_line l" using assms by (auto simp: plain_line_def drop_cr_def max_token_def)
qed

theorem container_backlog_is_lost_witness:
  "\<exists>f. run_once error_text ((working_env [] 1)\<lparr>re_read := docker_read (toy_tail [''1 a'', ''2 b'']) (\<lambda>_. Some toy_time) (\<lambda>_. []) (\<lambda>_. toy_sha)
       (\<lambda>_. toy_time) toy_container\<rparr>) new_forwarder = (Inr (), f)
     \<and> file_load (fw_cursor f) = Inr ''2'' \<and> jr_event (toy_line ''1 a'') \<notin> received (fw_sink f)"
proof -
  have "trim_space ''c'' \<noteq> []" by (simp add: trim_space_visible visible_def)
  moreover have "jr_event (toy_line ''1 a'') \<noteq> jr_event (toy_line ''2 b'')"
    using toy_lines(5) [of "''1 a''"] toy_lines(5) [of "''2 b''"] by (auto dest: arg_cong [of _ _ ev_fields])
  moreover have "list_all visible (jr_cursor (toy_line l)) \<and> event_json_ok (jr_event (toy_line l))"
    if "l \<in> set [''1 a'', ''2 b'']" for l
    using that toy_lines(2,3) [of l] by (auto simp: visible_def)
  moreover have "prints_tail (toy_tail [''1 a'', ''2 b'']) toy_container [''1 a'', ''2 b''] 1"
    by (simp add: prints_tail_def toy_tail_def)
  moreover have "ds_container toy_container = ''c''" by (simp add: toy_container_def)
  moreover have "list_all plain_line [''1 a'', ''2 b'']" using toy_lines(4) by simp
  ultimately have "\<exists>f. run_once error_text ((working_env [] (int 1))\<lparr>re_read := docker_read (toy_tail [''1 a'', ''2 b'']) (\<lambda>_. Some toy_time)
       (\<lambda>_. []) (\<lambda>_. toy_sha) (\<lambda>_. toy_time) toy_container\<rparr>) new_forwarder = (Inr (), f)
     \<and> file_load (fw_cursor f) = Inr (jr_cursor (toy_line (last [''1 a'', ''2 b''])))
     \<and> (\<forall>l \<in> set (take (length [''1 a'', ''2 b''] - 1) [''1 a'', ''2 b'']). jr_event (toy_line l) \<notin> received (fw_sink f))"
    using container_backlog_is_lost [of "toy_tail [''1 a'', ''2 b'']" toy_container "[''1 a'', ''2 b'']" 1 "\<lambda>_. Some toy_time" "\<lambda>_. []"
        "\<lambda>_. toy_sha" "\<lambda>_. toy_time" toy_line error_text] toy_lines(1) by fastforce
  then show ?thesis using toy_lines(2) [of "''2 b''"] by auto
qed

end
