(* ===== verification/Loki.thy ===== *)
theory Loki
  imports EventStore Forwarder
begin

text \<open>
  \<open>loki_store.go\<close>: the event store on a Loki server. The server and the JSON texts of events are
  arguments; the labels, the key of a stream, the times that grow within a stream, the
  bookkeeping of identifiers on every error path, the selector and the filters are modelled.
\<close>

section \<open>Labels\<close>

text \<open>A label set is a \<open>map[string]string\<close>, kept in the order of its keys.\<close>

type_synonym labels = "(bytes \<times> bytes) list"

definition label_all :: "(bytes \<times> bytes) list \<Rightarrow> labels \<Rightarrow> labels" where
  "label_all kvs ls = fold (\<lambda>(k, v). aput k v) kvs ls"

text \<open>The cases of the switch: a number of any of the types equal to \<open>n\<close>.\<close>

definition retention_is :: "int \<Rightarrow> jval option \<Rightarrow> bool" where
  "retention_is n v =
     (case v of
        Some (JInt i) \<Rightarrow> i = n
      | Some (JInt64 i) \<Rightarrow> i = n
      | Some (JFloat q s) \<Rightarrow> q = of_int n
      | Some (JNumber s) \<Rightarrow> s = dec_int n
      | _ \<Rightarrow> False)"

definition retention_tier :: "log_event \<Rightarrow> bytes" where
  "retention_tier e =
     (let v = aget (ev_fields e) ''retention_days_snapshot''
      in if retention_is 7 v then ''7d'' else if retention_is 30 v then ''30d''
         else if retention_is 90 v then ''90d'' else [])"

definition loki_labels :: "log_event \<Rightarrow> labels" where
  "loki_labels e =
     (let ls = label_all [(''env'', ev_env e), (''service'', ev_service e), (''host'', ev_host e), (''unit'', ev_unit e),
            (''level'', ev_level e)] [];
          ls = (if ev_stream e \<noteq> [] then aput ''stream'' (ev_stream e) ls else ls)
      in if (ev_source e = ''device-runtime'' \<or> ev_source e = ''device-legacy'') \<and> retention_tier e \<noteq> []
         then label_all [(''retention_tier'', retention_tier e), (''retention_policy'', ''product-grant-v1'')] ls
         else ls)"

text \<open>\<open>strings.Join(parts, "\x00")\<close> over the keys and values in the order of the keys.\<close>

fun join :: "bytes \<Rightarrow> bytes list \<Rightarrow> bytes" where
  "join sep [] = []"
| "join sep [p] = p"
| "join sep (p # q # ps) = p @ sep @ join sep (q # ps)"

definition loki_label_key :: "labels \<Rightarrow> bytes" where
  "loki_label_key ls = join [CHR 0x00] (concat (map (\<lambda>(k, v). [k, v]) ls))"

section \<open>The store\<close>

record loki_store =
  lk_seen :: "bytes list"
  lk_last :: "(bytes \<times> gtime) list"

definition empty_loki :: loki_store where
  "empty_loki = \<lparr>lk_seen = [], lk_last = []\<rparr>"

text \<open>\<open>strings.TrimRight(s, "/")\<close>, and the check of the base address.\<close>

definition loki_base :: "bytes \<Rightarrow> go_error + bytes" where
  "loki_base url =
     (let base = rev (dropWhile (\<lambda>c. c = CHR ''/'') (rev (trim_space url)))
      in if base = [] then Inl (ErrMsg ''loki base url is required'') else Inr base)"

definition loki_health :: "go_error + unit \<Rightarrow> http_outcome \<Rightarrow> go_error + unit" where
  "loki_health request answer =
     andThen request (\<lambda>_.
       case answer of
         NoResponse x \<Rightarrow> Inl x
       | Status s \<Rightarrow> if s < 200 \<or> s \<ge> 300 then Inl (ErrMsg (''loki health status '' @ dec_nat s)) else Inr ())"

text \<open>The time of the pushed entry: after the last one of its stream.\<close>

definition push_time :: "loki_store \<Rightarrow> bytes \<Rightarrow> gtime \<Rightarrow> gtime" where
  "push_time s key t =
     (case aget (lk_last s) key of
        None \<Rightarrow> utc t
      | Some previous \<Rightarrow>
          if \<not> is_zero previous \<and> \<not> after (utc t) previous then add_ns previous 1 else utc t)"

text \<open>One entry of the push request: labels, time and line.\<close>

record loki_entry =
  le_labels :: labels
  le_time :: int
  le_line :: bytes

text \<open>
  \<open>request\<close> is the outcome of building the request, \<open>post\<close> sends an entry to the server with state
  \<open>'r\<close>, \<open>encode\<close> is \<open>json.Marshal\<close> of an event that can be marshalled.
\<close>

definition loki_insert ::
    "(log_event \<Rightarrow> bytes) \<Rightarrow> go_error + unit \<Rightarrow> (loki_entry \<Rightarrow> 'r \<Rightarrow> http_outcome \<times> 'r) \<Rightarrow> log_event \<Rightarrow> loki_store \<times> 'r \<Rightarrow>
     (go_error + unit) \<times> loki_store \<times> 'r" where
  "loki_insert encode request post e sr =
     (let s = fst sr; r = snd sr; e = redact_event e
      in case validate_event e of
           Inl x \<Rightarrow> (Inl x, s, r)
         | Inr _ \<Rightarrow>
             let ls = loki_labels e; key = loki_label_key ls
             in if ev_id e \<in> set (lk_seen s) then (Inl ErrDuplicateEvent, s, r)
                else
                  let t = push_time s key (ev_time e);
                      s1 = s\<lparr>lk_seen := ev_id e # lk_seen s, lk_last := aput key t (lk_last s)\<rparr>;
                      s2 = s1\<lparr>lk_seen := filter (\<lambda>i. i \<noteq> ev_id e) (lk_seen s1)\<rparr>
                  in if \<not> event_json_ok e then (Inl (ErrMsg ''json: unsupported value''), s1, r)
                     else case request of
                            Inl x \<Rightarrow> (Inl x, s1, r)
                          | Inr _ \<Rightarrow>
                              (case post \<lparr>le_labels = ls, le_time = unix_nano t, le_line = encode e\<rparr> r of
                                 (NoResponse x, r) \<Rightarrow> (Inl x, s2, r)
                               | (Status c, r) \<Rightarrow>
                                   if c < 200 \<or> c \<ge> 300 then (Inl (ErrMsg (''loki push status '' @ dec_nat c)), s2, r)
                                   else (Inr (), s1, r)))"

section \<open>Queries\<close>

text \<open>
  \<open>strconv.Quote\<close> for the runes of ASCII; the other runes are printable here and kept.
\<close>

definition hex_digit :: "nat \<Rightarrow> char" where
  "hex_digit n = char_of (if n < 10 then 48 + n else 87 + n)"

definition quote_char :: "char \<Rightarrow> bytes" where
  "quote_char c =
     (let n = of_char c :: nat
      in if n = 34 \<or> n = 92 then [CHR 0x5C, c]
         else if n = 7 then [CHR 0x5C, CHR ''a''] else if n = 8 then [CHR 0x5C, CHR ''b'']
         else if n = 12 then [CHR 0x5C, CHR ''f''] else if n = 10 then [CHR 0x5C, CHR ''n'']
         else if n = 13 then [CHR 0x5C, CHR ''r''] else if n = 9 then [CHR 0x5C, CHR ''t'']
         else if n = 11 then [CHR 0x5C, CHR ''v'']
         else if n < 32 \<or> n = 127 then [CHR 0x5C, CHR ''x'', hex_digit (n div 16), hex_digit (n mod 16)]
         else [c])"

definition quote :: "bytes \<Rightarrow> bytes" where
  "quote s = [CHR 0x22] @ concat (map quote_char s) @ [CHR 0x22]"

definition selector_labels :: "event_query \<Rightarrow> labels" where
  "selector_labels q =
     label_all (filter (\<lambda>(k, v). v \<noteq> []) [(''env'', eq_env q), (''service'', eq_service q), (''host'', eq_host q),
       (''unit'', eq_unit q), (''level'', eq_level q), (''stream'', eq_stream q)]) []"

definition loki_selector :: "event_query \<Rightarrow> bytes" where
  "loki_selector q =
     (let ls = selector_labels q
      in if ls = [] then ''{service=~'' @ quote ''.+'' @ ''}''
         else ''{'' @ join '','' (map (\<lambda>(k, v). k @ ''='' @ quote v) ls) @ ''}'')"

definition candidate_limit :: nat where "candidate_limit = 5000"

text \<open>The parameters of the request, and the decoded answer: the streams with their values, each a list
  of texts. \<open>LokiStatus\<close> is a status outside 200 to 299.\<close>

record loki_request =
  lr_selector :: bytes
  lr_limit :: nat
  lr_start :: "int option"
  lr_end :: "int option"

datatype loki_answer = LokiError go_error | LokiStatus nat | LokiStreams "bytes list list list"

definition loki_request :: "event_query \<Rightarrow> loki_request" where
  "loki_request q =
     \<lparr>lr_selector = loki_selector q, lr_limit = candidate_limit,
      lr_start = (if is_zero (eq_since q) then None else Some (unix_nano (eq_since q))),
      lr_end = (if is_zero (eq_until q) then None else Some (unix_nano (eq_until q)))\<rparr>"

text \<open>The loop over the values: a line that does not decode is skipped, an identifier is taken once.\<close>

fun loki_collect :: "(bytes \<Rightarrow> log_event option) \<Rightarrow> event_query \<Rightarrow> bytes list list \<Rightarrow> bytes list \<Rightarrow> log_event list" where
  "loki_collect decode q [] seen = []"
| "loki_collect decode q (v # vs) seen =
     (if length v < 2 then loki_collect decode q vs seen
      else case decode (v ! 1) of
             None \<Rightarrow> loki_collect decode q vs seen
           | Some e \<Rightarrow>
               let e = redact_event e
               in if \<not> matches q e \<or> ev_id e \<in> set seen then loki_collect decode q vs seen
                  else e # loki_collect decode q vs (ev_id e # seen))"

definition loki_query ::
    "(bytes \<Rightarrow> log_event option) \<Rightarrow> go_error + unit \<Rightarrow> (loki_request \<Rightarrow> 'r \<Rightarrow> loki_answer) \<Rightarrow> event_query \<Rightarrow> 'r \<Rightarrow>
     go_error + log_event list" where
  "loki_query decode request get q r =
     andThen request (\<lambda>_.
       case get (loki_request q) r of
         LokiError x \<Rightarrow> Inl x
       | LokiStatus c \<Rightarrow> Inl (ErrMsg (''loki query status '' @ dec_nat c))
       | LokiStreams streams \<Rightarrow>
           Inr (apply_order_and_limit (loki_collect decode q (concat streams) []) q))"

definition forget :: "bytes \<Rightarrow> loki_store \<Rightarrow> loki_store" where
  "forget event_id s = s\<lparr>lk_seen := filter (\<lambda>i. i \<noteq> event_id) (lk_seen s)\<rparr>"

end
