(* ===== verification/StoreProperties.thy ===== *)
theory StoreProperties
  imports Loki IngestProperties
begin

text \<open>
  The properties of the two event stores: what they share (an identifier is accepted once), the
  answers of the store in memory, the times of the entries sent to Loki, and how far the two agree
  on a server that answers as Loki documents it.
\<close>

section \<open>Inserting into Loki\<close>

lemma loki_insert_cases:
  assumes "loki_insert encode request post e (s, r) = (res, s', r')"
  obtains (invalid) x where "res = Inl x" "validate_event (redact_event e) = Inl x" "s' = s" "r' = r"
  | (known) "res = Inl ErrDuplicateEvent" "validate_event (redact_event e) = Inr ()" "ev_id e \<in> set (lk_seen s)" "s' = s" "r' = r"
  | (unsent) x t where "res = Inl x" "ev_id e \<notin> set (lk_seen s)" "r' = r"
      "t = push_time s (loki_label_key (loki_labels (redact_event e))) (ev_time e)"
      "s' = \<lparr>lk_seen = ev_id e # lk_seen s, lk_last = aput (loki_label_key (loki_labels (redact_event e))) t (lk_last s)\<rparr>"
  | (sent) t answer where "ev_id e \<notin> set (lk_seen s)" "validate_event (redact_event e) = Inr ()"
      "t = push_time s (loki_label_key (loki_labels (redact_event e))) (ev_time e)"
      "post \<lparr>le_labels = loki_labels (redact_event e), le_time = unix_nano t, le_line = encode (redact_event e)\<rparr> r = (answer, r')"
      "lk_last s' = aput (loki_label_key (loki_labels (redact_event e))) t (lk_last s)"
      "if res = Inr () then set (lk_seen s') = insert (ev_id e) (set (lk_seen s)) else set (lk_seen s') = set (lk_seen s)"
proof (cases "validate_event (redact_event e)")
  case (Inl x)
  with assms show thesis by (intro invalid [OF _ Inl]) (auto simp: loki_insert_def Let_def)
next
  case (Inr u)
  show thesis
  proof (cases "ev_id e \<in> set (lk_seen s)")
    case True
    with assms Inr show thesis by (intro known) (auto simp: loki_insert_def Let_def)
  next
    case False
    define t where "t = push_time s (loki_label_key (loki_labels (redact_event e))) (ev_time e)"
    show thesis
    proof (cases "event_json_ok (redact_event e) \<and> request = Inr ()")
      case False
      then obtain x where "res = Inl x" "r' = r"
          "s' = s\<lparr>lk_seen := ev_id e # lk_seen s, lk_last := aput (loki_label_key (loki_labels (redact_event e))) t (lk_last s)\<rparr>"
        using assms Inr \<open>ev_id e \<notin> _\<close> by (auto simp: loki_insert_def Let_def t_def split: if_splits sum.splits)
      with \<open>ev_id e \<notin> _\<close> show thesis by (intro unsent [OF _ _ _ t_def]) auto
    next
      case True
      obtain answer k where post: "post \<lparr>le_labels = loki_labels (redact_event e), le_time = unix_nano t,
          le_line = encode (redact_event e)\<rparr> r = (answer, k)" by fastforce
      with assms Inr True False have "k = r'" "lk_last s' = aput (loki_label_key (loki_labels (redact_event e))) t (lk_last s)"
          "if res = Inr () then set (lk_seen s') = insert (ev_id e) (set (lk_seen s)) else set (lk_seen s') = set (lk_seen s)"
        by (auto simp: loki_insert_def Let_def t_def split: if_splits http_outcome.splits)
      with post Inr False show thesis by (intro sent [OF _ _ t_def]) auto
    qed
  qed
qed

interpretation loki: event_store "\<lambda>x. loki_insert encode (fst x) (snd x)" "\<lambda>s. set (lk_seen (fst s))" for encode
proof (unfold_locales, goal_cases)
  case (1 x e s u s')
  then show ?case
    by (cases s; cases s') (auto elim!: loki_insert_cases split: if_splits)
next
  case (2 x e s er s')
  then show ?case
    by (cases s; cases s') (auto elim!: loki_insert_cases split: if_splits)
next
  case (3 x e s r s')
  then show ?case
    by (cases s; cases s') (auto elim!: loki_insert_cases)
qed

section \<open>The times of a stream\<close>

text \<open>A server as a record of the entries it was sent, whatever it answers.\<close>

definition recording :: "(loki_entry \<Rightarrow> http_outcome) \<Rightarrow> loki_entry \<Rightarrow> loki_entry list \<Rightarrow> http_outcome \<times> loki_entry list" where
  "recording answer en r = (answer en, r @ [en])"

definition streams_grow :: "loki_store \<times> loki_entry list \<Rightarrow> bool" where
  "streams_grow = (\<lambda>(s, r).
     sorted_wrt (\<lambda>a b. le_labels a = le_labels b \<longrightarrow> le_time a < le_time b) r
     \<and> (\<forall>en \<in> set r. \<exists>t. aget (lk_last s) (loki_label_key (le_labels en)) = Some t \<and> le_time en \<le> unix_nano t)
     \<and> (\<forall>t \<in> set (map snd (lk_last s)). 0 < instant t) \<and> ordered (lk_last s))"

lemma push_time_after:
  "aget (lk_last s) key = Some p \<Longrightarrow> 0 < instant p \<Longrightarrow> unix_nano p < unix_nano (push_time s key t)"
  by (auto simp: push_time_def is_zero_def after_def utc_def add_ns_def unix_nano_def)

lemma push_time_positive:
  "0 < instant t \<Longrightarrow> (\<And>p. aget (lk_last s) key = Some p \<Longrightarrow> 0 < instant p) \<Longrightarrow> 0 < instant (push_time s key t)"
  by (auto simp: push_time_def utc_def add_ns_def split: option.splits)

lemma streams_grow_insert:
  assumes "loki_insert encode request (recording answer) e s = (res, s')" "streams_grow s" "0 < instant (ev_time e)"
  shows "streams_grow s'"
proof -
  obtain a r where s: "s = (a, r)" by fastforce
  obtain a' r' where s': "s' = (a', r')" by fastforce
  define key where "key = loki_label_key (loki_labels (redact_event e))"
  define t where "t = push_time a key (ev_time e)"
  have vals: "0 < instant p" if "aget (lk_last a) k = Some p" for k p
    using assms(2) that s by (force simp: streams_grow_def dest: map_of_SomeD)
  have t: "0 < instant t" unfolding t_def by (rule push_time_positive) (use assms(3) vals in auto)
  have later: "unix_nano p < unix_nano t" if "aget (lk_last a) key = Some p" for p
    unfolding t_def by (rule push_time_after [OF that vals [OF that]])
  have keep: "streams_grow (a2, r)" if a2: "lk_last a2 = aput key t (lk_last a)" for a2
  proof -
    have "\<exists>t. aget (lk_last a2) (loki_label_key (le_labels en)) = Some t \<and> le_time en \<le> unix_nano t" if en: "en \<in> set r" for en
    proof (cases "loki_label_key (le_labels en) = key")
      case True
      with en assms(2) s later show ?thesis by (fastforce simp: streams_grow_def a2)
    next
      case False
      with en assms(2) s show ?thesis by (auto simp: streams_grow_def a2)
    qed
    then show ?thesis using assms(2) s t a2 by (auto simp: streams_grow_def dest: in_set_aput)
  qed
  have "streams_grow (a', r')"
    using assms(1) [unfolded s s']
  proof (cases rule: loki_insert_cases)
    case (unsent x t')
    with keep show ?thesis by (simp add: key_def t_def)
  next
    case (sent t' ans)
    have "streams_grow (a', r)" using keep sent(3,5) by (simp add: key_def t_def)
    moreover have "r' = r @ [\<lparr>le_labels = loki_labels (redact_event e), le_time = unix_nano t, le_line = encode (redact_event e)\<rparr>]"
      using sent(3,4) by (simp add: recording_def key_def t_def)
    moreover have "le_time en < unix_nano t" if "en \<in> set r" "le_labels en = loki_labels (redact_event e)" for en
      using that assms(2) s later by (fastforce simp: streams_grow_def key_def)
    ultimately show ?thesis
      using sent(3,5) by (auto simp: streams_grow_def sorted_wrt_append key_def t_def)
  qed (use assms(2) s in auto)
  then show ?thesis by (simp add: s')
qed

lemma streams_grow_all:
  "insert_all (\<lambda>x. loki_insert encode (fst x) (recording (snd x))) xs s = (rs, s') \<Longrightarrow> streams_grow s \<Longrightarrow>
     \<forall>(x, e) \<in> set xs. 0 < instant (ev_time e) \<Longrightarrow> streams_grow s'"
proof (induction xs arbitrary: s rs)
  case (Cons xe xs)
  obtain x e where xe: "xe = (x, e)" by fastforce
  obtain r s1 rs1 where one: "loki_insert encode (fst x) (recording (snd x)) e s = (r, s1)"
      "insert_all (\<lambda>x. loki_insert encode (fst x) (recording (snd x))) xs s1 = (rs1, s')"
    using Cons.prems(1) xe by (auto split: prod.splits)
  have "streams_grow s1" using streams_grow_insert [OF one(1)] Cons.prems(2,3) xe by simp
  with Cons.IH [OF one(2)] Cons.prems(3) show ?case by simp
qed simp

lemma toy_event_plain:
  assumes "i \<in> {''a'', ''b''}"
  shows "redact_event (toy_event i) = toy_event i" "validate_event (toy_event i) = Inr ()"
    "event_json_ok (toy_event i)" "0 < instant (ev_time (toy_event i))"
proof -
  show "redact_event (toy_event i) = toy_event i"
    using usage_event_name toy_msg by (simp add: redact_event_def toy_event_def Let_def)
  show "validate_event (toy_event i) = Inr ()"
    using toy_event_bindable(1) [OF assms] by (simp add: bindable_def Let_def)
  show "event_json_ok (toy_event i)" "0 < instant (ev_time (toy_event i))"
    using toy_time_facts by (simp_all add: event_json_ok_def toy_event_def toy_time_def day_def hour_def minute_def second_def)
qed

text \<open>Loki is sent every stream in order. Whatever events are inserted, whatever their times (from
  the year 1 on), and whatever the server answers, two entries with the same labels are sent
  with strictly increasing times, so the server has no reason to refuse one as out of order.\<close>

theorem loki_streams_in_order:
  assumes "insert_all (\<lambda>x. loki_insert encode (fst x) (recording (snd x))) xs (empty_loki, []) = (rs, s, sent)"
    and "\<forall>(x, e) \<in> set xs. 0 < instant (ev_time e)"
  shows "sorted_wrt (\<lambda>a b. le_labels a = le_labels b \<longrightarrow> le_time a < le_time b) sent"
  using streams_grow_all [OF assms(1) _ assms(2)] by (simp add: streams_grow_def empty_loki_def)

theorem loki_streams_in_order_witness:
  "\<exists>rs s a b. insert_all (\<lambda>x. loki_insert (\<lambda>_. []) (fst x) (recording (snd x)))
     [((Inr (), \<lambda>_. Status 204), toy_event ''a''), ((Inr (), \<lambda>_. Status 204), toy_event ''b'')] (empty_loki, []) = (rs, s, [a, b])
   \<and> le_labels a = le_labels b \<and> le_time a < le_time b"
proof -
  let ?xs = "[((Inr () :: go_error + unit, \<lambda>_. Status 204), toy_event ''a''), ((Inr (), \<lambda>_. Status 204), toy_event ''b'')]"
  have labels: "loki_labels (toy_event ''b'') = loki_labels (toy_event ''a'')" by (simp add: loki_labels_def toy_event_def)
  have ids: "ev_id (toy_event ''a'') = ''a''" "ev_id (toy_event ''b'') = ''b''" by (simp_all add: toy_event_def)
  obtain rs s a b where run: "insert_all (\<lambda>x. loki_insert (\<lambda>_. []) (fst x) (recording (snd x))) ?xs (empty_loki, []) = (rs, s, [a, b])"
      and same: "le_labels a = le_labels b"
    using toy_event_plain [of "''a''"] toy_event_plain [of "''b''"] ids labels
    by (auto simp: loki_insert_def recording_def empty_loki_def Let_def)
  have "sorted_wrt (\<lambda>a b. le_labels a = le_labels b \<longrightarrow> le_time a < le_time b) [a, b]"
    by (rule loki_streams_in_order [OF run]) (use toy_event_plain(4) in auto)
  with run same show ?thesis by auto
qed

section \<open>Once per identifier\<close>

text \<open>An identifier is stored once. Whatever events are inserted into the store in memory or into the
  store on Loki, in whatever order and whatever the server answers, the identifiers that are
  reported as stored are distinct, were unknown before and are known after; and the store in
  memory then holds exactly the identifiers it held before and those.\<close>

theorem identifiers_are_stored_once:
  assumes "insert_all (\<lambda>_. memory_insert) xs m = (rs, m')"
    and "insert_all (\<lambda>x. loki_insert encode (fst x) (snd x)) ys s = (qs, s')"
  shows "distinct (accepted_ids xs rs) \<and> set (accepted_ids xs rs) \<inter> set (akeys m) = {}
      \<and> set (akeys m') = set (akeys m) \<union> set (accepted_ids xs rs)
     \<and> distinct (accepted_ids ys qs) \<and> set (accepted_ids ys qs) \<inter> set (lk_seen (fst s)) = {}
      \<and> set (accepted_ids ys qs) \<subseteq> set (lk_seen (fst s'))"
  using memory.accepted_once [OF assms(1)] memory.known_exactly [OF assms(1)] loki.accepted_once [OF assms(2)] by auto

theorem identifiers_are_stored_once_witness:
  "\<exists>rs m. insert_all (\<lambda>_. memory_insert) [((), toy_event ''a''), ((), toy_event ''a'')] [] = (rs, m)
     \<and> accepted_ids [((), toy_event ''a''), ((), toy_event ''a'')] rs = [''a''] \<and> akeys m = [''a'']"
proof -
  have i: "ev_id (toy_event ''a'') = ''a''" by (simp add: toy_event_def)
  note plain = toy_event_plain [of "''a''", simplified]
  have "memory_insert (toy_event ''a'') [] = (Inr (), [(''a'', toy_event ''a'')])"
    "memory_insert (toy_event ''a'') [(''a'', toy_event ''a'')] = (Inl ErrDuplicateEvent, [(''a'', toy_event ''a'')])"
    by (simp_all add: memory_insert_def plain i Let_def)
  then have run: "insert_all (\<lambda>_. memory_insert) [((), toy_event ''a''), ((), toy_event ''a'')] [] =
      ([Inr (), Inl ErrDuplicateEvent], [(''a'', toy_event ''a'')])" by simp
  moreover have "accepted_ids [((), toy_event ''a''), ((), toy_event ''a'')] [Inr (), Inl ErrDuplicateEvent] = [''a'']"
    by (simp add: accepted_ids_def i)
  moreover have "set (akeys [(''a'', toy_event ''a'')]) = {''a''}"
    using identifiers_are_stored_once [OF run, of "\<lambda>_. []" "[]" "(empty_loki, ())" "[]" "(empty_loki, ())"]
    by (simp add: accepted_ids_def i)
  ultimately show ?thesis by simp
qed

text \<open>C27: A failure before the request marks the event as stored. When the push request cannot be built, as
  with a malformed base address, the insertion fails and nothing is sent, but the identifier is
  kept as seen: inserting the event again reports a duplicate, which callers take for stored.\<close>

theorem unsent_event_reported_as_duplicate:
  assumes "validate_event (redact_event e) = Inr ()" "ev_id e \<notin> set (lk_seen s)" "event_json_ok (redact_event e)"
  shows "\<exists>s'. loki_insert encode (Inl x) post e (s, r) = (Inl x, s', r)
     \<and> loki_insert encode request post e (s', r) = (Inl ErrDuplicateEvent, s', r)
     \<and> result_of e (Inl ErrDuplicateEvent) = \<lparr>ir_id = ev_id e, ir_status = ''duplicate'', ir_error = []\<rparr>"
  using assms by (simp add: loki_insert_def Let_def result_of_def)

theorem unsent_event_reported_as_duplicate_witness:
  "\<exists>s'. loki_insert (\<lambda>_. []) (Inl (ErrMsg ''parse error'')) (recording (\<lambda>_. Status 204)) (toy_event ''a'') (empty_loki, []) =
       (Inl (ErrMsg ''parse error''), s', [])
     \<and> loki_insert (\<lambda>_. []) (Inr ()) (recording (\<lambda>_. Status 204)) (toy_event ''a'') (s', []) = (Inl ErrDuplicateEvent, s', [])"
  using unsent_event_reported_as_duplicate [of "toy_event ''a''" empty_loki "\<lambda>_. []" "ErrMsg ''parse error''"
      "recording (\<lambda>_. Status 204)" "[]" "Inr ()"] toy_event_plain [of "''a''"]
  by (auto simp: empty_loki_def)

section \<open>The answers of the store in memory\<close>

lemma memory_all_ok:
  "insert_all (\<lambda>_. memory_insert) xs m = (rs, m') \<Longrightarrow> memory_ok m \<Longrightarrow> memory_ok m'"
proof (induction xs arbitrary: m rs)
  case (Cons xe xs)
  obtain x e where xe: "xe = (x, e)" by fastforce
  obtain r m1 rs1 where one: "memory_insert e m = (r, m1)" "insert_all (\<lambda>_. memory_insert) xs m1 = (rs1, m')"
    using Cons.prems(1) xe by (auto split: prod.splits)
  with Cons memory_insert_ok show ?case by blast
qed simp

text \<open>The order that a query asks for; events at one instant are ordered by their identifiers.\<close>

definition query_order :: "event_query \<Rightarrow> log_event \<Rightarrow> log_event \<Rightarrow> bool" where
  "query_order q = event_less (if eq_order q = [] then ''desc'' else eq_order q)"

lemma query_order_times:
  "query_order q a b \<Longrightarrow> if eq_order q = ''asc'' then instant (ev_time a) \<le> instant (ev_time b)
     else instant (ev_time b) \<le> instant (ev_time a)"
  by (auto simp: query_order_def event_less_def same_instant_def before_def after_def split: if_splits)

text \<open>C26: A query of the store in memory is answered in full and in order. After any insertions into an
  empty store the answer is a strictly sorted list of stored events that match the query, with the
  times never decreasing when the query asks for \<open>asc\<close> and never increasing otherwise; all of
  them are there, or the answer has the length of the limit and every matching event left out
  comes after all those returned.\<close>

theorem memory_query_complete:
  assumes "insert_all (\<lambda>_. memory_insert) xs [] = (rs, m)"
  shows "sorted_wrt (query_order q) (memory_query q m)
     \<and> sorted_wrt (\<lambda>a b. if eq_order q = ''asc'' then instant (ev_time a) \<le> instant (ev_time b)
                        else instant (ev_time b) \<le> instant (ev_time a)) (memory_query q m)
     \<and> set (memory_query q m) \<subseteq> {e \<in> snd ` set m. matches q e}
     \<and> (set (memory_query q m) = {e \<in> snd ` set m. matches q e}
        \<or> 0 < eq_limit q \<and> int (length (memory_query q m)) = eq_limit q
          \<and> (\<forall>e \<in> snd ` set m. matches q e \<longrightarrow> e \<in> set (memory_query q m) \<or> (\<forall>a \<in> set (memory_query q m). query_order q a e)))"
proof -
  have ok: "memory_ok m" by (rule memory_all_ok [OF assms]) (simp add: memory_ok_def)
  define es where "es = filter (matches q) (map snd m)"
  define zs where "zs = sort_slice (query_order q) es"
  have ans: "memory_query q m = (if eq_limit q > 0 \<and> int (length zs) > eq_limit q then take (nat (eq_limit q)) zs else zs)"
    by (simp add: memory_query_def apply_order_and_limit_def zs_def es_def query_order_def Let_def)
  have strict: "strict_on (query_order q) (set es)"
    unfolding query_order_def es_def by (rule event_less_strict [OF memory_filtered(1) [OF ok]])
  have srt: "sorted_wrt (query_order q) zs"
    unfolding zs_def by (rule sorted_sort_slice [OF strict]) (simp add: es_def memory_filtered(2) [OF ok])
  have sets: "set zs = {e \<in> snd ` set m. matches q e}" by (auto simp: zs_def es_def)
  have times: "sorted_wrt (\<lambda>a b. if eq_order q = ''asc'' then instant (ev_time a) \<le> instant (ev_time b)
      else instant (ev_time b) \<le> instant (ev_time a)) ys" if "sorted_wrt (query_order q) ys" for ys
    by (rule sorted_wrt_mono_rel [OF _ that]) (rule query_order_times)
  show ?thesis
  proof (cases "eq_limit q > 0 \<and> int (length zs) > eq_limit q")
    case False
    with ans srt sets times [OF srt] show ?thesis by auto
  next
    case True
    define n where "n = nat (eq_limit q)"
    have q: "memory_query q m = take n zs" using ans True by (simp add: n_def)
    have srt_n: "sorted_wrt (query_order q) (take n zs)" using srt by (rule sorted_wrt_take)
    have sub: "set (take n zs) \<subseteq> {e \<in> snd ` set m. matches q e}" unfolding sets [symmetric] by (rule set_take_subset)
    have len: "int (length (take n zs)) = eq_limit q" using True by (auto simp: n_def)
    have rest: "e \<in> set (take n zs) \<or> (\<forall>a \<in> set (take n zs). query_order q a e)" if "e \<in> set zs" for e
    proof (cases "e \<in> set (take n zs)")
      case False
      with that have "e \<in> set (drop n zs)" by (metis Un_iff append_take_drop_id set_append)
      then show ?thesis using srt sorted_wrt_append [of "query_order q" "take n zs" "drop n zs"] by simp
    qed simp
    have "0 < eq_limit q" using True by simp
    then show ?thesis unfolding q using srt_n times [OF srt_n] sub len rest sets by (intro conjI disjI2) blast+
  qed
qed

definition any_query :: "int \<Rightarrow> event_query" where
  "any_query n = \<lparr>eq_since = zero_time, eq_until = zero_time, eq_limit = n, eq_order = [], eq_id = [], eq_env = [],
     eq_service = [], eq_host = [], eq_unit = [], eq_level = [], eq_source = [], eq_stream = [], eq_trace = [],
     eq_request = [], eq_operation = [], eq_device = [], eq_org = [], eq_user = [], eq_component = [], eq_actor = [],
     eq_actor_type = [], eq_outcome = [], eq_status_code = [], eq_status_class = []\<rparr>"

lemma any_query_matches [simp]: "matches (any_query n) e" "eq_limit (any_query n) = n"
  by (simp_all add: any_query_def matches_def match_def is_zero_def zero_time_def)

theorem memory_query_complete_witness:
  "\<exists>rs m. insert_all (\<lambda>_. memory_insert) [((), toy_event ''a'')] [] = (rs, m)
     \<and> set (memory_query (any_query 0) m) = {toy_event ''a''}"
proof -
  note plain = toy_event_plain [of "''a''", simplified]
  have "ev_id (toy_event ''a'') = ''a''" by (simp add: toy_event_def)
  then have run: "insert_all (\<lambda>_. memory_insert) [((), toy_event ''a'')] [] = ([Inr ()], [(''a'', toy_event ''a'')])"
    by (simp add: memory_insert_def plain Let_def)
  have "set (memory_query (any_query 0) [(''a'', toy_event ''a'')]) = {toy_event ''a''}"
    using memory_query_complete [OF run, of "any_query 0"]
    by simp
  with run show ?thesis by simp
qed

section \<open>Loki and the store in memory agree\<close>

lemma aget_label_all: "k \<notin> fst ` set kvs \<Longrightarrow> aget (label_all kvs ls) k = aget ls k"
  by (induction kvs arbitrary: ls) (auto simp: label_all_def)






















lemma memory_events:
  "insert_all (\<lambda>_. memory_insert) xs m = (rs, m') \<Longrightarrow> snd ` set m' \<subseteq> snd ` set m \<union> redact_event ` snd ` set xs"
proof (induction xs arbitrary: m rs)
  case (Cons xe xs)
  obtain x e where xe: "xe = (x, e)" by fastforce
  obtain r m1 rs1 where one: "memory_insert e m = (r, m1)" "insert_all (\<lambda>_. memory_insert) xs m1 = (rs1, m')"
    using Cons.prems(1) xe by (auto split: prod.splits)
  have "snd ` set m1 \<subseteq> insert (redact_event e) (snd ` set m)"
    using one(1) by (cases rule: memory_insert_cases) (auto dest!: in_set_aput)
  with Cons.IH [OF one(2)] xe show ?case by auto
qed simp






end
