(* ===== verification/Pipeline.thy ===== *)
theory Pipeline
  imports StoreProperties ForwarderProperties
begin

text \<open>
  The forwarder and the public handler put together: the far side of \<open>HTTPSink\<close> is the route
  \<open>/v1/logs/ingest\<close>. The sink looks at the status of the answer only, the handler reports the
  fate of each event in its body.
\<close>

section \<open>The handler as the far side of the sink\<close>

text \<open>The status line of each reply; a handler that panics closes the connection.\<close>

fun reply_status :: "http_reply \<Rightarrow> http_outcome" where
  "reply_status (Failed code m) = Status code"
| "reply_status ArchiveUnavailable = Status 503"
| "reply_status NoContent = Status 204"
| "reply_status Metrics = Status 200"
| "reply_status (Results rs) = Status 202"
| "reply_status (Events es) = Status 200"
| "reply_status (PageOf p) = Status 200"
| "reply_status Aborted = NoResponse (ErrMsg ''EOF'')"

text \<open>The request of \<open>HTTPSink.Send\<close>; \<open>wire es\<close> is what decoding its body gives under a limit.\<close>

definition sink_request :: "(log_event list \<Rightarrow> int \<Rightarrow> ingest_body) \<Rightarrow> bytes \<Rightarrow> log_event list \<Rightarrow> http_request" where
  "sink_request wire token es =
     \<lparr>hq_path = ''/v1/logs/ingest'', hq_method = ''POST'',
      hq_auth = (if token \<noteq> [] then ''Bearer '' @ token else []), hq_query = [], hq_body = wire es\<rparr>"

definition deliver ::
    "crypto \<Rightarrow> (bytes \<Rightarrow> gtime option) \<Rightarrow> (bytes \<Rightarrow> cursor_text) \<Rightarrow> ingest_config \<Rightarrow> 's store_ops \<Rightarrow> (nat \<Rightarrow> call) \<Rightarrow>
     (log_event list \<Rightarrow> int \<Rightarrow> ingest_body) \<Rightarrow> bytes \<Rightarrow> nat \<Rightarrow> log_event list \<Rightarrow> 's server \<Rightarrow> http_outcome \<times> 's server" where
  "deliver cr parse_time cursor_of cfg st calls wire token n es sv =
     (case ingest_handler cr parse_time cursor_of cfg st calls (sink_request wire token es) sv of
        (reply, sv) \<Rightarrow> (reply_status reply, sv))"

lemma ingest_loop_rejects:
  assumes "\<And>n e s. so_insert st n e s = (Inl x, s)" "x \<noteq> ErrPanic" "list_all (\<lambda>e. \<not> is_billing e) es"
    "ic_billing_token cfg = [] \<or> token \<noteq> ic_billing_token cfg"
  shows "ingest_loop cr cfg st calls token n es sv = (Some (map (\<lambda>e. result_of e (Inl x)) es), sv)"
  using assms(3) by (induction es arbitrary: n) (use assms in \<open>auto simp: ingest_one_def\<close>)

text \<open>C38: A batch that the server refuses is lost. When the store behind the handler fails, every event
  of the batch is answered as rejected in the body of a 202; the sink takes the batch for
  delivered, the forwarder saves the cursor behind it, reports success, and neither the server
  nor the spool holds any of its events.\<close>

theorem rejected_batch_is_lost:
  fixes st :: "'s store_ops" and f :: "(cursor_file, 's server) forwarder"
  assumes store: "\<And>n e s. so_insert st n e s = (Inl x, s)" "x \<noteq> ErrPanic"
    and auth: "authorized_token cfg (bearer_token (hq_auth (sink_request wire token [])))"
      "ic_billing_token cfg = [] \<or> bearer_token (hq_auth (sink_request wire token [])) \<noteq> ic_billing_token cfg"
    and env: "re_send env = http_send (deliver cr parse_time cursor_of cfg st calls wire token)" "re_load env = file_load"
      "re_save env = file_save" "re_save_io env = FileOk"
    and f: "fw_spool f = None" "file_load (fw_cursor f) = Inr aft"
    and recs: "re_read env aft (batch_size (re_batch env)) = Inr rs" "rs \<noteq> []" "list_all visible (jr_cursor (last rs))"
      "list_all event_json_ok (map jr_event rs)"
    and body: "wire (map jr_event rs) (max_body_bytes cfg) = Decoded es True" "list_all (\<lambda>e. \<not> is_billing e) es"
      "int (length es) \<le> max_events_per_batch cfg"
  shows "\<exists>f'. run_once msg env f = (Inr (), f') \<and> fw_sink f' = fw_sink f \<and> fw_spool f' = None
     \<and> file_load (fw_cursor f') = Inr (jr_cursor (last rs)) \<and> \<not> fs_degraded (fw_status f')"
proof -
  define req where "req = sink_request wire token (map jr_event rs)"
  have same: "bearer_token (hq_auth req) = bearer_token (hq_auth (sink_request wire token []))"
    by (simp add: req_def sink_request_def)
  have nobill: "\<not> list_ex is_billing es" using body(2) by (auto simp: list_all_iff list_ex_iff)
  have "handle_ingest cr cfg st calls req (fw_sink f) =
      (Results (map (\<lambda>e. result_of e (Inl x)) es), fw_sink f)"
    using auth body nobill ingest_loop_rejects [OF store body(2), of cfg "bearer_token (hq_auth req)"] same
    by (simp add: handle_ingest_def Let_def not_less req_def sink_request_def)
  then have "ingest_handler cr parse_time cursor_of cfg st calls req (fw_sink f) =
      (Results (map (\<lambda>e. result_of e (Inl x)) es), fw_sink f)"
    by (simp add: ingest_handler_def req_def sink_request_def)
  then have sending: "re_send env 0 (map jr_event rs) (fw_sink f) = (Inr (), fw_sink f)"
    using recs(4) by (simp add: env(1) http_send_def deliver_def flip: req_def)
  obtain r0 rs0 where head: "rs = r0 # rs0" using recs(2) by (meson list.exhaust)
  show ?thesis
    using f env recs(1,3) sending unfolding head
    by (auto simp: run_once_def flush_first_def file_save_def file_load_def set_ok_def trim_space_newline Let_def)
qed

definition broken_store :: "unit store_ops" where
  "broken_store = \<lparr>so_insert = (\<lambda>_ _ s. (Inl (ErrMsg ''backend down''), s)), so_query = (\<lambda>_ _. Inr []), so_health = None\<rparr>"

definition open_config :: ingest_config where
  "open_config = \<lparr>ic_token = [], ic_billing_token = [], ic_lifecycle_token = [], ic_lifecycle_read_token = [],
     ic_max_body = 0, ic_max_events = 0\<rparr>"

definition plain_record :: "bytes \<Rightarrow> journal_record" where
  "plain_record c = \<lparr>jr_cursor = c, jr_event = (toy_event c)\<lparr>ev_source := ''s'', ev_stream := []\<rparr>\<rparr>"

definition broken_env :: "(cursor_file, file_io, unit server) run_env" where
  "broken_env = \<lparr>re_read = log_source [plain_record ''a''],
     re_send = http_send (deliver toy_crypto (\<lambda>_. None) (\<lambda>_. BadCursor) open_config broken_store (\<lambda>_. toy_call) (\<lambda>es _. Decoded es True) []),
     re_load = file_load, re_save = file_save, re_save_io = FileOk, re_spool_io = toy_spool_io, re_spool_max = 0,
     re_spool_size = 1, re_batch = 0, re_now = GTime 1 0\<rparr>"

theorem rejected_batch_is_lost_witness:
  "\<exists>f'. run_once error_text broken_env \<lparr>fw_cursor = Missing, fw_spool = None, fw_sink = \<lparr>sv_inbox = None, sv_store = ()\<rparr>,
        fw_status = \<lparr>fs_cursor = [], fs_upload = zero_time, fs_error = [], fs_degraded = False, fs_uploaded = 0\<rparr>\<rparr> = (Inr (), f')
     \<and> file_load (fw_cursor f') = Inr ''a''"
proof -
  have json: "event_json_ok (jr_event (plain_record ''a''))"
    using toy_event_plain(3) [of "''a''"] by (simp add: plain_record_def event_json_ok_def)
  have read: "re_read broken_env [] (batch_size (re_batch broken_env)) = Inr [plain_record ''a'']"
    by (simp add: broken_env_def log_source_def batch_size_def)
  have cursor: "jr_cursor (plain_record ''a'') = ''a''" "list_all visible ''a''" "\<not> is_billing (jr_event (plain_record ''a''))"
    by (simp_all add: plain_record_def visible_def is_billing_def)
  have limit: "int (length [jr_event (plain_record ''a'')]) \<le> max_events_per_batch open_config"
    by (simp add: max_events_per_batch_def open_config_def default_max_events_batch_def)
  show ?thesis
    using rejected_batch_is_lost [of broken_store "ErrMsg ''backend down''" open_config "\<lambda>es _. Decoded es True" "[]" broken_env
        toy_crypto "\<lambda>_. None" "\<lambda>_. BadCursor" "\<lambda>_. toy_call"
        "\<lparr>fw_cursor = Missing, fw_spool = None, fw_sink = \<lparr>sv_inbox = None, sv_store = ()\<rparr>,
          fw_status = \<lparr>fs_cursor = [], fs_upload = zero_time, fs_error = [], fs_degraded = False, fs_uploaded = 0\<rparr>\<rparr>"
        "[]" "[plain_record ''a'']" "[jr_event (plain_record ''a'')]" error_text] read json cursor limit
    by (auto simp: broken_store_def open_config_def authorized_token_def broken_env_def file_load_def)
qed

end
