(* ===== verification/LifecycleHttp.thy ===== *)
theory LifecycleHttp
  imports Capture Compaction Recovery IngestProperties
begin

text \<open>
  \<open>billing_lifecycle_http.go\<close>: the private handler of the lifecycle, with every route, its
  credentials and its error statuses; and \<open>Worker\<close> of \<open>billing_backup.go\<close>, the status it reports.
  \<open>lh_path\<close> is a clean path: the redirects of \<open>http.ServeMux\<close> for other paths are not modelled.
\<close>

section \<open>The status of the worker\<close>

record worker_status =
  ws_env :: bytes
  ws_store :: bytes
  ws_high :: u64
  ws_retired :: u64
  ws_state :: bytes
  ws_attempt :: gtime
  ws_verified :: gtime
  ws_protected_at :: gtime
  ws_unprotected :: gtime
  ws_error :: bytes
  ws_protected :: u64
  ws_overdue :: bool

text \<open>One entry of the catalog; a completion that does not verify is passed over.\<close>

definition worker_entry :: "crypto \<Rightarrow> (bytes \<times> bytes) list \<Rightarrow> doc catalog_entry \<Rightarrow> worker_status \<Rightarrow> worker_status" where
  "worker_entry cr keys ce st =
     (case verify_completion cr keys (ce_completion ce) (ce_manifest ce) (ce_bytes ce) of
        Inl _ \<Rightarrow> st
      | Inr p \<Rightarrow>
          let st = (if after (vp_verified_at p) (ws_verified st) then st\<lparr>ws_verified := vp_verified_at p\<rparr> else st);
              st = (if vp_high p > ws_protected st then st\<lparr>ws_protected := vp_high p\<rparr> else st)
          in if after (mf_created (ce_manifest ce)) (ws_protected_at st)
             then st\<lparr>ws_protected_at := mf_created (ce_manifest ce)\<rparr> else st)"

text \<open>\<open>ForEach\<close> ends at the first entry that does not decode.\<close>

fun worker_scan :: "crypto \<Rightarrow> (bytes \<times> bytes) list \<Rightarrow> (bytes \<times> doc) list \<Rightarrow> worker_status \<Rightarrow> worker_status" where
  "worker_scan cr keys [] st = st"
| "worker_scan cr keys ((k, v) # kvs) st =
     (case as_catalog (Some v) of
        None \<Rightarrow> st
      | Some ce \<Rightarrow> worker_scan cr keys kvs (worker_entry cr keys ce st))"

definition worker :: "crypto \<Rightarrow> gtime \<Rightarrow> worker_status \<Rightarrow> inbox \<Rightarrow> worker_status" where
  "worker cr now st ib =
     (let st = st\<lparr>ws_verified := zero_time, ws_protected_at := zero_time, ws_protected := 0\<rparr>;
          d = ib_db ib;
          st = (if ib_closed ib then st
                else
                  let st = worker_scan cr (lc_keys (ib_cfg ib)) (db_entries d ''catalog'')
                        (st\<lparr>ws_env := lc_env (ib_cfg ib), ws_store := text_or_empty (meta_get d ''identity''),
                            ws_high := db_seq d ''events'', ws_retired := meta_uint d ''archive_floor''\<rparr>)
                  in if ws_protected st < ws_high st
                     then (case receipt_time d (ws_protected st + 1) of
                             Inl _ \<Rightarrow> st
                           | Inr t \<Rightarrow> st\<lparr>ws_unprotected := t\<rparr>)
                     else st)
      in st\<lparr>ws_overdue := (is_zero (ws_protected_at st) \<or> instant now - instant (ws_protected_at st) > 24 * hour)\<rparr>)"

section \<open>Requests\<close>

definition lifecycle_path :: bytes where "lifecycle_path = ''/v1/internal/billing-lifecycle/''"

text \<open>What \<open>StrictDecode\<close> gives for the type a route asks for: \<open>lh_body route\<close>, or nothing.\<close>

datatype lifecycle_body =
    BodyBatch int
  | BodyEmpty
  | BodyVerify bytes "doc signed_doc"
  | BodyPlan retirement_plan
  | BodyOperation bytes
  | BodyRehydrate bytes "export_record list"
  | BodyEvict u64
  | BodyApproval "doc signed_doc"

record lifecycle_request =
  lh_path :: bytes
  lh_method :: bytes
  lh_auth :: bytes
  lh_query :: bytes
  lh_body :: "bytes \<Rightarrow> lifecycle_body option"

datatype lifecycle_result =
    OfMigration migration_status
  | OfCaptures "doc capture_status list"
  | OfWorker worker_status
  | OfRecovery recovery_state
  | OfRetirement retirement_status
  | OfCapture "doc capture_status"
  | OfCatalog "doc catalog_entry"
  | OfStatus bytes
  | OfCompaction u64

text \<open>\<open>Unfinished\<close> stands for a compaction whose rounds did not suffice.\<close>

datatype lifecycle_reply = Refused nat bytes | Answer lifecycle_result | Unfinished

text \<open>What the operations take from outside.\<close>

record lifecycle_env =
  le_call :: call
  le_authority :: authority
  le_capture :: capture_env
  le_publish :: "doc catalog_entry \<Rightarrow> go_error + unit"
  le_compact :: compact_env
  le_rounds :: nat
  le_worker :: worker_status

section \<open>Credentials and routes\<close>

definition trim_prefix :: "bytes \<Rightarrow> bytes \<Rightarrow> bytes" where
  "trim_prefix s p = (if starts_with s p then drop (length p) s else s)"

definition terminal_route :: "bytes \<Rightarrow> bool" where
  "terminal_route route =
     (let terminal_id = trim_prefix route ''retire/''
      in starts_with route ''retire/'' \<and> safe_id terminal_id \<and> terminal_id \<notin> {''plan'', ''apply'', ''abort''})"

definition control_authorized :: "ingest_config \<Rightarrow> bytes \<Rightarrow> bool" where
  "control_authorized cfg token =
     (ic_lifecycle_token cfg \<noteq> [] \<and> ic_lifecycle_token cfg \<noteq> ic_token cfg \<and> ic_lifecycle_token cfg \<noteq> ic_billing_token cfg
      \<and> token = ic_lifecycle_token cfg)"

definition read_authorized :: "ingest_config \<Rightarrow> bytes \<Rightarrow> bytes \<Rightarrow> bytes \<Rightarrow> bool" where
  "read_authorized cfg verb route token =
     (verb = ''GET'' \<and> terminal_route route \<and> ic_lifecycle_read_token cfg \<noteq> []
      \<and> ic_lifecycle_read_token cfg \<noteq> ic_lifecycle_token cfg \<and> ic_lifecycle_read_token cfg \<noteq> ic_token cfg
      \<and> ic_lifecycle_read_token cfg \<noteq> ic_billing_token cfg \<and> token = ic_lifecycle_read_token cfg)"

definition of_outcome :: "('a \<Rightarrow> lifecycle_result) \<Rightarrow> go_error + 'a \<Rightarrow> lifecycle_reply" where
  "of_outcome f r =
     (case r of
        Inr a \<Rightarrow> Answer (f a)
      | Inl x \<Rightarrow>
          if x = ErrOperationNotFound then Refused 404 ''unknown retirement operation''
          else if x = ErrLifecycleConflict then Refused 409 ''lifecycle precondition failed''
          else Refused 503 ''lifecycle operation unavailable'')"

definition lifecycle_get :: "crypto \<Rightarrow> lifecycle_env \<Rightarrow> bytes \<Rightarrow> inbox \<Rightarrow> lifecycle_reply" where
  "lifecycle_get cr ev route ib =
     (let c = le_call ev
      in if route = ''migration'' then of_outcome OfMigration (migration c 0 0 ib)
         else if route = ''captures'' then of_outcome OfCaptures (captures c ib)
         else if route = ''status'' then Answer (OfWorker (worker cr (cl_now c 0) (le_worker ev) ib))
         else if route = ''recovery'' then of_outcome OfRecovery (view_recovery cr c ib)
         else if starts_with route ''retire/'' then of_outcome OfRetirement (retirement c 0 0 (trim_prefix route ''retire/'') ib)
         else Refused 404 ''404 page not found'')"

definition invalid_body :: lifecycle_reply where
  "invalid_body = Refused 400 ''invalid bounded lifecycle JSON''"

definition replying :: "('a \<Rightarrow> lifecycle_result) \<Rightarrow> (go_error + 'a) \<times> inbox \<Rightarrow> lifecycle_reply \<times> inbox" where
  "replying f = (\<lambda>(r, ib). (of_outcome f r, ib))"

definition lifecycle_post ::
    "crypto \<Rightarrow> lifecycle_env \<Rightarrow> bytes \<Rightarrow> lifecycle_body option \<Rightarrow> inbox \<Rightarrow> lifecycle_reply \<times> inbox" where
  "lifecycle_post cr ev route body ib =
     (let c = le_call ev; invalid = (invalid_body, ib)
      in if route = ''migrate'' then
           (case body of
              Some (BodyBatch n) \<Rightarrow> replying OfMigration (migrate cr c (if n = 0 then 1000 else n) ib)
            | _ \<Rightarrow> invalid)
         else if route = ''capture'' then
           (case body of Some BodyEmpty \<Rightarrow> replying OfCapture (capture cr c (le_capture ev) ib) | _ \<Rightarrow> invalid)
         else if route = ''verify'' then
           (case body of
              Some (BodyVerify sid completion) \<Rightarrow> replying OfCatalog (verify_catalog cr c (le_publish ev) sid completion ib)
            | _ \<Rightarrow> invalid)
         else if route = ''retire/plan'' then
           (case body of Some (BodyPlan p) \<Rightarrow> replying OfRetirement (plan_retirement cr c p ib) | _ \<Rightarrow> invalid)
         else if route = ''retire/apply'' then
           (case body of
              Some (BodyOperation op) \<Rightarrow> replying OfRetirement (apply_retirement cr c (le_authority ev) op ib)
            | _ \<Rightarrow> invalid)
         else if route = ''retire/abort'' then
           (case body of Some (BodyPlan p) \<Rightarrow> replying OfRetirement (abort_plan cr c (le_authority ev) p ib) | _ \<Rightarrow> invalid)
         else if route = ''rehydrate'' then
           (case body of
              Some (BodyRehydrate sid records) \<Rightarrow> replying (\<lambda>_. OfStatus ''rehydrated'') (rehydrate cr c sid records ib)
            | _ \<Rightarrow> invalid)
         else if route = ''cache/evict'' then
           (case body of
              Some (BodyEvict through) \<Rightarrow> replying (\<lambda>_. OfStatus ''evicted'') (evict_cache c through ib)
            | _ \<Rightarrow> invalid)
         else if route = ''compact'' then
           (case body of
              Some BodyEmpty \<Rightarrow>
                (case compact_online (le_rounds ev) cr c (le_compact ev) ib of
                   None \<Rightarrow> (Unfinished, ib)
                 | Some r \<Rightarrow> replying OfCompaction r)
            | _ \<Rightarrow> invalid)
         else if route = ''recovery/admit'' then
           (case body of
              Some (BodyApproval approval) \<Rightarrow> replying OfRecovery (admit_recovery cr c approval ib)
            | _ \<Rightarrow> invalid)
         else (Refused 404 ''404 page not found'', ib))"

definition lifecycle_handler ::
    "crypto \<Rightarrow> ingest_config \<Rightarrow> lifecycle_env \<Rightarrow> lifecycle_request \<Rightarrow> inbox option \<Rightarrow> lifecycle_reply \<times> inbox option" where
  "lifecycle_handler cr cfg ev req p =
     (let token = bearer_token (lh_auth req);
          route = trim_prefix (lh_path req) lifecycle_path;
          control = control_authorized cfg token;
          reading = read_authorized cfg (lh_method req) route token
      in if \<not> starts_with (lh_path req) lifecycle_path then (Refused 404 ''404 page not found'', p)
         else case p of
                None \<Rightarrow> (Refused 401 ''unauthorized'', p)
              | Some ib \<Rightarrow>
                  if \<not> control \<and> \<not> reading then (Refused 401 ''unauthorized'', p)
                  else if lh_query req \<noteq> [] then (Refused 400 ''unsupported lifecycle query'', p)
                  else if lh_method req = ''GET'' then (lifecycle_get cr ev route ib, p)
                  else if lh_method req = ''POST'' then
                    (case lifecycle_post cr ev route (lh_body req route) ib of (r, ib) \<Rightarrow> (r, Some ib))
                  else (Refused 405 ''method not allowed'', p))"

section \<open>Who may do what\<close>

lemma trim_prefix_append: "starts_with s p \<Longrightarrow> s = p @ trim_prefix s p"
  unfolding trim_prefix_def starts_with_def by (metis append_take_drop_id)

text \<open>The cases of the handler by credential.\<close>

lemma lifecycle_cases:
  assumes "lifecycle_handler cr cfg ev req (Some ib) = (reply, p)"
  obtains
    (refused) code m where "reply = Refused code m" "p = Some ib"
      "control_authorized cfg (bearer_token (lh_auth req))
       \<or> read_authorized cfg (lh_method req) (trim_prefix (lh_path req) lifecycle_path) (bearer_token (lh_auth req))
       \<or> code = 401 \<or> code = 404"
  | (reading) "p = Some ib" "lh_method req = ''GET''" "starts_with (lh_path req) lifecycle_path"
      "control_authorized cfg (bearer_token (lh_auth req))
       \<or> read_authorized cfg (lh_method req) (trim_prefix (lh_path req) lifecycle_path) (bearer_token (lh_auth req))"
      "reply = lifecycle_get cr ev (trim_prefix (lh_path req) lifecycle_path) ib"
  | (posting) "lh_method req = ''POST''" "control_authorized cfg (bearer_token (lh_auth req))"
proof -
  define token where "token = bearer_token (lh_auth req)"
  define route where "route = trim_prefix (lh_path req) lifecycle_path"
  note unfold = lifecycle_handler_def Let_def token_def [symmetric] route_def [symmetric]
  show thesis
  proof (cases "starts_with (lh_path req) lifecycle_path")
    case False
    with assms show thesis by (intro refused [of 404 "''404 page not found''"]) (simp_all add: lifecycle_handler_def Let_def)
  next
    case path: True
    show thesis
    proof (cases "control_authorized cfg token \<or> read_authorized cfg (lh_method req) route token")
      case False
      with assms path show thesis by (intro refused [of 401 "''unauthorized''"]) (simp_all add: unfold)
    next
      case auth: True
      show thesis
      proof (cases "lh_query req = [] \<and> (lh_method req = ''GET'' \<or> lh_method req = ''POST'')")
        case False
        with assms path auth have "reply = Refused 400 ''unsupported lifecycle query'' \<or> reply = Refused 405 ''method not allowed''"
            "p = Some ib"
          by (simp_all add: unfold split: if_splits)
        with auth show thesis by (elim disjE; intro refused) (auto simp: token_def route_def)
      next
        case True
        show thesis
        proof (cases "lh_method req = ''GET''")
          case get: True
          have "lifecycle_handler cr cfg ev req (Some ib) = (lifecycle_get cr ev route ib, Some ib)"
            using path auth True get by (auto simp: unfold)
          with assms have "p = Some ib" "reply = lifecycle_get cr ev route ib" by simp_all
          with path auth get show thesis by (intro reading) (simp_all add: token_def route_def)
        next
          case False
          with True auth have "lh_method req = ''POST''" "control_authorized cfg token"
            by (simp_all add: read_authorized_def)
          then show thesis by (intro posting) (simp_all add: token_def)
        qed
      qed
    qed
  qed
qed

lemma read_route:
  assumes "read_authorized cfg verb route token"
  shows "\<exists>op. route = ''retire/'' @ op \<and> safe_id op \<and> lifecycle_get cr ev route ib = of_outcome OfRetirement (retirement (le_call ev) 0 0 op ib)"
proof -
  have route: "starts_with route ''retire/''" "safe_id (trim_prefix route ''retire/'')"
    using assms by (simp_all add: read_authorized_def terminal_route_def Let_def)
  have r: "route = ''retire/'' @ trim_prefix route ''retire/''" by (rule trim_prefix_append [OF route(1)])
  then have "take 7 route = take 7 (''retire/'' @ trim_prefix route ''retire/'')" by (rule arg_cong)
  then have "take 7 route = ''retire/''" by simp
  then have "route \<noteq> ''migration''" "route \<noteq> ''captures''" "route \<noteq> ''status''" "route \<noteq> ''recovery''" by auto
  then have "lifecycle_get cr ev route ib = of_outcome OfRetirement (retirement (le_call ev) 0 0 (trim_prefix route ''retire/'') ib)"
    using route(1) by (simp add: lifecycle_get_def Let_def)
  with r route(2) show ?thesis by blast
qed

text \<open>C32: The lifecycle answers to its own credentials only. A request that carries neither the control
  credential nor the read credential is refused and changes nothing; the read credential gets
  the status of one retirement operation and nothing else; only a POST with the control
  credential can change the inbox; and neither the ingest nor the billing credential is ever a
  lifecycle credential.\<close>

theorem lifecycle_needs_its_own_credentials:
  assumes "lifecycle_handler cr cfg ev req (Some ib) = (reply, p)"
  defines "token \<equiv> bearer_token (lh_auth req)"
  shows "(token \<noteq> ic_lifecycle_token cfg \<and> token \<noteq> ic_lifecycle_read_token cfg \<longrightarrow>
            p = Some ib \<and> (\<exists>m. reply = Refused 401 m \<or> reply = Refused 404 m))
     \<and> (token \<noteq> ic_lifecycle_token cfg \<longrightarrow> p = Some ib
          \<and> ((\<exists>code m. reply = Refused code m)
             \<or> (\<exists>op. lh_method req = ''GET'' \<and> lh_path req = lifecycle_path @ ''retire/'' @ op \<and> safe_id op
                  \<and> reply = of_outcome OfRetirement (retirement (le_call ev) 0 0 op ib))))
     \<and> (p \<noteq> Some ib \<longrightarrow> lh_method req = ''POST'' \<and> control_authorized cfg token)
     \<and> (token = ic_token cfg \<or> token = ic_billing_token cfg \<longrightarrow> p = Some ib \<and> (\<exists>m. reply = Refused 401 m \<or> reply = Refused 404 m))"
  using assms(1)
proof (cases rule: lifecycle_cases)
  case (refused code m)
  then show ?thesis by (auto simp: token_def control_authorized_def read_authorized_def)
next
  case reading
  define route where "route = trim_prefix (lh_path req) lifecycle_path"
  have "lh_path req = lifecycle_path @ route" unfolding route_def by (rule trim_prefix_append [OF reading(3)])
  moreover have "\<exists>op. route = ''retire/'' @ op \<and> safe_id op \<and> reply = of_outcome OfRetirement (retirement (le_call ev) 0 0 op ib)"
    if "token \<noteq> ic_lifecycle_token cfg"
  proof -
    have "read_authorized cfg (lh_method req) route token"
      using reading(4) that by (auto simp: token_def route_def control_authorized_def)
    from read_route [OF this] reading(5) show ?thesis by (simp add: route_def)
  qed
  ultimately show ?thesis
    using reading by (auto simp: token_def control_authorized_def read_authorized_def)
next
  case posting
  then show ?thesis by (auto simp: token_def control_authorized_def)
qed

definition private_config :: ingest_config where
  "private_config = \<lparr>ic_token = ''o'', ic_billing_token = ''k'', ic_lifecycle_token = ''c'', ic_lifecycle_read_token = ''b'',
     ic_max_body = 0, ic_max_events = 0\<rparr>"

definition retire_request :: lifecycle_request where
  "retire_request = \<lparr>lh_path = lifecycle_path @ ''retire/x'', lh_method = ''GET'', lh_auth = ''Bearer b'', lh_query = [],
     lh_body = (\<lambda>_. None)\<rparr>"

theorem lifecycle_needs_its_own_credentials_witness:
  "\<forall>ev. snd (lifecycle_handler toy_crypto private_config ev retire_request (Some (open_inbox fresh_db))) = Some (open_inbox fresh_db)
     \<and> (\<exists>op. safe_id op \<and> fst (lifecycle_handler toy_crypto private_config ev retire_request (Some (open_inbox fresh_db))) =
          of_outcome OfRetirement (retirement (le_call ev) 0 0 op (open_inbox fresh_db)))"
proof
  fix ev
  obtain reply p where h: "lifecycle_handler toy_crypto private_config ev retire_request (Some (open_inbox fresh_db)) = (reply, p)"
    by fastforce
  have route: "trim_prefix (lifecycle_path @ ''retire/x'') lifecycle_path = ''retire/x''" "starts_with (lifecycle_path @ s) lifecycle_path"
      "trim_prefix ''retire/x'' ''retire/'' = ''x''" "starts_with ''retire/x'' ''retire/''" "safe_id ''x''" for s
    by (simp_all add: trim_prefix_def starts_with_def safe_id_def safe_char_def)
  have "read_authorized private_config ''GET'' ''retire/x'' ''b''"
    by (simp add: read_authorized_def terminal_route_def route private_config_def)
  then have "\<nexists>code m. reply = Refused code m \<and> code = 401" "p = Some (open_inbox fresh_db)"
      "reply = lifecycle_get toy_crypto ev ''retire/x'' (open_inbox fresh_db)"
    using h by (auto simp: lifecycle_handler_def retire_request_def toy_token route Let_def lifecycle_get_def of_outcome_def
        split: sum.splits if_splits)
  moreover have "bearer_token (lh_auth retire_request) \<noteq> ic_lifecycle_token private_config"
    by (simp add: retire_request_def toy_token private_config_def)
  ultimately show "snd (lifecycle_handler toy_crypto private_config ev retire_request (Some (open_inbox fresh_db))) = Some (open_inbox fresh_db)
     \<and> (\<exists>op. safe_id op \<and> fst (lifecycle_handler toy_crypto private_config ev retire_request (Some (open_inbox fresh_db))) =
          of_outcome OfRetirement (retirement (le_call ev) 0 0 op (open_inbox fresh_db)))"
    using lifecycle_needs_its_own_credentials [OF h] h read_route [OF \<open>read_authorized _ _ _ _\<close>, of toy_crypto ev "open_inbox fresh_db"]
    by auto
qed

end
