(* ===== verification/ExportAudit.thy ===== *)
theory ExportAudit
  imports Capture Growth ArchiveSample
begin

text \<open>
  \<open>billing_export_audit.go\<close>: \<open>ValidateBillingSnapshotExports\<close>, which compares an export with the
  snapshot it was taken from; what an accepted export is; and the export of a capture, which is
  accepted. The reader with its limits and the strict decoder of a line are the argument
  \<open>lines limit\<close>: the decoded lines (\<open>None\<close> for one that does not decode) and the error the scanner ended with.
\<close>

section \<open>The audit\<close>

record export_audit =
  xa_count :: u64
  xa_max :: gtime
  xa_refs :: "record_binding list"

definition usage_of :: "log_event \<Rightarrow> jval" where
  "usage_of e = (case aget (ev_fields e) ''usage_event'' of None \<Rightarrow> JNull | Some v \<Rightarrow> v)"

definition audit_record ::
    "crypto \<Rightarrow> (jval \<Rightarrow> go_error + usage_event) \<Rightarrow> manifest \<Rightarrow> db \<Rightarrow> export_record \<Rightarrow> go_error + (gtime \<times> record_binding)" where
  "audit_record cr usage m d e =
     (case validate_export_record cr e of
        Inl _ \<Rightarrow> Inl ErrBillingUnavailable
      | Inr r \<Rightarrow>
          if db_get d ''events'' (sequence_key (ex_seq e)) \<noteq> Some (ex_record e)
             \<or> \<not> source_environment_allowed (ev_env (br_event r)) (mf_sources m) then Inl ErrBillingUnavailable
          else (case receipt_time d (ex_seq e) of
                  Inl _ \<Rightarrow> Inl ErrBillingUnavailable
                | Inr received \<Rightarrow>
                    if \<not> same_instant received (ex_received e) then Inl ErrBillingUnavailable
                    else (case as_binding (db_get d ''ids'' (ev_id (br_event r))) of
                            None \<Rightarrow> Inl ErrBillingUnavailable
                          | Some b \<Rightarrow>
                              if rb_seq b \<noteq> ex_seq e \<or> rb_content b \<noteq> ex_content e \<or> rb_record b \<noteq> sha cr (ex_record e)
                              then Inl ErrBillingUnavailable
                              else andThen (canonical_usage_binding cr (ex_seq e) (ex_content e) (usage (usage_of (br_event r))))
                                     (\<lambda>ref. Inr (received, ref)))))"

definition audit_line ::
    "crypto \<Rightarrow> (jval \<Rightarrow> go_error + usage_event) \<Rightarrow> ctx \<Rightarrow> manifest \<Rightarrow> db \<Rightarrow> nat \<times> export_record option \<Rightarrow> export_audit \<Rightarrow>
     go_error + export_audit" where
  "audit_line cr usage c m d x s =
     (case x of (i, line) \<Rightarrow>
        andThen (ctx_check c i) (\<lambda>_.
          case line of
            None \<Rightarrow> Inl ErrBillingUnavailable
          | Some e \<Rightarrow>
              if xa_count s \<ge> mf_count m \<or> ex_seq e \<noteq> mf_from m + xa_count s then Inl ErrBillingUnavailable
              else andThen (audit_record cr usage m d e) (\<lambda>(received, ref).
                     Inr (s\<lparr>xa_refs := xa_refs s @ [ref],
                            xa_max := (if after received (xa_max s) then received else xa_max s),
                            xa_count := xa_count s + 1\<rparr>))))"

text \<open>The bytes of the export according to the manifest.\<close>

definition export_limit :: "manifest \<Rightarrow> int" where
  "export_limit m = (\<Sum>p \<leftarrow> mf_parts m. if pt_kind p = ''events'' then pt_plain p else 0)"

definition audit_start :: export_audit where
  "audit_start = \<lparr>xa_count = 0, xa_max = zero_time, xa_refs = []\<rparr>"

definition validate_snapshot_exports ::
    "crypto \<Rightarrow> (jval \<Rightarrow> go_error + usage_event) \<Rightarrow> ctx \<Rightarrow> go_error + unit \<Rightarrow> db \<Rightarrow> manifest \<Rightarrow>
     (int \<Rightarrow> export_record option list \<times> go_error option) \<Rightarrow> go_error + unit" where
  "validate_snapshot_exports cr usage c opened d m lines =
     andThen opened (\<lambda>_.
       if \<not> db_has d ''meta'' \<or> \<not> db_has d ''events'' \<or> text_or_empty (meta_get d ''identity'') \<noteq> mf_store m
          \<or> db_seq d ''events'' \<noteq> mf_high m then Inl ErrBillingUnavailable
       else if capture_from d \<noteq> mf_from m then Inl ErrBillingUnavailable
       else (case lines (export_limit m + 1) of
               (ls, failure) \<Rightarrow>
                 andThen (for_state (audit_line cr usage c m d) (enumerate 0 ls) audit_start) (\<lambda>s.
                   case failure of
                     Some x \<Rightarrow> Inl x
                   | None \<Rightarrow>
                       if xa_count s \<noteq> mf_count m \<or> \<not> same_instant (xa_max s) (mf_max_received m)
                          \<or> sha cr (DRefs (xa_refs s)) \<noteq> mf_bindings m then Inl ErrBillingUnavailable
                       else Inr ())))"

section \<open>What an accepted export is\<close>

definition later :: "gtime \<Rightarrow> gtime \<Rightarrow> gtime" where
  "later t u = (if after t u then t else u)"

definition audited :: "(gtime \<times> record_binding) list \<Rightarrow> export_audit \<Rightarrow> export_audit" where
  "audited xs s =
     s\<lparr>xa_refs := xa_refs s @ map snd xs, xa_max := fold later (map fst xs) (xa_max s),
       xa_count := xa_count s + of_nat (length xs)\<rparr>"

lemma audited_Nil [simp]: "audited [] s = s" by (simp add: audited_def)

lemma audit_lineD:
  assumes "audit_line cr usage c m d (i, line) s = Inr s'"
  obtains e x where "line = Some e" "ex_seq e = mf_from m + xa_count s" "xa_count s < mf_count m"
    "audit_record cr usage m d e = Inr x" "s' = audited [x] s"
proof -
  obtain e where e: "line = Some e"
    using assms by (auto simp: audit_line_def split: option.splits)
  with assms have ok: "\<not> (xa_count s \<ge> mf_count m \<or> ex_seq e \<noteq> mf_from m + xa_count s)"
    by (auto simp: audit_line_def split: if_splits)
  with assms e obtain t ref where x: "audit_record cr usage m d e = Inr (t, ref)"
    by (auto simp: audit_line_def)
  with assms e ok have "s' = audited [(t, ref)] s"
    by (auto simp: audit_line_def audited_def later_def)
  with e ok x show thesis by (intro that) (auto simp: not_le)
qed

lemma audited_more: "audited xs (audited [x] s) = audited (x # xs) s"
  by (simp add: audited_def)

text \<open>The lines that the scan accepts carry the sequences of the range, one after the other.\<close>

lemma audit_scan:
  assumes "for_state (audit_line cr usage c m d) (enumerate k ls) s = Inr s'" "xa_count s \<le> mf_count m"
  shows "\<exists>es xs. ls = map Some es \<and> list_all2 (\<lambda>e x. audit_record cr usage m d e = Inr x) es xs \<and> s' = audited xs s
     \<and> unat (xa_count s') = unat (xa_count s) + length es \<and> xa_count s' \<le> mf_count m
     \<and> map ex_seq es = map (\<lambda>i. mf_from m + xa_count s + of_nat i) [0..<length es]"
  using assms
proof (induction ls arbitrary: k s)
  case (Cons line ls)
  then obtain s1 where s1: "audit_line cr usage c m d (k, line) s = Inr s1"
    and rest: "for_state (audit_line cr usage c m d) (enumerate (Suc k) ls) s1 = Inr s'"
    by auto
  obtain e x where e: "line = Some e" "ex_seq e = mf_from m + xa_count s" "xa_count s < mf_count m"
      "audit_record cr usage m d e = Inr x" "s1 = audited [x] s"
    using audit_lineD [OF s1] by blast
  then have count: "xa_count s1 = xa_count s + 1" by (simp add: audited_def)
  have step: "unat (xa_count s1) = Suc (unat (xa_count s))" "xa_count s1 \<le> mf_count m"
    using u64_less_Suc [OF e(3)] inc_le [OF e(3)] by (simp_all add: count)
  obtain es xs where es: "ls = map Some es" "list_all2 (\<lambda>e x. audit_record cr usage m d e = Inr x) es xs"
      "s' = audited xs s1" "unat (xa_count s') = unat (xa_count s1) + length es" "xa_count s' \<le> mf_count m"
      "map ex_seq es = map (\<lambda>i. mf_from m + xa_count s1 + of_nat i) [0..<length es]"
    using Cons.IH [OF rest step(2)] by blast
  have "map ex_seq (e # es) = map (\<lambda>i. mf_from m + xa_count s + of_nat i) [0..<length (e # es)]"
    using e(2) count es(6) by (simp add: upt_conv_Cons map_Suc_upt [symmetric] ac_simps del: upt_Suc)
  with e es step show ?case by (intro exI [of _ "e # es"] exI [of _ "x # xs"]) (simp add: audited_more)
qed auto

text \<open>And lines with these sequences that agree with the snapshot are accepted.\<close>

lemma audit_scan_accepts:
  assumes "list_all2 (\<lambda>e x. audit_record cr usage m d e = Inr x) es xs" "\<And>i. c i = None"
    "map ex_seq es = map (\<lambda>i. mf_from m + xa_count s + of_nat i) [0..<length es]"
    "unat (xa_count s) + length es \<le> unat (mf_count m)"
  shows "for_state (audit_line cr usage c m d) (enumerate k (map Some es)) s = Inr (audited xs s)"
  using assms(1,3,4)
proof (induction es xs arbitrary: k s rule: list_all2_induct)
  case (Cons e es x xs)
  obtain t ref where x: "x = (t, ref)" by fastforce
  have less: "xa_count s < mf_count m" using Cons.prems(2) by (simp add: word_less_nat_alt)
  have seqs: "ex_seq e = mf_from m + xa_count s"
      "map ex_seq es = map (\<lambda>i. mf_from m + (xa_count s + 1) + of_nat i) [0..<length es]"
    using Cons.prems(1) by (simp_all add: upt_conv_Cons map_Suc_upt [symmetric] ac_simps del: upt_Suc)
  have line: "audit_line cr usage c m d (k, Some e) s = Inr (audited [x] s)"
    using less seqs(1) Cons.hyps(1) assms(2) by (simp add: audit_line_def ctx_check_def x audited_def later_def)
  have "for_state (audit_line cr usage c m d) (enumerate (Suc k) (map Some es)) (audited [x] s) = Inr (audited xs (audited [x] s))"
    using seqs(2) Cons.prems(2) u64_less_Suc [OF less] by (intro Cons.IH) (simp_all add: audited_def)
  then show ?case using line by (simp add: audited_more)
qed simp

lemma audit_recordD:
  assumes "audit_record cr usage m d e = Inr (t, ref)"
  obtains r where "decode_billing_record cr (Some (ex_record e)) (ex_seq e) = Inr r" "ex_content e = br_digest r"
    "db_get d ''events'' (sequence_key (ex_seq e)) = Some (ex_record e)" "ev_env (br_event r) \<in> set (mf_sources m)"
    "receipt_time d (ex_seq e) = Inr t" "same_instant t (ex_received e)"
    "canonical_usage_binding cr (ex_seq e) (ex_content e) (usage (usage_of (br_event r))) = Inr ref"
  using assms
  by (auto simp: audit_record_def validate_export_record_def source_environment_allowed_def
      split: sum.splits if_splits option.splits)

text \<open>A line that agrees with a database is the ledger's entry of its sequence.\<close>

lemma audit_record_entry:
  assumes "audit_record cr usage m d e = Inr x" "represents cr d L" "1 \<le> ex_seq e" "ex_seq e \<le> db_seq d ''events''"
  shows "body_ok cr (ex_seq e) (entry L (ex_seq e)) (ex_record e)" "ex_content e = snd (entry L (ex_seq e))"
proof -
  obtain r where r: "decode_billing_record cr (Some (ex_record e)) (ex_seq e) = Inr r" "ex_content e = br_digest r"
      "db_get d ''events'' (sequence_key (ex_seq e)) = Some (ex_record e)"
    using assms(1) by (cases x) (auto elim: audit_recordD)
  have slot: "slot_ok cr d (ex_seq e) (entry L (ex_seq e))" using assms(2-) by (simp add: represents_def)
  have floor: "archive_floor d < ex_seq e"
    using slot r(3) by (auto elim: slot_retired)
  show body: "body_ok cr (ex_seq e) (entry L (ex_seq e)) (ex_record e)"
    using slot_live [OF slot floor] r(3) by (metis option.inject)
  show "ex_content e = snd (entry L (ex_seq e))"
    using body decoded_body_ok [OF r(1)] r(2) by (auto simp: body_ok_def)
qed

lemma range_within:
  assumes "validate_manifest m = Inr ()" "i < unat (mf_count m)"
  shows "1 \<le> mf_from m + of_nat i" "mf_from m + of_nat i \<le> mf_high m" "unat (mf_from m + of_nat i) = unat (mf_from m) + i"
proof -
  have nz: "mf_count m \<noteq> 0" using assms(2) by auto
  then have m: "mf_from m \<noteq> 0" "mf_from m \<le> mf_through m" "mf_through m \<le> mf_high m" "mf_through m - mf_from m + 1 = mf_count m"
    using assms(1) by (auto simp: validate_manifest_def not_less split: if_splits)
  have cnt: "unat (mf_count m) = Suc (unat (mf_through m) - unat (mf_from m))"
  proof -
    have "mf_through m - mf_from m \<noteq> - 1" using nz m(4) by auto
    from u64_Suc(1) [OF this] show ?thesis using m(2,4) by (simp add: unat_sub)
  qed
  have small: "unat (mf_from m) + i \<le> unat (mf_through m)"
    using assms(2) cnt m(2) by (simp add: word_le_nat_alt)
  have bound: "unat (mf_through m) < 2 ^ LENGTH(64)" by (rule unsigned_less)
  have "i < 2 ^ LENGTH(64)" using small bound by linarith
  then have "unat (of_nat i :: u64) = i" by (simp add: unat_of_nat)
  then show u: "unat (mf_from m + of_nat i) = unat (mf_from m) + i"
    using small bound by (simp add: unat_word_ariths)
  show "1 \<le> mf_from m + of_nat i" using u m(1) by (simp add: word_le_nat_alt unat_gt_0 Suc_le_eq)
  show "mf_from m + of_nat i \<le> mf_high m" using u small m(3) by (simp add: word_le_nat_alt)
qed

text \<open>C28: An accepted export is the ledger's range. When the audit accepts an export against a snapshot, the
  whole export decodes, its lines carry the sequences of the range one after the other, each
  line holds the stored bytes and the digest of the ledger's entry and the instant of its
  receipt, every source environment is one of the manifest's, and the manifest's binding digest
  is that of the usage events of just these lines.\<close>

theorem accepted_export_is_the_ledger:
  assumes "validate_snapshot_exports cr usage c opened d m lines = Inr ()" "validate_manifest m = Inr ()" "represents cr d L"
  shows "\<exists>es refs. lines (export_limit m + 1) = (map Some es, None)
     \<and> map ex_seq es = map (\<lambda>i. mf_from m + of_nat i) [0..<unat (mf_count m)]
     \<and> list_all2 (\<lambda>e x. body_ok cr (ex_seq e) x (ex_record e) \<and> ex_content e = snd x)
         es (take (unat (mf_count m)) (drop (unat (mf_from m) - 1) L))
     \<and> list_all2 (\<lambda>e ref. \<exists>r t. ex_record e = DRecord r \<and> ev_env (br_event r) \<in> set (mf_sources m)
           \<and> receipt_time d (ex_seq e) = Inr t \<and> same_instant t (ex_received e)
           \<and> canonical_usage_binding cr (ex_seq e) (ex_content e) (usage (usage_of (br_event r))) = Inr ref) es refs
     \<and> mf_bindings m = sha cr (DRefs refs)"
proof -
  obtain ls failure where ls: "lines (export_limit m + 1) = (ls, failure)" by fastforce
  have ok: "db_seq d ''events'' = mf_high m" using assms(1) by (auto simp: validate_snapshot_exports_def split: if_splits)
  obtain s where s: "for_state (audit_line cr usage c m d) (enumerate 0 ls) audit_start = Inr s" "failure = None"
      "xa_count s = mf_count m" "sha cr (DRefs (xa_refs s)) = mf_bindings m"
    using assms(1) ls by (auto simp: validate_snapshot_exports_def split: if_splits option.splits)
  obtain es xs where es: "ls = map Some es" "list_all2 (\<lambda>e x. audit_record cr usage m d e = Inr x) es xs" "s = audited xs audit_start"
      "unat (xa_count s) = length es" "map ex_seq es = map (\<lambda>i. mf_from m + of_nat i) [0..<length es]"
    using audit_scan [OF s(1)] by (auto simp: audit_start_def)
  have len: "length es = unat (mf_count m)" using es(4) s(3) by simp
  have seq: "ex_seq (es ! i) = mf_from m + of_nat i" if "i < length es" for i
    using arg_cong [OF es(5), of "\<lambda>l. l ! i"] that by simp
  note range = range_within [OF assms(2), folded len]
  have L: "length L = unat (mf_high m)" using assms(3) ok by (simp add: represents_def)
  have fits: "unat (mf_from m) - 1 + length es \<le> length L"
  proof (cases "length es")
    case (Suc k)
    then have "unat (mf_from m + of_nat k) = unat (mf_from m) + k" "mf_from m + of_nat k \<le> mf_high m"
        "1 \<le> mf_from m + of_nat k" using range [of k] by simp_all
    with range(1,3) [of 0] Suc show ?thesis by (simp add: L word_le_nat_alt)
  next
    case 0
    then have "mf_count m = 0" by (simp add: len unat_eq_0)
    then have "mf_from m = 0" using assms(2) by (auto simp: validate_manifest_def split: if_splits)
    then show ?thesis using 0 by simp
  qed
  have slice: "list_all2 (\<lambda>e x. body_ok cr (ex_seq e) x (ex_record e) \<and> ex_content e = snd x)
      es (take (length es) (drop (unat (mf_from m) - 1) L))"
  proof (rule list_all2_all_nthI)
    fix i assume i: "i < length es"
    have "take (length es) (drop (unat (mf_from m) - 1) L) ! i = entry L (ex_seq (es ! i))"
    proof -
      have "0 < length es" using i by (rule le_less_trans [OF le0])
      then have "1 \<le> unat (mf_from m)" using range(1,3) [of 0] by (simp add: word_le_nat_alt)
      then have "unat (mf_from m) - 1 + i = unat (mf_from m) + i - 1" by simp
      with i fits range(3) [OF i] show ?thesis by (simp add: entry_def seq [OF i])
    qed
    with audit_record_entry [of cr usage m d "es ! i" "xs ! i" L] range(1,2) [OF i] i es(2) assms(3)
    show "body_ok cr (ex_seq (es ! i)) (take (length es) (drop (unat (mf_from m) - 1) L) ! i) (ex_record (es ! i))
        \<and> ex_content (es ! i) = snd (take (length es) (drop (unat (mf_from m) - 1) L) ! i)"
      by (simp add: seq [OF i] ok list_all2_conv_all_nth)
  qed (use fits in simp)
  have refs: "list_all2 (\<lambda>e ref. \<exists>r t. ex_record e = DRecord r \<and> ev_env (br_event r) \<in> set (mf_sources m)
           \<and> receipt_time d (ex_seq e) = Inr t \<and> same_instant t (ex_received e)
           \<and> canonical_usage_binding cr (ex_seq e) (ex_content e) (usage (usage_of (br_event r))) = Inr ref) es (map snd xs)"
    unfolding list_all2_map2
  proof (rule list_all2_mono [OF es(2)])
    fix e x assume x: "audit_record cr usage m d e = Inr x"
    obtain t ref where "x = (t, ref)" by fastforce
    with x obtain r where r: "decode_billing_record cr (Some (ex_record e)) (ex_seq e) = Inr r"
        "ev_env (br_event r) \<in> set (mf_sources m)" "receipt_time d (ex_seq e) = Inr t" "same_instant t (ex_received e)"
        "canonical_usage_binding cr (ex_seq e) (ex_content e) (usage (usage_of (br_event r))) = Inr (snd x)"
      by (auto elim: audit_recordD)
    from r(1) have "ex_record e = DRecord r"
      by (auto simp: decode_billing_record_def split: option.splits sum.splits if_splits)
    with r show "\<exists>r t. ex_record e = DRecord r \<and> ev_env (br_event r) \<in> set (mf_sources m)
           \<and> receipt_time d (ex_seq e) = Inr t \<and> same_instant t (ex_received e)
           \<and> canonical_usage_binding cr (ex_seq e) (ex_content e) (usage (usage_of (br_event r))) = Inr (snd x)" by blast
  qed
  have bind: "mf_bindings m = sha cr (DRefs (map snd xs))" using s(4) es(3) by (simp add: audited_def audit_start_def)
  show ?thesis
    using ls s(2) es(1,5) slice refs bind len by (intro exI [of _ es] exI [of _ "map snd xs"]) simp
qed

section \<open>The export of a capture\<close>

text \<open>The parts sealed from chunks of lines that follow one another.\<close>

fun sealed_from :: "capture_env \<Rightarrow> int \<Rightarrow> int \<Rightarrow> export_record list list \<Rightarrow> part list \<Rightarrow> bool" where
  "sealed_from ev ordinal off [] ps = (ps = [])"
| "sealed_from ev ordinal off (es # ess) ps =
     (case (ve_seal_events ev ordinal off es, ps) of
        (Inr sp, p # ps) \<Rightarrow>
          p = make_part ''events'' ordinal off (buffer_len es) sp
          \<and> sealed_from ev (ordinal + 1) (off + buffer_len es) ess ps
      | _ \<Rightarrow> False)"

lemma buffer_len_append [simp]: "buffer_len (xs @ ys) = buffer_len xs + buffer_len ys"
  by (simp add: buffer_len_def)

lemma buffer_len_Nil [simp]: "buffer_len [] = 0"
  by (simp add: buffer_len_def)

lemma sealed_from_append:
  "sealed_from ev i off xss ps \<Longrightarrow>
   sealed_from ev (i + int (length xss)) (off + buffer_len (concat xss)) yss qs \<Longrightarrow> sealed_from ev i off (xss @ yss) (ps @ qs)"
  by (induction ev i off xss ps rule: sealed_from.induct) (auto split: sum.splits list.splits simp: ac_simps)

text \<open>What the scan has done: the chunks \<open>ess\<close> are sealed, the rest of the lines is in the buffer.\<close>

definition exported :: "capture_env \<Rightarrow> export_scan \<Rightarrow> (export_record \<times> record_binding) list \<Rightarrow> export_scan \<Rightarrow> bool" where
  "exported ev s ers s' =
     (\<exists>ess ps. xs_buffer s @ map fst ers = concat ess @ xs_buffer s' \<and> xs_parts s' = xs_parts s @ ps
        \<and> sealed_from ev (xs_ordinal s) (xs_offset s) ess ps
        \<and> xs_offset s' = xs_offset s + buffer_len (concat ess) \<and> xs_ordinal s' = xs_ordinal s + int (length ess)
        \<and> xs_refs s' = xs_refs s @ map snd ers \<and> xs_max s' = fold later (map (ex_received \<circ> fst) ers) (xs_max s))"

lemma exported_refl: "exported ev s [] s"
  by (auto simp: exported_def intro!: exI [of _ "[]"])

lemma exported_trans:
  assumes "exported ev s xs s1" "exported ev s1 ys s2"
  shows "exported ev s (xs @ ys) s2"
proof -
  obtain xss ps where x: "xs_buffer s @ map fst xs = concat xss @ xs_buffer s1" "xs_parts s1 = xs_parts s @ ps"
      "sealed_from ev (xs_ordinal s) (xs_offset s) xss ps" "xs_offset s1 = xs_offset s + buffer_len (concat xss)"
      "xs_ordinal s1 = xs_ordinal s + int (length xss)" "xs_refs s1 = xs_refs s @ map snd xs"
      "xs_max s1 = fold later (map (ex_received \<circ> fst) xs) (xs_max s)"
    using assms(1) by (auto simp: exported_def)
  obtain yss qs where y: "xs_buffer s1 @ map fst ys = concat yss @ xs_buffer s2" "xs_parts s2 = xs_parts s1 @ qs"
      "sealed_from ev (xs_ordinal s1) (xs_offset s1) yss qs" "xs_offset s2 = xs_offset s1 + buffer_len (concat yss)"
      "xs_ordinal s2 = xs_ordinal s1 + int (length yss)" "xs_refs s2 = xs_refs s1 @ map snd ys"
      "xs_max s2 = fold later (map (ex_received \<circ> fst) ys) (xs_max s1)"
    using assms(2) by (auto simp: exported_def)
  have "xs_buffer s @ map fst (xs @ ys) = concat (xss @ yss) @ xs_buffer s2"
    using x(1) y(1) by (metis append.assoc concat_append map_append)
  moreover have "sealed_from ev (xs_ordinal s) (xs_offset s) (xss @ yss) (ps @ qs)"
    using x(3,4,5) y(3) by (simp add: sealed_from_append)
  ultimately show ?thesis
    using x(2,4-) y(2,4-) unfolding exported_def by (intro exI [of _ "xss @ yss"] exI [of _ "ps @ qs"]) simp
qed

lemma flush_exported: "flush ev s = Inr s' \<Longrightarrow> exported ev s [] s' \<and> xs_buffer s' = []"
proof (cases "xs_buffer s = []")
  case False
  assume "flush ev s = Inr s'"
  with False obtain sp where "ve_seal_events ev (xs_ordinal s) (xs_offset s) (xs_buffer s) = Inr sp"
      "s' = s\<lparr>xs_parts := xs_parts s @ [make_part ''events'' (xs_ordinal s) (xs_offset s) (buffer_len (xs_buffer s)) sp],
              xs_offset := xs_offset s + buffer_len (xs_buffer s), xs_ordinal := xs_ordinal s + 1, xs_buffer := []\<rparr>"
    by (auto simp: flush_def Let_def)
  then show ?thesis
    unfolding exported_def
    by (intro conjI exI [of _ "[xs_buffer s]"]
        exI [of _ "[make_part ''events'' (xs_ordinal s) (xs_offset s) (buffer_len (xs_buffer s)) sp]"]) simp_all
qed (auto simp: flush_def exported_def intro!: exI [of _ "[]"])

lemma add_line_exported:
  assumes "add_line cfg ev er s = Inr s'" shows "exported ev s [er] s'"
proof -
  obtain e ref where er: "er = (e, ref)" by fastforce
  define s1 where "s1 = s\<lparr>xs_refs := xs_refs s @ [ref],
      xs_max := (if after (ex_received e) (xs_max s) then ex_received e else xs_max s)\<rparr>"
  have "andThen (if buffer_len (xs_buffer s1) + int (line_len e) > lc_part_bytes cfg then flush ev s1 else Inr s1)
      (\<lambda>s. Inr (s\<lparr>xs_buffer := xs_buffer s @ [e]\<rparr>)) = Inr s'"
    using assms unfolding add_line_def er Let_def prod.case s1_def [symmetric]
    by (cases "int (line_len e) > lc_part_bytes cfg") (simp_all only: if_True if_False sum.distinct)
  then obtain s2 where s2: "s2 = s1 \<or> flush ev s1 = Inr s2" and s': "s' = s2\<lparr>xs_buffer := xs_buffer s2 @ [e]\<rparr>"
    by (auto split: if_splits)
  have "exported ev s1 [] s2"
    using s2 flush_exported [of ev s1 s2] exported_refl by blast
  then show ?thesis by (auto simp: exported_def s' s1_def er later_def)
qed

lemma export_loop:
  assumes "for_state (export_step cr cfg c base ev created d) (enumerate k ns) s = Inr s'"
  shows "\<exists>ers. list_all2 (\<lambda>n er. export_line cr cfg ev created d n = Inr er) ns ers \<and> exported ev s ers s'"
  using assms
proof (induction ns arbitrary: k s)
  case Nil
  then show ?case by (intro exI [of _ "[]"]) (simp add: exported_refl)
next
  case (Cons n ns)
  obtain er s1 where er: "export_line cr cfg ev created d n = Inr er" "add_line cfg ev er s = Inr s1"
    and rest: "for_state (export_step cr cfg c base ev created d) (enumerate (Suc k) ns) s1 = Inr s'"
    using Cons.prems by (simp add: export_step_def [of _ _ _ _ _ _ _ "(k, n)"]) blast
  obtain ers where ers: "list_all2 (\<lambda>n er. export_line cr cfg ev created d n = Inr er) ns ers" "exported ev s1 ers s'"
    using Cons.IH [OF rest] by blast
  show ?case
    using er(1) ers exported_trans [OF add_line_exported [OF er(2)] ers(2)] by (intro exI [of _ "er # ers"]) simp
qed

text \<open>A line read back: the JSON of a time may come back in another zone.\<close>

definition same_line :: "export_record \<Rightarrow> export_record \<Rightarrow> bool" where
  "same_line e e' =
     (ex_seq e' = ex_seq e \<and> ex_content e' = ex_content e \<and> ex_record e' = ex_record e
      \<and> same_instant (ex_received e) (ex_received e'))"

lemma export_lineD:
  assumes "export_line cr cfg ev created d n = Inr (e, ref)"
  obtains r where "db_get d ''events'' (sequence_key n) = Some (DRecord r)"
    "decode_billing_record cr (Some (DRecord r)) n = Inr r"
    "source_environment_allowed (ev_env (br_event r)) (lc_sources cfg)" "receipt_time d n = Inr (ex_received e)"
    "canonical_usage_binding cr n (br_digest r) (ve_usage ev (usage_of (br_event r))) = Inr ref"
    "ex_seq e = n" "ex_content e = br_digest r" "ex_record e = DRecord r"
proof -
  define body where "body = db_get d ''events'' (sequence_key n)"
  obtain r t where r: "decode_billing_record cr body n = Inr r" "source_environment_allowed (ev_env (br_event r)) (lc_sources cfg)"
      "receipt_time d n = Inr t" "canonical_usage_binding cr n (br_digest r) (ve_usage ev (usage_of (br_event r))) = Inr ref"
      "e = \<lparr>ex_seq = n, ex_content = br_digest r, ex_received = t, ex_record = the body\<rparr>"
    using assms unfolding export_line_def body_def [symmetric] Let_def
    by (auto simp: usage_of_def split: if_splits)
  have "body = Some (DRecord r)"
    using r(1) by (auto simp: decode_billing_record_def split: option.splits sum.splits if_splits)
  with r show thesis by (intro that) (simp_all add: body_def)
qed

lemma receipt_time_not_zero: "receipt_time d n = Inr t \<Longrightarrow> \<not> is_zero t"
  by (auto simp: receipt_time_def Let_def time_defs split: if_splits option.splits gtime.splits)

lemma captured_line:
  assumes "export_line cr cfg ev created d n = Inr (e, ref)" "same_line e e'" "mf_sources m = lc_sources cfg"
    "represents cr d L" "version_of d = Some (Raw ''2'')" "1 \<le> n" "n \<le> db_seq d ''events''" "archive_floor d < n"
  shows "audit_record cr (ve_usage ev) m d e' = Inr (ex_received e, ref)"
proof -
  obtain r where r: "db_get d ''events'' (sequence_key n) = Some (DRecord r)" "decode_billing_record cr (Some (DRecord r)) n = Inr r"
      "source_environment_allowed (ev_env (br_event r)) (lc_sources cfg)" "receipt_time d n = Inr (ex_received e)"
      "canonical_usage_binding cr n (br_digest r) (ve_usage ev (usage_of (br_event r))) = Inr ref"
      "ex_seq e = n" "ex_content e = br_digest r" "ex_record e = DRecord r"
    using assms(1) by (rule export_lineD)
  have e': "ex_seq e' = n" "ex_content e' = br_digest r" "ex_record e' = DRecord r"
      "same_instant (ex_received e) (ex_received e')"
    using assms(2) r(6-8) by (auto simp: same_line_def)
  have slot: "slot_ok cr d n (entry L n)" using assms(4,6,7) by (simp add: represents_def)
  have "\<not> legacy_seq d n" by (simp add: legacy_seq_def assms(5))
  with slot_live [OF slot assms(8)] r(1) obtain b where b: "body_ok cr n (entry L n) (DRecord r)"
      "db_get d ''ids'' (fst (entry L n)) = Some (DBinding b)" "receipt_ok d n (entry L n) b" "rb_record b = sha cr (DRecord r)"
    by (metis option.inject)
  have x: "fst (entry L n) = ev_id (br_event r)" "snd (entry L n) = br_digest r" using b(1) by (auto simp: body_ok_def)
  have "validate_export_record cr e' = Inr r"
    using r(2) e' receipt_time_not_zero [OF r(4)] by (auto simp: validate_export_record_def time_defs)
  then show ?thesis
    using r(1,3,4,5) e' b(2-4) x assms(3) by (simp add: audit_record_def receipt_ok_def)
qed

lemma seq_range_offsets:
  assumes "a \<le> b"
  shows "seq_range a b = map (\<lambda>i. a + of_nat i) [0..<Suc (unat (b - a))]"
proof -
  have len: "Suc (unat b) = unat a + Suc (unat (b - a))" using assms by (simp add: unat_sub word_le_nat_alt)
  have "[unat a..<unat a + Suc (unat (b - a))] = map (\<lambda>i. i + unat a) [0..<Suc (unat (b - a))]"
    by (simp only: map_add_upt add.commute)
  then show ?thesis unfolding seq_range_def len by (simp add: o_def add.commute)
qed

lemma snapshot_parts_kind:
  "for_state (seal_snapshot_part ev) cs ps = Inr qs \<Longrightarrow> list_all (\<lambda>p. pt_kind p = ''snapshot'') ps \<Longrightarrow>
   list_all (\<lambda>p. pt_kind p = ''snapshot'') qs"
  by (erule for_state_invariant [where I = "list_all (\<lambda>p. pt_kind p = ''snapshot'')"])
     (auto simp: seal_snapshot_part_def make_part_def Let_def)

lemma sealed_from_kind: "sealed_from ev i off ess ps \<Longrightarrow> list_all (\<lambda>p. pt_kind p = ''events'') ps"
  by (induction ev i off ess ps rule: sealed_from.induct) (auto simp: make_part_def split: sum.splits list.splits)

lemma sealed_from_size: "sealed_from ev i off ess ps \<Longrightarrow> (\<Sum>p \<leftarrow> ps. pt_plain p) = buffer_len (concat ess)"
  by (induction ev i off ess ps rule: sealed_from.induct) (auto simp: make_part_def split: sum.splits list.splits)

lemma other_kinds:
  assumes "list_all (\<lambda>p. pt_kind p = ''snapshot'') ps" "list_all (\<lambda>p. pt_kind p = ''events'') qs"
  shows "filter (\<lambda>p. pt_kind p = ''events'') (ps @ qs) = qs"
    "(\<Sum>p \<leftarrow> ps @ qs. if pt_kind p = ''events'' then pt_plain p else 0) = (\<Sum>p \<leftarrow> qs. pt_plain p)"
proof -
  have "filter (\<lambda>p. pt_kind p = ''events'') ps = []" using assms(1) by (auto simp: filter_empty_conv list_all_iff)
  moreover have "filter (\<lambda>p. pt_kind p = ''events'') qs = qs" using assms(2) by (auto simp: filter_id_conv list_all_iff)
  ultimately show f: "filter (\<lambda>p. pt_kind p = ''events'') (ps @ qs) = qs" by simp
  show "(\<Sum>p \<leftarrow> ps @ qs. if pt_kind p = ''events'' then pt_plain p else 0) = (\<Sum>p \<leftarrow> qs. pt_plain p)"
    by (simp only: sum_list_map_filter' [symmetric] f)
qed

lemma capture_from_bounds:
  assumes "capture_from d \<noteq> 0" shows "archive_floor d < capture_from d" "capture_from d \<le> db_seq d ''events''"
proof -
  define n where "n = meta_uint d ''captured_through'' + 1"
  define fl where "fl = archive_floor d"
  have start: "capture_from d = (if n \<le> fl then fl + 1 else n)" "capture_from d \<le> db_seq d ''events''"
    using assms unfolding capture_from_def Let_def n_def [symmetric] fl_def [symmetric]
    by (auto simp: not_less split: if_splits)
  show "archive_floor d < capture_from d"
  proof (cases "n \<le> fl")
    case True
    then have "fl + 1 \<noteq> 0" using assms start(1) by simp
    then have "fl \<noteq> - 1" by auto
    then show ?thesis using True start(1) u64_Suc(2) by (simp add: fl_def)
  qed (simp add: start(1) fl_def [symmetric])
  show "capture_from d \<le> db_seq d ''events''" by (rule start(2))
qed

text \<open>What a capture knows of its range and of its export.\<close>

lemma build_setE:
  assumes "build_set cr cfg c base ev now d = Inr (m, b)"
  obtains n dg ps s where "m = complete_set cr (set_head cr cfg (ve_set ev) now d) n dg s"
    "ready cfg d = Inr ()" "list_all (\<lambda>p. pt_kind p = ''snapshot'') ps"
    "export_all cr cfg c base ev (set_head cr cfg (ve_set ev) now d) ps d = Inr s"
proof -
  obtain n dg ps s where parts: "for_state (seal_snapshot_part ev) (chunks (lc_part_bytes cfg) n 0) [] = Inr ps"
    and rest: "m = complete_set cr (set_head cr cfg (ve_set ev) now d) n dg s" "ready cfg d = Inr ()"
      "export_all cr cfg c base ev (set_head cr cfg (ve_set ev) now d) ps d = Inr s"
    using assms by (auto simp: build_set_def Let_def)
  show thesis by (rule that [OF rest(1,2) snapshot_parts_kind [OF parts] rest(3)]) simp
qed

lemma exportE:
  assumes "export_all cr cfg c base ev m ps d = Inr s"
  obtains ers ess qs where
    "list_all2 (\<lambda>n er. export_line cr cfg ev (mf_created m) d n = Inr er) (if mf_from m > 0 then seq_range (mf_from m) (mf_high m) else []) ers"
    "map fst ers = concat ess" "sealed_from ev 1 0 ess qs" "xs_parts s = ps @ qs" "xs_refs s = map snd ers"
    "xs_max s = fold later (map (ex_received \<circ> fst) ers) zero_time"
proof -
  define s0 where "s0 = \<lparr>xs_parts = ps, xs_buffer = [], xs_offset = 0, xs_ordinal = 1, xs_refs = [], xs_max = zero_time\<rparr>"
  obtain s1 where s1: "for_state (export_step cr cfg c base ev (mf_created m) d)
        (enumerate 0 (if mf_from m > 0 then seq_range (mf_from m) (mf_high m) else [])) s0 = Inr s1" "flush ev s1 = Inr s"
    using assms by (auto simp: export_all_def s0_def)
  obtain ers where ers: "list_all2 (\<lambda>n er. export_line cr cfg ev (mf_created m) d n = Inr er)
        (if mf_from m > 0 then seq_range (mf_from m) (mf_high m) else []) ers" "exported ev s0 ers s1"
    using export_loop [OF s1(1)] by blast
  have "exported ev s0 ers s" using exported_trans [OF ers(2)] flush_exported [OF s1(2)] by fastforce
  with ers(1) flush_exported [OF s1(2)] show thesis
    by (auto simp: exported_def s0_def intro: that)
qed

text \<open>C29: An export that was captured passes the audit. Whatever capture succeeds on a database that
  represents a ledger, its lines, sealed into the event parts in order and as long as the
  manifest says, are accepted against the same database, also when their times are read back
  in another zone: the completion of an undamaged backup is never refused by the audit.\<close>

theorem captured_export_passes_the_audit:
  assumes "build_set cr cfg c base ev now d = Inr (m, b)" "represents cr d L"
  shows "\<exists>ess. sealed_from ev 1 0 ess (filter (\<lambda>p. pt_kind p = ''events'') (mf_parts m))
     \<and> export_limit m = buffer_len (concat ess) \<and> length (concat ess) = unat (mf_count m)
     \<and> (\<forall>es lines. list_all2 same_line (concat ess) es \<longrightarrow> lines (export_limit m + 1) = (map Some es, None) \<longrightarrow>
          validate_snapshot_exports cr (ve_usage ev) (\<lambda>_. None) (Inr ()) d m lines = Inr ())"
proof -
  define h where "h = set_head cr cfg (ve_set ev) now d"
  obtain n dg ps s where m: "m = complete_set cr h n dg s" and rdy: "ready cfg d = Inr ()"
    and ps: "list_all (\<lambda>p. pt_kind p = ''snapshot'') ps" and s: "export_all cr cfg c base ev h ps d = Inr s"
    using build_setE [OF assms(1)] unfolding h_def by metis
  obtain ers ess qs where ers: "list_all2 (\<lambda>n er. export_line cr cfg ev (mf_created h) d n = Inr er)
        (if mf_from h > 0 then seq_range (mf_from h) (mf_high h) else []) ers"
      "map fst ers = concat ess" "sealed_from ev 1 0 ess qs" "xs_parts s = ps @ qs" "xs_refs s = map snd ers"
      "xs_max s = fold later (map (ex_received \<circ> fst) ers) zero_time"
    using exportE [OF s] by metis
  have head: "mf_high h = db_seq d ''events''" "mf_from h = capture_from d" "mf_sources h = lc_sources cfg"
      "mf_store h = text_or_empty (meta_get d ''identity'')"
      "mf_count h = (if mf_from h > 0 then mf_high h - mf_from h + 1 else 0)"
    by (simp_all add: h_def set_head_def Let_def)
  have from_ok: "archive_floor d < mf_from h" "mf_from h \<le> mf_high h" if "mf_from h \<noteq> 0"
    using capture_from_bounds [of d] that head by simp_all
  have ver: "version_of d = Some (Raw ''2'')" "db_has d ''meta''" "db_has d ''events''"
    using rdy assms(2) by (auto simp: ready_def represents_def versioned_def split: if_splits)
  have kinds: "filter (\<lambda>p. pt_kind p = ''events'') (mf_parts m) = qs" "export_limit m = buffer_len (concat ess)"
    using other_kinds [OF ps sealed_from_kind [OF ers(3)]] sealed_from_size [OF ers(3)]
    by (simp_all add: m complete_set_def ers(4) export_limit_def)
  define ns where "ns = (if mf_from h > 0 then seq_range (mf_from h) (mf_high h) else [])"
  have ns: "ns = map (\<lambda>i. mf_from h + of_nat i) [0..<unat (mf_count h)]"
  proof (cases "mf_from h = 0")
    case False
    have "mf_high h - mf_from h \<noteq> - 1"
    proof
      assume "mf_high h - mf_from h = - 1"
      then have "unat (mf_high h - mf_from h) = unat (- 1 :: u64)" by (rule arg_cong)
      moreover have "unat (mf_from h) > 0" using False by (simp add: unat_gt_0)
      moreover have "unat (mf_high h) < 2 ^ LENGTH(64)" by (rule unsigned_less)
      ultimately show False using from_ok(2) [OF False] by (simp add: unat_sub unsigned_minus_1_eq_mask mask_eq_exp_minus_1)
    qed
    then show ?thesis
      using False seq_range_offsets [OF from_ok(2) [OF False]] u64_Suc(1)
      by (simp add: ns_def head(5) word_gt_0 del: upt_Suc)
  qed (simp add: ns_def head(5))
  have len: "length ers = unat (mf_count h)" and each: "\<And>i. i < length ers \<Longrightarrow>
      export_line cr cfg ev (mf_created h) d (mf_from h + of_nat i) = Inr (ers ! i)"
    using ers(1) unfolding ns_def [symmetric] ns by (simp_all add: list_all2_conv_all_nth)
  have accepted: "validate_snapshot_exports cr (ve_usage ev) (\<lambda>_. None) (Inr ()) d m lines = Inr ()"
    if es: "list_all2 same_line (concat ess) es" "lines (export_limit m + 1) = (map Some es, None)" for es lines
  proof -
    have l: "length es = length ers" using es(1) by (simp add: ers(2) [symmetric] list_all2_lengthD [symmetric])
    have same: "same_line (fst (ers ! i)) (es ! i)" if "i < length ers" for i
      using es(1) that unfolding ers(2) [symmetric] by (simp add: list_all2_conv_all_nth)
    have within: "1 \<le> mf_from h + of_nat i" "mf_from h + of_nat i \<le> mf_high h" "archive_floor d < mf_from h + of_nat i"
      if "i < length ers" for i
    proof -
      have i: "i < unat (mf_count m)" and same: "mf_from m = mf_from h" "mf_high m = mf_high h"
        using that len by (simp_all add: m complete_set_def)
      note range = range_within [OF build_set_names(4) [OF assms(1)] i, unfolded same]
      show "1 \<le> mf_from h + of_nat i" "mf_from h + of_nat i \<le> mf_high h" by (rule range)+
      have "0 < unat (mf_count m)" using i by simp
      from range_within(1) [OF build_set_names(4) [OF assms(1)] this] have "mf_from h \<noteq> 0" by (auto simp: same)
      from from_ok(1) [OF this] range(3) show "archive_floor d < mf_from h + of_nat i"
        by (simp add: word_less_nat_alt)
    qed
    have agree: "list_all2 (\<lambda>e x. audit_record cr (ve_usage ev) m d e = Inr x) es (map (\<lambda>(e, ref). (ex_received e, ref)) ers)"
    proof (rule list_all2_all_nthI)
      fix i assume "i < length es"
      then have i: "i < length ers" by (simp add: l)
      obtain e ref where er: "ers ! i = (e, ref)" by fastforce
      show "audit_record cr (ve_usage ev) m d (es ! i) = Inr (map (\<lambda>(e, ref). (ex_received e, ref)) ers ! i)"
        using captured_line [OF each [OF i, unfolded er] _ _ assms(2) ver(1) within(1) [OF i] _ within(3) [OF i], of "es ! i" m]
          same [OF i] within(2) [OF i] i
        by (simp add: er m complete_set_def head(1,3))
    qed (simp add: l)
    have seq_of: "ex_seq (es ! i) = mf_from h + of_nat i" if i: "i < length ers" for i
    proof -
      obtain e ref where er: "ers ! i = (e, ref)" by fastforce
      show ?thesis using same [OF i] each [OF i] unfolding er by (auto simp: same_line_def elim: export_lineD)
    qed
    have seqs: "map ex_seq es = map (\<lambda>i. mf_from m + xa_count audit_start + of_nat i) [0..<length es]"
      using seq_of by (intro nth_equalityI) (simp_all add: l audit_start_def m complete_set_def)
    have scan: "for_state (audit_line cr (ve_usage ev) (\<lambda>_. None) m d) (enumerate 0 (map Some es)) audit_start =
        Inr (audited (map (\<lambda>(e, ref). (ex_received e, ref)) ers) audit_start)"
      by (rule audit_scan_accepts [OF agree _ seqs]) (simp_all add: l len audit_start_def m complete_set_def)
    have totals: "xa_count (audited (map (\<lambda>(e, ref). (ex_received e, ref)) ers) audit_start) = mf_count m"
        "xa_refs (audited (map (\<lambda>(e, ref). (ex_received e, ref)) ers) audit_start) = xs_refs s"
        "xa_max (audited (map (\<lambda>(e, ref). (ex_received e, ref)) ers) audit_start) = mf_max_received m"
      using ers(5,6) len
      by (simp_all add: audited_def audit_start_def m complete_set_def case_prod_unfold o_def)
    show ?thesis
      using ver(2,3) head(1,2,4) scan totals es(2)
      by (simp add: validate_snapshot_exports_def m complete_set_def same_instant_def)
  qed
  show ?thesis
    using ers(2,3) kinds accepted len by (intro exI [of _ ess]) (simp add: m complete_set_def flip: ers(2))
qed

section \<open>A capture of one event\<close>

definition backup_config :: lifecycle_config where
  "backup_config = toy_config\<lparr>lc_stack := ''s'', lc_key_id := ''k'', lc_recipients := [''r''], lc_part_bytes := 1048576,
     lc_scratch_capacity := 1099511627776, lc_backup := True\<rparr>"

definition some_usage :: usage_event where
  "some_usage = \<lparr>ue_id = ''u'', ue_service = ''mqtt'', ue_cloud = ''c'', ue_time = toy_time, ue_start = toy_time,
     ue_end = add_ns toy_time hour, ue_epoch = ''1'', ue_seq = 1, ue_source = ''s'',
     ue_measurements = [\<lparr>um_metric = ''publish_count'', um_unit = ''requests'', um_quantity = 1, um_scale = 0\<rparr>],
     ue_dimensions = []\<rparr>"

definition small_part :: sealed_part where
  "small_part = \<lparr>sp_plain_sha = toy_sha, sp_cipher = 8, sp_cipher_sha = toy_sha\<rparr>"

definition capture_case :: capture_env where
  "capture_case = \<lparr>ve_set = ''x'', ve_mkdir = Inr (), ve_free = Inr 1099511627776, ve_used = Inr 0, ve_size = 8, ve_leaf = 8,
     ve_snapshot = Inr (8, toy_sha), ve_reopen = Inr (), ve_seal_snapshot = (\<lambda>_ _ _. Inr small_part),
     ve_seal_events = (\<lambda>_ _ _. Inr small_part), ve_usage = (\<lambda>_. Inr some_usage), ve_publish = Inr (), ve_release = Inr (),
     ve_finish = Inr (), ve_store = True, ve_put = (\<lambda>_ _ _. Inr ()), ve_clean = (\<lambda>_ _ _. Inr ()),
     ve_io = (\<lambda>_. cl_io toy_call)\<rparr>"

definition some_line :: export_record where
  "some_line = \<lparr>ex_seq = 1, ex_content = toy_sha, ex_received = toy_time, ex_record = one_body\<rparr>"

definition some_ref :: record_binding where
  "some_ref = \<lparr>rf_seq = 1, rf_digest = toy_sha, rf_usage = ''u'', rf_event_sha = toy_sha\<rparr>"

lemma plain_texts: "trim_space ''u'' = ''u''" "trim_space ''mqtt'' = ''mqtt''" "trim_space ''c'' = ''c''" "trim_space ''1'' = ''1''"
    "trim_space ''s'' = ''s''"
  by (simp_all add: trim_space_visible visible_def)

lemma some_times: "utc (add_ns toy_time hour) = add_ns toy_time hour" "truncate_us toy_time = toy_time"
    "truncate_us (add_ns toy_time hour) = add_ns toy_time hour" "time_json_ok (add_ns toy_time hour)"
    "\<not> is_zero (add_ns toy_time hour)" "after (add_ns toy_time hour) toy_time"
  by (simp_all add: truncate_us_def time_json_ok_def time_defs toy_time_def hour_def day_def minute_def second_def Let_def)

lemma some_usage_binds: "canonical_usage_binding toy_crypto 1 toy_sha (Inr some_usage) = Inr some_ref"
proof -
  have sha: "valid_sha toy_sha" "sha toy_crypto x = toy_sha" for x using toy_sha_ok by (simp_all add: toy_crypto_def toy_sha_def)
  have trimmed: "trimmed_usage some_usage = some_usage"
    by (simp add: trimmed_usage_def some_usage_def plain_texts some_times toy_time_facts)
  have stored: "stored_usage some_usage = some_usage" by (simp add: stored_usage_def some_usage_def some_times)
  have valid: "validate_usage some_usage = Inr ()"
    using toy_time_facts some_times by (simp add: validate_usage_def some_usage_def max_int64_def metric_allowed_def)
  have "usage_json_ok some_usage" using toy_time_facts some_times by (simp add: usage_json_ok_def some_usage_def)
  moreover have "ue_id some_usage = ''u''" by (simp add: some_usage_def)
  ultimately show ?thesis
    using sha by (simp add: canonical_usage_binding_def trimmed stored valid Let_def max_int64_def some_ref_def)
qed

lemma some_line_exported:
  "export_line toy_crypto backup_config capture_case (GTime (738200 * day) 0) planned_db 1 = Inr (some_line, some_ref)"
proof -
  have t: "receipt_time planned_db 1 = Inr toy_time" "\<not> after toy_time (GTime (738200 * day) 0)"
    using toy_time_facts by (simp_all add: receipt_time_def planned_db_has toy_entries_def after_def toy_time_def day_def hour_def minute_def second_def)
  have u: "ve_usage capture_case x = Inr some_usage" "lc_sources backup_config = [''e'']" "ev_env (toy_event ''a'') = ''e''" for x
    by (simp_all add: capture_case_def backup_config_def toy_config_def toy_event_def)
  show ?thesis
    using one_body_decodes some_usage_binds toy_time_facts(2)
    by (simp add: export_line_def t u source_environment_allowed_def some_line_def Let_def)
qed

definition captured_manifest :: manifest where
  "captured_manifest = toy_manifest\<lparr>mf_created := GTime (738200 * day) 0,
     mf_parts := [make_part ''snapshot'' 1 0 8 small_part, make_part ''events'' 1 0 (int (line_len some_line)) small_part]\<rparr>"

lemma some_line_len: "0 < line_len some_line" "line_len some_line < 2000"
proof -
  have "event_json_len (toy_event ''a'') \<le> 1000" by (rule toy_event_small) simp
  then show "0 < line_len some_line" "line_len some_line < 2000"
    using toy_time_facts(4)
    by (simp_all add: line_len_def some_line_def one_body_def body_len_def record_len_def toy_digest_def [folded toy_sha_def]
        members_len_def quoted_uint_len_def small_decimals)
qed

lemma dec_nat_short: "n < 10000 \<Longrightarrow> length (dec_nat n) \<le> 4"
  by (simp add: dec_nat.simps)

lemma part_names: "make_part ''snapshot'' 1 off sz sp = \<lparr>pt_name = ''snapshot-000001.zst.age'', pt_kind = ''snapshot'', pt_ordinal = 1,
    pt_offset = off, pt_plain = sz, pt_plain_sha = sp_plain_sha sp, pt_cipher = sp_cipher sp, pt_cipher_sha = sp_cipher_sha sp\<rparr>"
  "make_part ''events'' 1 off sz sp = \<lparr>pt_name = ''events-000001.zst.age'', pt_kind = ''events'', pt_ordinal = 1,
    pt_offset = off, pt_plain = sz, pt_plain_sha = sp_plain_sha sp, pt_cipher = sp_cipher sp, pt_cipher_sha = sp_cipher_sha sp\<rparr>"
proof -
  have "pad 6 (dec_int 1) = ''000001''" by code_simp
  then show "make_part ''snapshot'' 1 off sz sp = \<lparr>pt_name = ''snapshot-000001.zst.age'', pt_kind = ''snapshot'', pt_ordinal = 1,
    pt_offset = off, pt_plain = sz, pt_plain_sha = sp_plain_sha sp, pt_cipher = sp_cipher sp, pt_cipher_sha = sp_cipher_sha sp\<rparr>"
   "make_part ''events'' 1 off sz sp = \<lparr>pt_name = ''events-000001.zst.age'', pt_kind = ''events'', pt_ordinal = 1,
    pt_offset = off, pt_plain = sz, pt_plain_sha = sp_plain_sha sp, pt_cipher = sp_cipher sp, pt_cipher_sha = sp_cipher_sha sp\<rparr>"
    by (simp_all add: make_part_def)
qed

lemma captured_manifest_ok: "validate_manifest captured_manifest = Inr ()"
proof -
  have store: "length toy_store = 32" "hex_of_bytes 16 toy_store"
    by (simp_all add: toy_store_def hex_of_bytes_def is_lower_hex_def list_all_length)
  have safe: "safe_id ''e''" "safe_id ''s''" "safe_id ''x''" "safe_id ''k''" "safe_id ''snapshot-000001.zst.age''"
      "safe_id ''events-000001.zst.age''"
    by (simp_all add: safe_id_def safe_char_def Let_def)
  have base: "path_base ''snapshot-000001.zst.age'' = ''snapshot-000001.zst.age''"
      "path_base ''events-000001.zst.age'' = ''events-000001.zst.age''"
    by (simp_all add: path_base_def)
  have times: "\<not> is_zero (GTime (738200 * day) 0)" "\<not> after toy_time (GTime (738200 * day) 0)"
    by (simp_all add: time_defs toy_time_def day_def hour_def minute_def second_def)
  have "valid_sha toy_sha" using toy_sha_ok by simp
  then show ?thesis
    using store safe base times toy_time_facts(1) some_line_len
    by (simp add: validate_manifest_def captured_manifest_def toy_manifest_def part_names small_part_def bounds_defs part_scan_init_def
        part_ok_def part_next_def Let_def)
qed

lemma captured_manifest_small: "manifest_len captured_manifest \<le> max_manifest_bytes"
proof -
  have "length (dec_nat (line_len some_line)) \<le> 4" using some_line_len(2) by (intro dec_nat_short) simp
  moreover have "time_text_len (GTime (738200 * day) 0) = 20" by (simp add: time_text_len_def Let_def day_def hour_def minute_def second_def)
  ultimately show ?thesis
    using toy_text_lens toy_time_facts(4)
    by (simp add: manifest_len_def captured_manifest_def toy_manifest_def part_names small_part_def max_manifest_bytes_def small_decimals
      small_len_defs del: text_json_len.simps(2))
qed

lemma captured_none: "meta_get planned_db ''captured_through'' = None"
  by (simp add: planned_db_def toy_entries_def db_defs)

lemma after_zero: "after toy_time zero_time"
  by (simp add: after_def zero_time_def toy_time_def day_def hour_def minute_def second_def)

lemma some_capture:
  "\<exists>b. build_set toy_crypto backup_config background 0 capture_case (GTime (738200 * day) 0) planned_db = Inr (captured_manifest, b)"
proof -
  let ?now = "GTime (738200 * day) 0"
  have rdy: "ready backup_config planned_db = Inr ()" using planned_db_ready by (simp add: ready_def backup_config_def)
  define h where "h = set_head toy_crypto backup_config ''x'' ?now planned_db"
  have head: "h = toy_manifest\<lparr>mf_created := ?now, mf_max_received := zero_time, mf_bindings := [], mf_snapshot_bytes := 0,
      mf_snapshot_sha := [], mf_parts := []\<rparr>"
    by (simp add: h_def set_head_def toy_manifest_def backup_config_def toy_config_def no_lifecycle_def capture_from_def text_or_empty_def
        archive_version_def toy_crypto_def toy_sha_def Let_def utc_def captured_none)
  have space: "check_space backup_config capture_case 1 = Inr ()"
    by (simp add: check_space_def capture_case_def backup_config_def bounds_defs two_gib_def two_mib_def Let_def)
  have snap: "for_state (seal_snapshot_part capture_case) (chunks (lc_part_bytes backup_config) 8 0) [] =
      Inr [make_part ''snapshot'' 1 0 8 small_part]"
    by (simp add: chunks.simps backup_config_def seal_snapshot_part_def capture_case_def Let_def)
  have range: "seq_range 1 1 = [1 :: u64]" by (simp add: seq_range_def)
  have export: "export_all toy_crypto backup_config background 0 capture_case h [make_part ''snapshot'' 1 0 8 small_part] planned_db =
      Inr \<lparr>xs_parts = mf_parts captured_manifest, xs_buffer = [], xs_offset = int (line_len some_line), xs_ordinal = 2,
           xs_refs = [some_ref], xs_max = toy_time\<rparr>"
  proof -
    note after_zero
    moreover have "mf_from h = 1" "mf_high h = 1" "mf_created h = ?now" by (simp_all add: head toy_manifest_def)
    moreover have "\<not> int (line_len some_line) > lc_part_bytes backup_config" using some_line_len by (simp add: backup_config_def)
    moreover have "ex_received some_line = toy_time" by (simp add: some_line_def)
    ultimately show ?thesis
      using some_line_exported
      by (simp add: export_all_def export_step_def ctx_check_def background_def range add_line_def Let_def buffer_len_def flush_def
          capture_case_def captured_manifest_def)
  qed
  have "complete_set toy_crypto h 8 toy_sha \<lparr>xs_parts = mf_parts captured_manifest, xs_buffer = [], xs_offset = int (line_len some_line),
      xs_ordinal = 2, xs_refs = [some_ref], xs_max = toy_time\<rparr> = captured_manifest"
    by (simp add: complete_set_def head captured_manifest_def toy_manifest_def toy_crypto_def toy_sha_def)
  moreover have "marshal_manifest captured_manifest = Inr (DManifest captured_manifest)"
    using captured_manifest_ok captured_manifest_small toy_time_facts(2)
    by (simp add: marshal_manifest_def manifest_json_ok_def captured_manifest_def toy_manifest_def time_json_ok_def
        day_def hour_def minute_def second_def)
  moreover have "mf_count h = 1" by (simp add: head toy_manifest_def)
  moreover have "ve_set capture_case = ''x''" "ve_snapshot capture_case = Inr (8, toy_sha)" "ve_reopen capture_case = Inr ()"
    by (simp_all add: capture_case_def)
  ultimately show ?thesis
    using rdy space snap export by (simp add: build_set_def Let_def flip: h_def)
qed

theorem captured_export_passes_the_audit_witness:
  "\<exists>m b ess. build_set toy_crypto backup_config background 0 capture_case (GTime (738200 * day) 0) planned_db = Inr (m, b)
     \<and> length (concat ess) = unat (mf_count m)
     \<and> validate_snapshot_exports toy_crypto (\<lambda>_. Inr some_usage) (\<lambda>_. None) (Inr ()) planned_db m (\<lambda>_. (map Some (concat ess), None)) = Inr ()"
proof -
  define m where "m = captured_manifest"
  obtain b where m: "build_set toy_crypto backup_config background 0 capture_case (GTime (738200 * day) 0) planned_db = Inr (m, b)"
    using some_capture unfolding m_def by blast
  obtain ess where ess: "length (concat ess) = unat (mf_count m)" and ok: "\<And>es lines. list_all2 same_line (concat ess) es \<Longrightarrow>
      lines (export_limit m + 1) = (map Some es, None) \<Longrightarrow>
      validate_snapshot_exports toy_crypto (ve_usage capture_case) (\<lambda>_. None) (Inr ()) planned_db m lines = Inr ()"
    using captured_export_passes_the_audit [OF m planned_db_represents] by blast
  have "list_all2 same_line (concat ess) (concat ess)" by (rule list.rel_refl) (simp add: same_line_def same_instant_def)
  from ok [OF this, of "\<lambda>_. (map Some (concat ess), None)"] m ess show ?thesis
    by (auto simp: capture_case_def)
qed

theorem accepted_export_is_the_ledger_witness:
  "\<exists>es :: export_record list. map ex_seq es = [1] \<and> list_all2 (\<lambda>e x. body_ok toy_crypto (ex_seq e) x (ex_record e) \<and> ex_content e = snd x) es [(''a'', toy_sha)]"
proof -
  define m where "m = captured_manifest"
  have one: "mf_from m = 1" "mf_count m = 1" "validate_manifest m = Inr ()"
    using captured_manifest_ok by (simp_all add: m_def captured_manifest_def toy_manifest_def)
  have agree: "audit_record toy_crypto (\<lambda>_. Inr some_usage) m planned_db some_line = Inr (toy_time, some_ref)"
  proof -
    have "same_line some_line some_line" by (simp add: same_line_def same_instant_def)
    moreover have "mf_sources m = lc_sources backup_config"
      by (simp add: m_def captured_manifest_def toy_manifest_def backup_config_def toy_config_def)
    ultimately show ?thesis
      using captured_line [OF some_line_exported _ _ planned_db_represents, of some_line m]
      by (simp add: capture_case_def some_line_def)
  qed
  have "validate_snapshot_exports toy_crypto (\<lambda>_. Inr some_usage) background (Inr ()) planned_db m (\<lambda>_. ([Some some_line], None)) = Inr ()"
  proof -
    have scan: "for_state (audit_line toy_crypto (\<lambda>_. Inr some_usage) background m planned_db) (enumerate 0 [Some some_line]) audit_start =
        Inr \<lparr>xa_count = 1, xa_max = toy_time, xa_refs = [some_ref]\<rparr>"
      using agree after_zero by (simp add: audit_line_def ctx_check_def background_def audit_start_def one some_line_def)
    have "db_has planned_db ''meta''" "db_has planned_db ''events''" by (simp_all add: planned_db_has toy_entries_def)
    moreover have "capture_from planned_db = 1" by (simp add: capture_from_def captured_none Let_def)
    moreover have "text_or_empty (meta_get planned_db ''identity'') = mf_store m" "mf_high m = 1" "mf_max_received m = toy_time"
        "mf_bindings m = sha toy_crypto (DRefs [some_ref])"
      by (simp_all add: text_or_empty_def m_def captured_manifest_def toy_manifest_def toy_crypto_def toy_sha_def)
    ultimately show ?thesis using scan by (simp add: validate_snapshot_exports_def one same_instant_def)
  qed
  from accepted_export_is_the_ledger [OF this one(3) planned_db_represents] obtain es :: "export_record list" where
    "map ex_seq es = map (\<lambda>i. mf_from m + of_nat i) [0..<unat (mf_count m)]"
    "list_all2 (\<lambda>e x. body_ok toy_crypto (ex_seq e) x (ex_record e) \<and> ex_content e = snd x)
       es (take (unat (mf_count m)) (drop (unat (mf_from m) - 1) [(''a'', toy_sha)]))"
    by blast
  then have "map ex_seq es = [1]" "list_all2 (\<lambda>e x. body_ok toy_crypto (ex_seq e) x (ex_record e) \<and> ex_content e = snd x) es
      [(''a'', toy_sha)]"
    unfolding one by simp_all
  then show ?thesis by (intro exI [of _ es] conjI)
qed

end
