(* ===== verification/ObjectStore.thy ===== *)
theory ObjectStore
  imports Capture ArchiveSample
begin

text \<open>
  \<open>billing_s3.go\<close>: the checks of the private object store, its signed requests, and
  \<open>PutImmutable\<close>. The network with the store behind it is the argument \<open>remote\<close>, HMAC-SHA256 the
  argument \<open>hmac\<close> and \<open>url.Parse\<close> the argument \<open>parse\<close>.
\<close>

section \<open>Names\<close>

definition label_char :: "char \<Rightarrow> bool" where
  "label_char c = (let n = of_char c :: nat in (97 \<le> n \<and> n \<le> 122) \<or> (48 \<le> n \<and> n \<le> 57))"

text \<open>\<open>billingBucketLabelPattern\<close>: words of lower-case letters and digits, joined by single hyphens.\<close>

definition bucket_label :: "bytes \<Rightarrow> bool" where
  "bucket_label s = list_all (\<lambda>w. w \<noteq> [] \<and> list_all label_char w) (split_on (CHR ''-'') s)"

record s3_config =
  s3_endpoint :: bytes
  s3_region :: bytes
  s3_signing_region :: bytes
  s3_bucket :: bytes
  s3_env :: bytes

definition valid_billing_backup_bucket :: "s3_config \<Rightarrow> bool" where
  "valid_billing_backup_bucket c =
     (s3_env c \<noteq> ''shared'' \<and> bucket_label (s3_env c) \<and> bucket_label (s3_region c) \<and> length (s3_bucket c) \<le> 63
      \<and> s3_bucket c = ''rtk-cloud-'' @ s3_env c @ ''-billing-backup-'' @ s3_region c)"

record s3_store =
  ss_config :: s3_config
  ss_access :: bytes
  ss_secret :: bytes

definition new_s3_store :: "(bytes \<Rightarrow> parsed_url option) \<Rightarrow> s3_config \<Rightarrow> bytes \<Rightarrow> bytes \<Rightarrow> go_error + s3_store" where
  "new_s3_store parse c access secret =
     (let c = (if s3_signing_region c = [] then c\<lparr>s3_signing_region := ''us-east-1''\<rparr> else c);
          refused = Inl (ErrMsg ''invalid private environment-scoped backup object store'')
      in case parse (s3_endpoint c) of
           None \<Rightarrow> refused
         | Some u \<Rightarrow>
             if pu_scheme u \<noteq> ''https'' \<or> pu_host u = [] \<or> pu_user u \<or> (pu_path u \<noteq> [] \<and> pu_path u \<noteq> ''/'')
                \<or> pu_query u \<noteq> [] \<or> pu_fragment u \<noteq> [] \<or> \<not> valid_billing_backup_bucket c
                \<or> \<not> safe_id (s3_signing_region c) \<or> access = [] \<or> secret = []
             then refused
             else Inr \<lparr>ss_config = c, ss_access = access, ss_secret = secret\<rparr>)"

section \<open>Signed requests\<close>

definition upper_hex :: "nat \<Rightarrow> char" where
  "upper_hex n = (if n < 10 then char_of (48 + n) else char_of (55 + n))"

definition lower_hex :: "nat \<Rightarrow> char" where
  "lower_hex n = (if n < 10 then char_of (48 + n) else char_of (87 + n))"

definition hex_encode :: "bytes \<Rightarrow> bytes" where
  "hex_encode s = concat (map (\<lambda>c. let n = of_char c :: nat in [lower_hex (n div 16), lower_hex (n mod 16)]) s)"

text \<open>Escaping in a URL; \<open>keeps\<close> tells which bytes stay.\<close>

definition unreserved :: "char \<Rightarrow> bool" where
  "unreserved c =
     (let n = of_char c :: nat
      in (97 \<le> n \<and> n \<le> 122) \<or> (65 \<le> n \<and> n \<le> 90) \<or> (48 \<le> n \<and> n \<le> 57) \<or> c \<in> set ''-_.~'')"

definition path_byte :: "char \<Rightarrow> bool" where "path_byte c = (unreserved c \<or> c \<in> set ''$&+,/:;=@'')"
definition segment_byte :: "char \<Rightarrow> bool" where "segment_byte c = (unreserved c \<or> c \<in> set ''$&+:=@'')"

definition percent :: "(char \<Rightarrow> bool) \<Rightarrow> bytes \<Rightarrow> bytes" where
  "percent keeps s =
     concat (map (\<lambda>c. if keeps c then [c]
                      else let n = of_char c :: nat in [CHR ''%'', upper_hex (n div 16), upper_hex (n mod 16)]) s)"

text \<open>\<open>u.EscapedPath()\<close> of a path set by the program.\<close>

definition escaped_path :: "bytes \<Rightarrow> bytes" where
  "escaped_path p = (if p = ''*'' then p else percent path_byte p)"

text \<open>The layouts \<open>20060102\<close> and \<open>20060102T150405Z\<close> of a time in UTC.\<close>

definition amz_date :: "gtime \<Rightarrow> bytes" where
  "amz_date t =
     (case civil (instant t div day) of (y, m, d) \<Rightarrow> pad 4 (dec_int y) @ pad 2 (dec_int m) @ pad 2 (dec_int d))"

definition amz_time :: "gtime \<Rightarrow> bytes" where
  "amz_time t =
     (let s = instant t mod day div second
      in amz_date t @ ''T'' @ pad 2 (dec_int (s div 3600)) @ pad 2 (dec_int (s div 60 mod 60)) @ pad 2 (dec_int (s mod 60)) @ ''Z'')"

definition signing_key :: "(bytes \<Rightarrow> bytes \<Rightarrow> bytes) \<Rightarrow> bytes \<Rightarrow> bytes \<Rightarrow> bytes \<Rightarrow> bytes" where
  "signing_key hmac secret date region =
     hmac (hmac (hmac (hmac (''AWS4'' @ secret) date) region) ''s3'') ''aws4_request''"

definition nl :: bytes where "nl = [CHR 0x0A]"

record s3_message =
  sm_method :: bytes
  sm_host :: bytes
  sm_path :: bytes
  sm_headers :: "(bytes \<times> bytes) list"
  sm_length :: int

definition s3_request ::
    "crypto \<Rightarrow> (bytes \<Rightarrow> bytes \<Rightarrow> bytes) \<Rightarrow> (bytes \<Rightarrow> parsed_url option) \<Rightarrow> gtime \<Rightarrow> s3_store \<Rightarrow> bytes \<Rightarrow> bytes \<Rightarrow> bytes \<Rightarrow> int \<Rightarrow>
     go_error + s3_message" where
  "s3_request cr hmac parse now st verb key digest sz =
     (if \<not> starts_with key ''billing-raw/'' \<and> \<not> starts_with key ''billing-inbox-snapshots/'' then Inl ErrLifecycleConflict
      else if \<not> list_all safe_id (split_on (CHR ''/'') key) then Inl ErrLifecycleConflict
      else case parse (s3_endpoint (ss_config st)) of
        None \<Rightarrow> Inl ErrPanic
      | Some u \<Rightarrow>
          let c = ss_config st; host = pu_host u;
              path = escaped_path (''/'' @ s3_bucket c @ ''/'' @ key);
              amz = amz_time now; date = amz_date now; put = verb = ''PUT'';
              signed = (if put then ''host;if-none-match;x-amz-content-sha256;x-amz-date'' else ''host;x-amz-content-sha256;x-amz-date'');
              headers = ''host:'' @ host @ nl @ (if put then ''if-none-match:*'' @ nl else [])
                        @ ''x-amz-content-sha256:'' @ digest @ nl @ ''x-amz-date:'' @ amz @ nl;
              canonical = verb @ nl @ path @ nl @ nl @ headers @ nl @ signed @ nl @ digest;
              scope = date @ ''/'' @ s3_signing_region c @ ''/s3/aws4_request'';
              to_sign = ''AWS4-HMAC-SHA256'' @ nl @ amz @ nl @ scope @ nl @ sha cr (Raw canonical);
              signature = hex_encode (hmac (signing_key hmac (ss_secret st) date (s3_signing_region c)) to_sign)
          in Inr \<lparr>sm_method = verb, sm_host = host, sm_path = path,
               sm_headers = [(''X-Amz-Date'', amz), (''X-Amz-Content-Sha256'', digest)]
                 @ (if put then [(''If-None-Match'', ''*'')] else [])
                 @ [(''Authorization'', ''AWS4-HMAC-SHA256 Credential='' @ ss_access st @ ''/'' @ scope @ '', SignedHeaders='' @ signed
                                       @ '', Signature='' @ signature)],
               sm_length = sz\<rparr>)"

text \<open>The key of a request needs no escaping, so the path that is sent is the path that is signed.\<close>

lemma percent_plain: "list_all keeps s \<Longrightarrow> percent keeps s = s"
  by (induction s) (auto simp: percent_def)

lemma split_on_all: "list_all (list_all P) (split_on a s) \<Longrightarrow> list_all (\<lambda>c. P c \<or> c = a) s"
  by (induction a s rule: split_on.induct) (auto split: if_splits list.splits)

lemma safe_path_byte: "safe_char c \<Longrightarrow> path_byte c"
  by (auto simp: safe_char_def path_byte_def unreserved_def Let_def)

lemma safe_key_plain: "list_all safe_id (split_on (CHR ''/'') key) \<Longrightarrow> list_all path_byte key"
proof -
  assume "list_all safe_id (split_on (CHR ''/'') key)"
  then have "list_all (list_all safe_char) (split_on (CHR ''/'') key)"
    by (rule list.pred_mono_strong) (simp add: safe_id_def)
  from split_on_all [OF this] show ?thesis
  proof (rule list.pred_mono_strong)
    fix c assume "safe_char c \<or> c = CHR ''/''"
    then show "path_byte c" by (elim disjE) (simp_all add: safe_path_byte, simp add: path_byte_def)
  qed
qed

section \<open>Publishing a sealed artifact\<close>

text \<open>The local file: \<open>Lstat\<close> (a private regular file, its size), \<open>Open\<close>, the bytes read for the hash, \<open>Seek\<close>, and
  the bytes the request reads.\<close>

record local_file =
  lf_stat :: "(bool \<times> int) option"
  lf_open :: "go_error option"
  lf_content :: bytes
  lf_read :: "go_error option"
  lf_seek :: "go_error option"
  lf_sent :: bytes

text \<open>No answer, or a status with a body and the error that reading it ended with.\<close>

datatype s3_answer = NoAnswer go_error | Answered int bytes "go_error option"

type_synonym 's remote = "s3_message \<Rightarrow> bytes \<Rightarrow> 's \<Rightarrow> s3_answer \<times> 's"

definition exchange :: "'s remote \<Rightarrow> go_error + s3_message \<Rightarrow> bytes \<Rightarrow> 's \<Rightarrow> s3_answer \<times> 's" where
  "exchange remote m body s = (case m of Inl x \<Rightarrow> (NoAnswer x, s) | Inr m \<Rightarrow> remote m body s)"

text \<open>The comparison with the whole remote object.\<close>

definition confirm :: "crypto \<Rightarrow> int \<Rightarrow> bytes \<Rightarrow> s3_answer \<Rightarrow> go_error + unit" where
  "confirm cr sz digest a =
     (case a of
        NoAnswer x \<Rightarrow> Inl (ErrMsg ''artifact publication uncertain; retry exact sealed bytes'')
      | Answered status body failure \<Rightarrow>
          if status \<noteq> 200 then Inl (ErrMsg ''artifact publication not confirmed'')
          else let b = take (nat (sz + 1)) body
               in if failure \<noteq> None \<or> int (length b) \<noteq> sz \<or> sha cr (Raw b) \<noteq> digest
                  then Inl (ErrMsg ''immutable remote artifact differs'') else Inr ())"

definition put_immutable ::
    "crypto \<Rightarrow> (bytes \<Rightarrow> bytes \<Rightarrow> bytes) \<Rightarrow> (bytes \<Rightarrow> parsed_url option) \<Rightarrow> (nat \<Rightarrow> gtime) \<Rightarrow> s3_store \<Rightarrow> 's remote \<Rightarrow>
     local_file \<Rightarrow> bytes \<Rightarrow> int \<Rightarrow> bytes \<Rightarrow> 's \<Rightarrow> (go_error + unit) \<times> 's" where
  "put_immutable cr hmac parse now st remote f key sz digest s =
     (if sz < 1 \<or> sz > max_cipher_part_bytes \<or> length digest \<noteq> 64 then (Inl ErrLifecycleConflict, s)
      else case lf_stat f of
        None \<Rightarrow> (Inl ErrBillingUnavailable, s)
      | Some (private_file, n) \<Rightarrow>
          if \<not> private_file \<or> n \<noteq> sz then (Inl ErrBillingUnavailable, s)
          else case lf_open f of
            Some x \<Rightarrow> (Inl x, s)
          | None \<Rightarrow>
              if lf_read f \<noteq> None \<or> int (length (lf_content f)) \<noteq> sz \<or> sha cr (Raw (lf_content f)) \<noteq> digest
              then (Inl (ErrMsg ''sealed local artifact changed''), s)
              else case lf_seek f of
                Some x \<Rightarrow> (Inl x, s)
              | None \<Rightarrow>
                  (case exchange remote (s3_request cr hmac parse (now 0) st ''PUT'' key digest sz) (lf_sent f) s of
                     (a, s) \<Rightarrow>
                       let again = (case exchange remote (s3_request cr hmac parse (now 1) st ''GET'' key (sha cr (Raw [])) 0) [] s of
                                      (a, s) \<Rightarrow> (confirm cr sz digest a, s))
                       in (case a of
                             NoAnswer x \<Rightarrow> again
                           | Answered status body failure \<Rightarrow>
                               if 200 \<le> status \<and> status < 300 then (Inr (), s)
                               else if status \<noteq> 409 \<and> status \<noteq> 412 \<and> status < 500
                               then (Inl (ErrMsg ''immutable artifact PUT rejected''), s)
                               else again)))"

text \<open>The artifacts of a set in the order of \<open>uploadCapture\<close>, each with its key, its size and its
  digest; the upload stops at the first that fails.\<close>

definition archive_items :: "crypto \<Rightarrow> manifest \<Rightarrow> doc \<Rightarrow> (bytes \<times> int \<times> bytes) list" where
  "archive_items cr m b =
     map (\<lambda>p. (archive_part_key m p, pt_cipher p, pt_cipher_sha p)) (mf_parts m)
     @ [(snapshot_prefix m @ ''/manifest.json'', int (manifest_len m), sha cr b)]"

fun put_set ::
    "crypto \<Rightarrow> (bytes \<Rightarrow> bytes \<Rightarrow> bytes) \<Rightarrow> (bytes \<Rightarrow> parsed_url option) \<Rightarrow> (nat \<Rightarrow> nat \<Rightarrow> gtime) \<Rightarrow> s3_store \<Rightarrow> 's remote \<Rightarrow>
     (bytes \<Rightarrow> local_file) \<Rightarrow> nat \<Rightarrow> (bytes \<times> int \<times> bytes) list \<Rightarrow> 's \<Rightarrow> (go_error + unit) \<times> 's" where
  "put_set cr hmac parse now st remote files i [] s = (Inr (), s)"
| "put_set cr hmac parse now st remote files i ((key, sz, digest) # items) s =
     (case put_immutable cr hmac parse (now i) st remote (files key) key sz digest s of
        (Inl x, s) \<Rightarrow> (Inl x, s)
      | (Inr _, s) \<Rightarrow> put_set cr hmac parse now st remote files (Suc i) items s)"

section \<open>What the store behind the network promises\<close>

text \<open>
  The documented behaviour of an S3 server towards the messages of this program: an object
  is never replaced under \<open>If-None-Match: *\<close>; a \<open>PUT\<close> that is answered with success has stored a
  body of the announced length whose SHA-256 is the signed \<open>X-Amz-Content-Sha256\<close>; a \<open>GET\<close>
  changes nothing, and a 200 without a read error carries the whole object. A request without an answer, or with another
  answer, may or may not have stored its body.
\<close>

definition keeps_objects :: "('s \<Rightarrow> bytes \<Rightarrow> bytes option) \<Rightarrow> 's \<Rightarrow> 's \<Rightarrow> bool" where
  "keeps_objects objects s s' = (\<forall>k b. objects s k = Some b \<longrightarrow> objects s' k = Some b)"

definition s3_server :: "crypto \<Rightarrow> ('s \<Rightarrow> bytes \<Rightarrow> bytes option) \<Rightarrow> 's remote \<Rightarrow> bool" where
  "s3_server cr objects remote =
     (\<forall>m body s. case remote m body s of (a, s') \<Rightarrow>
        (sm_method m = ''GET'' \<or> aget (sm_headers m) ''If-None-Match'' = Some ''*'' \<longrightarrow> keeps_objects objects s s')
        \<and> (case a of
             NoAnswer x \<Rightarrow> True
           | Answered status b failure \<Rightarrow>
               (sm_method m = ''PUT'' \<and> 200 \<le> status \<and> status < 300 \<longrightarrow>
                  objects s' (sm_path m) = Some body \<and> int (length body) = sm_length m
                  \<and> aget (sm_headers m) ''X-Amz-Content-Sha256'' = Some (sha cr (Raw body)))
               \<and> (sm_method m = ''GET'' \<and> status = 200 \<and> failure = None \<longrightarrow> objects s' (sm_path m) = Some b)))"

definition object_path :: "s3_store \<Rightarrow> bytes \<Rightarrow> bytes" where
  "object_path st key = escaped_path (''/'' @ s3_bucket (ss_config st) @ ''/'' @ key)"

lemma s3_requestD:
  assumes "s3_request cr hmac parse now st verb key digest sz = Inr m"
  shows "sm_method m = verb" "sm_path m = object_path st key" "sm_length m = sz"
    "aget (sm_headers m) ''X-Amz-Content-Sha256'' = Some digest"
    "verb = ''PUT'' \<Longrightarrow> aget (sm_headers m) ''If-None-Match'' = Some ''*''"
  using assms by (auto simp: s3_request_def object_path_def Let_def split: if_splits option.splits)

lemma keeps_refl [simp]: "keeps_objects objects s s"
  by (simp add: keeps_objects_def)

lemma keeps_trans [trans]: "keeps_objects objects s s1 \<Longrightarrow> keeps_objects objects s1 s2 \<Longrightarrow> keeps_objects objects s s2"
  by (auto simp: keeps_objects_def)

definition stored_exactly :: "crypto \<Rightarrow> s3_store \<Rightarrow> ('s \<Rightarrow> bytes \<Rightarrow> bytes option) \<Rightarrow> 's \<Rightarrow> bytes \<times> int \<times> bytes \<Rightarrow> bool" where
  "stored_exactly cr st objects s x =
     (case x of (key, sz, digest) \<Rightarrow>
        case objects s (object_path st key) of
          None \<Rightarrow> False
        | Some b \<Rightarrow> int (length b) = sz \<and> sha cr (Raw b) = digest)"

lemma stored_exactly_kept: "keeps_objects objects s s' \<Longrightarrow> stored_exactly cr st objects s x \<Longrightarrow> stored_exactly cr st objects s' x"
  by (cases x) (auto simp: stored_exactly_def keeps_objects_def split: option.splits)

lemma s3_serverD:
  assumes "s3_server cr objects remote" "remote m body s = (a, s')"
  shows "sm_method m = ''GET'' \<or> aget (sm_headers m) ''If-None-Match'' = Some ''*'' \<Longrightarrow> keeps_objects objects s s'"
    "a = Answered status b failure \<Longrightarrow> sm_method m = ''PUT'' \<Longrightarrow> 200 \<le> status \<Longrightarrow> status < 300 \<Longrightarrow>
       objects s' (sm_path m) = Some body \<and> int (length body) = sm_length m
       \<and> aget (sm_headers m) ''X-Amz-Content-Sha256'' = Some (sha cr (Raw body))"
    "a = Answered 200 b None \<Longrightarrow> sm_method m = ''GET'' \<Longrightarrow> objects s' (sm_path m) = Some b"
  using assms(1) [unfolded s3_server_def, THEN spec [where x = m], THEN spec [where x = body], THEN spec [where x = s]] assms(2) by simp_all

lemma put_exchange:
  assumes "s3_server cr objects remote"
    "exchange remote (s3_request cr hmac parse now st ''PUT'' key digest sz) body s = (a, s')"
  shows "keeps_objects objects s s'"
    "a = Answered status b failure \<Longrightarrow> 200 \<le> status \<Longrightarrow> status < 300 \<Longrightarrow> stored_exactly cr st objects s' (key, sz, digest)"
proof -
  have "keeps_objects objects s s' \<and> (a = Answered status b failure \<longrightarrow> 200 \<le> status \<longrightarrow> status < 300 \<longrightarrow>
      stored_exactly cr st objects s' (key, sz, digest))"
  proof (cases "s3_request cr hmac parse now st ''PUT'' key digest sz")
    case (Inr m)
    note m = s3_requestD [OF Inr]
    have "remote m body s = (a, s')" using assms(2) by (simp add: exchange_def Inr)
    from s3_serverD [OF assms(1) this] m show ?thesis by (auto simp: stored_exactly_def)
  qed (use assms(2) in \<open>auto simp: exchange_def\<close>)
  then show "keeps_objects objects s s'"
    "a = Answered status b failure \<Longrightarrow> 200 \<le> status \<Longrightarrow> status < 300 \<Longrightarrow> stored_exactly cr st objects s' (key, sz, digest)"
    by auto
qed

lemma get_exchange:
  assumes "s3_server cr objects remote"
    "exchange remote (s3_request cr hmac parse now st ''GET'' key dg n) [] s = (a, s')"
  shows "keeps_objects objects s s'" "confirm cr sz digest a = Inr () \<Longrightarrow> 0 \<le> sz \<Longrightarrow> stored_exactly cr st objects s' (key, sz, digest)"
proof -
  have "keeps_objects objects s s' \<and> (confirm cr sz digest a = Inr () \<longrightarrow> 0 \<le> sz \<longrightarrow> stored_exactly cr st objects s' (key, sz, digest))"
  proof (cases "s3_request cr hmac parse now st ''GET'' key dg n")
    case (Inr m)
    note m = s3_requestD [OF Inr]
    have r: "remote m [] s = (a, s')" using assms(2) by (simp add: exchange_def Inr)
    have "stored_exactly cr st objects s' (key, sz, digest)" if c: "confirm cr sz digest a = Inr ()" "0 \<le> sz"
    proof -
      obtain b where b: "a = Answered 200 b None" "int (length (take (nat (sz + 1)) b)) = sz" "sha cr (Raw (take (nat (sz + 1)) b)) = digest"
        using c(1) by (auto simp: confirm_def Let_def split: s3_answer.splits if_splits)
      then have "take (nat (sz + 1)) b = b" using c(2) by auto
      with b s3_serverD(3) [OF assms(1) r b(1)] m(1,2) show ?thesis by (simp add: stored_exactly_def)
    qed
    with s3_serverD(1) [OF assms(1) r] m(1) show ?thesis by simp
  qed (use assms(2) in \<open>auto simp: exchange_def confirm_def\<close>)
  then show "keeps_objects objects s s'" "confirm cr sz digest a = Inr () \<Longrightarrow> 0 \<le> sz \<Longrightarrow> stored_exactly cr st objects s' (key, sz, digest)"
    by auto
qed

lemma put_immutable_effect:
  assumes "s3_server cr objects remote" "put_immutable cr hmac parse now st remote f key sz digest s = (r, s')"
  shows "keeps_objects objects s s' \<and> (r = Inr () \<longrightarrow> stored_exactly cr st objects s' (key, sz, digest))"
proof -
  obtain a s1 where put: "exchange remote (s3_request cr hmac parse (now 0) st ''PUT'' key digest sz) (lf_sent f) s = (a, s1)" by fastforce
  obtain a2 s2 where get: "exchange remote (s3_request cr hmac parse (now 1) st ''GET'' key (sha cr (Raw [])) 0) [] s1 = (a2, s2)" by fastforce
  note P = put_exchange [OF assms(1) put] and G = get_exchange(1) [OF assms(1) get] get_exchange(2) [OF assms(1) get, of sz digest]
  consider (local) x where "r = Inl x" "s' = s"
    | (first) st b e where "a = Answered st b e" "200 \<le> st" "st < 300" "r = Inr ()" "s' = s1"
    | (rejected) x where "r = Inl x" "s' = s1"
    | (second) "0 \<le> sz" "r = confirm cr sz digest a2" "s' = s2"
    using assms(2) put get
    by (auto simp: put_immutable_def Let_def split: if_splits option.splits s3_answer.splits)
  then show ?thesis
  proof cases
    case first
    with P show ?thesis by auto
  next
    case second
    with P(1) G show ?thesis by (auto intro: keeps_trans)
  qed (use P(1) in auto)
qed

lemma put_set_effect:
  assumes "s3_server cr objects remote" "put_set cr hmac parse now st remote files i items s = (r, s')"
  shows "keeps_objects objects s s' \<and> (r = Inr () \<longrightarrow> list_all (stored_exactly cr st objects s') items)"
  using assms(2)
proof (induction items arbitrary: i s)
  case (Cons item items)
  obtain key sz digest where item: "item = (key, sz, digest)" by (metis prod_cases3)
  obtain r1 s1 where one: "put_immutable cr hmac parse (now i) st remote (files key) key sz digest s = (r1, s1)" by fastforce
  note E = put_immutable_effect [OF assms(1) one]
  show ?case
  proof (cases r1)
    case (Inl x)
    with Cons.prems one E show ?thesis by (auto simp: item)
  next
    case (Inr u)
    with Cons.prems one have "put_set cr hmac parse now st remote files (Suc i) items s1 = (r, s')" by (simp add: item)
    from Cons.IH [OF this] E Inr show ?thesis
      by (auto simp: item intro: keeps_trans stored_exactly_kept)
  qed
qed simp

text \<open>C31: An uploaded set is complete. On a store that behaves as documented, whatever answers it gives and
  whatever happens to the local files meanwhile, an upload never changes an object that was
  there before; and when it reports success, every part of the manifest and the manifest itself
  are there under their names, with exactly the sealed size and digest.\<close>

theorem uploaded_set_is_complete:
  assumes "s3_server cr objects remote" "put_set cr hmac parse now st remote files i (archive_items cr m b) s = (r, s')"
  shows "(\<forall>k x. objects s k = Some x \<longrightarrow> objects s' k = Some x)
     \<and> (r = Inr () \<longrightarrow>
          (\<forall>p \<in> set (mf_parts m). \<exists>x. objects s' (object_path st (archive_part_key m p)) = Some x
             \<and> int (length x) = pt_cipher p \<and> sha cr (Raw x) = pt_cipher_sha p)
          \<and> (\<exists>x. objects s' (object_path st (snapshot_prefix m @ ''/manifest.json'')) = Some x
             \<and> int (length x) = int (manifest_len m) \<and> sha cr (Raw x) = sha cr b))"
  using put_set_effect [OF assms]
  by (auto simp: keeps_objects_def archive_items_def stored_exactly_def list_all_iff split: option.splits)

section \<open>An upload\<close>

definition toy_remote :: "(bytes \<Rightarrow> bytes option) remote" where
  "toy_remote m body s =
     (if sm_method m = ''GET''
      then (case s (sm_path m) of None \<Rightarrow> (Answered 404 [] None, s) | Some b \<Rightarrow> (Answered 200 b None, s))
      else if s (sm_path m) \<noteq> None then (Answered 412 [] None, s)
      else if int (length body) \<noteq> sm_length m \<or> aget (sm_headers m) ''X-Amz-Content-Sha256'' \<noteq> Some (sha toy_crypto (Raw body))
      then (Answered 400 [] None, s) else (Answered 200 [] None, s(sm_path m := Some body)))"

lemma toy_remote_serves: "s3_server toy_crypto (\<lambda>s. s) toy_remote"
  by (auto simp: s3_server_def toy_remote_def keeps_objects_def split: option.splits)

definition toy_s3 :: s3_store where
  "toy_s3 = \<lparr>ss_config = \<lparr>s3_endpoint = ''h'', s3_region = ''r'', s3_signing_region = ''r'', s3_bucket = ''u'', s3_env = ''e''\<rparr>,
     ss_access = ''a'', ss_secret = ''b''\<rparr>"

definition toy_url :: parsed_url where
  "toy_url = \<lparr>pu_scheme = ''https'', pu_host = ''h'', pu_hostname = ''h'', pu_user = False, pu_query = [], pu_fragment = [],
     pu_path = [], pu_loopback = False\<rparr>"

definition file_of :: "nat \<Rightarrow> local_file" where
  "file_of n = \<lparr>lf_stat = Some (True, int n), lf_open = None, lf_content = replicate n (CHR ''c''), lf_read = None, lf_seek = None,
     lf_sent = replicate n (CHR ''c'')\<rparr>"

definition toy_key_ok :: "bytes \<Rightarrow> bool" where
  "toy_key_ok key =
     ((starts_with key ''billing-raw/'' \<or> starts_with key ''billing-inbox-snapshots/'') \<and> list_all safe_id (split_on (CHR ''/'') key))"

definition toy_keys :: "bytes list" where
  "toy_keys = [archive_part_key toy_manifest (toy_part ''p'' ''snapshot''), archive_part_key toy_manifest (toy_part ''q'' ''events''),
     snapshot_prefix toy_manifest @ ''/manifest.json'']"

lemma toy_keys_ok: "list_all toy_key_ok toy_keys"
  by code_simp

lemma toy_keys_distinct: "distinct toy_keys"
  by (simp add: toy_keys_def archive_part_key_def toy_part_def snapshot_prefix_def set_prefix_def)

lemma put_new:
  assumes "toy_key_ok key" "s (object_path toy_s3 key) = None" "1 \<le> n" "int n \<le> max_cipher_part_bytes"
  shows "put_immutable toy_crypto (\<lambda>_ x. x) (\<lambda>_. Some toy_url) (\<lambda>_. toy_time) toy_s3 toy_remote (file_of n) key (int n) toy_sha s =
    (Inr (), s(object_path toy_s3 key := Some (replicate n (CHR ''c''))))"
proof -
  have sha: "sha toy_crypto x = toy_sha" "length toy_sha = 64" for x by (simp_all add: toy_crypto_def toy_sha_def)
  obtain m where m: "s3_request toy_crypto (\<lambda>_ x. x) (\<lambda>_. Some toy_url) toy_time toy_s3 ''PUT'' key toy_sha (int n) = Inr m"
    using assms(1) by (auto simp: s3_request_def toy_key_ok_def Let_def)
  note D = s3_requestD [OF m]
  have "exchange toy_remote (Inr m) (lf_sent (file_of n)) s =
      (Answered 200 [] None, s(object_path toy_s3 key := Some (replicate n (CHR ''c''))))"
    using D assms(2) by (simp add: exchange_def toy_remote_def sha file_of_def)
  then show ?thesis
    using assms(3,4) m by (simp add: put_immutable_def sha) (simp add: file_of_def sha)
qed

lemma toy_paths: "toy_key_ok key \<Longrightarrow> object_path toy_s3 key = ''/u/'' @ key"
proof -
  assume "toy_key_ok key"
  then have "list_all path_byte (''/u/'' @ key)"
    by (auto simp: toy_key_ok_def safe_key_plain path_byte_def unreserved_def)
  then show ?thesis by (simp add: object_path_def toy_s3_def escaped_path_def percent_plain)
qed

theorem uploaded_set_is_complete_witness:
  "\<exists>s'. put_set toy_crypto (\<lambda>_ x. x) (\<lambda>_. Some toy_url) (\<lambda>_ _. toy_time) toy_s3 toy_remote
      (\<lambda>key. file_of (if key = snapshot_prefix toy_manifest @ ''/manifest.json'' then manifest_len toy_manifest else 16)) 0
      (archive_items toy_crypto toy_manifest (DManifest toy_manifest)) (\<lambda>_. None) = (Inr (), s')
     \<and> (\<forall>p \<in> set (mf_parts toy_manifest). \<exists>x. s' (object_path toy_s3 (archive_part_key toy_manifest p)) = Some x
          \<and> int (length x) = pt_cipher p)"
proof -
  obtain k1 k2 k3 where keys: "toy_keys = [k1, k2, k3]" "k1 = archive_part_key toy_manifest (toy_part ''p'' ''snapshot'')"
      "k2 = archive_part_key toy_manifest (toy_part ''q'' ''events'')" "k3 = snapshot_prefix toy_manifest @ ''/manifest.json''"
    by (simp add: toy_keys_def)
  have ok: "toy_key_ok k1" "toy_key_ok k2" "toy_key_ok k3" "k1 \<noteq> k2" "k1 \<noteq> k3" "k2 \<noteq> k3"
    using toy_keys_ok toy_keys_distinct by (simp_all add: keys(1))
  note paths = ok(1-3) [THEN toy_paths]
  have sha: "sha toy_crypto x = toy_sha" for x by (simp add: toy_crypto_def toy_sha_def)
  have sizes: "1 \<le> manifest_len toy_manifest" "int (manifest_len toy_manifest) \<le> max_cipher_part_bytes"
    using toy_manifest_small by (simp_all add: manifest_len_def members_len_def max_manifest_bytes_def max_cipher_part_bytes_def)
  have items: "archive_items toy_crypto toy_manifest (DManifest toy_manifest) =
      [(k1, int 16, toy_sha), (k2, int 16, toy_sha), (k3, int (manifest_len toy_manifest), toy_sha)]"
    by (simp add: archive_items_def keys toy_manifest_def toy_part_def sha)
  have "int 16 \<le> max_cipher_part_bytes" by (simp add: max_cipher_part_bytes_def)
  note put = put_new [OF ok(1) _ _ this] put_new [OF ok(2) _ _ this] put_new [OF ok(3) _ sizes]
  have "\<exists>s'. put_set toy_crypto (\<lambda>_ x. x) (\<lambda>_. Some toy_url) (\<lambda>_ _. toy_time) toy_s3 toy_remote
      (\<lambda>key. file_of (if key = snapshot_prefix toy_manifest @ ''/manifest.json'' then manifest_len toy_manifest else 16)) 0
      (archive_items toy_crypto toy_manifest (DManifest toy_manifest)) (\<lambda>_. None) = (Inr (), s')"
    unfolding items using ok(4-6) by (simp add: put paths flip: keys(4) del: of_nat_numeral)
  then obtain s' where s': "put_set toy_crypto (\<lambda>_ x. x) (\<lambda>_. Some toy_url) (\<lambda>_ _. toy_time) toy_s3 toy_remote
      (\<lambda>key. file_of (if key = snapshot_prefix toy_manifest @ ''/manifest.json'' then manifest_len toy_manifest else 16)) 0
      (archive_items toy_crypto toy_manifest (DManifest toy_manifest)) (\<lambda>_. None) = (Inr (), s')" ..
  from uploaded_set_is_complete [OF toy_remote_serves this] show ?thesis by (intro exI [of _ s'] conjI s') auto
qed

end
