(* ===== verification/LinodeStorage.thy ===== *)
theory LinodeStorage
  imports ObjectStore Loki
begin

text \<open>
  \<open>cmd/linode-object-storage\<close>: the settings, the signed request and the four commands. The
  network is the argument \<open>remote\<close>, the files and the environment variables are arguments.
\<close>

section \<open>Settings\<close>

record object_store =
  os_bucket :: bytes
  os_endpoint :: bytes
  os_access :: bytes
  os_secret :: bytes
  os_region :: bytes

fun first_trimmed :: "bytes list \<Rightarrow> bytes" where
  "first_trimmed [] = []"
| "first_trimmed (v # vs) = (if trim_space v \<noteq> [] then trim_space v else first_trimmed vs)"

definition region_from_endpoint :: "(bytes \<Rightarrow> parsed_url option) \<Rightarrow> bytes \<Rightarrow> bytes" where
  "region_from_endpoint parse endpoint =
     (case parse endpoint of
        None \<Rightarrow> ''us-east-1''
      | Some u \<Rightarrow>
          if ends_with (pu_hostname u) ''.linodeobjects.com'' \<and> hd (split_on (CHR ''.'') (pu_hostname u)) \<noteq> []
          then hd (split_on (CHR ''.'') (pu_hostname u)) else ''us-east-1'')"

definition trim_right_slashes :: "bytes \<Rightarrow> bytes" where
  "trim_right_slashes s = rev (dropWhile (\<lambda>c. c = CHR ''/'') (rev s))"

definition store_from_env :: "(bytes \<Rightarrow> parsed_url option) \<Rightarrow> (bytes \<Rightarrow> bytes) \<Rightarrow> go_error + object_store" where
  "store_from_env parse env =
     (let st = \<lparr>os_bucket = trim_space (env ''LINODE_OBJ_BUCKET''),
                os_endpoint = trim_right_slashes (trim_space (env ''LINODE_OBJ_ENDPOINT'')),
                os_access = first_trimmed [env ''LINODE_OBJ_ACCESS_KEY_ID'', env ''AWS_ACCESS_KEY_ID''],
                os_secret = first_trimmed [env ''LINODE_OBJ_SECRET_ACCESS_KEY'', env ''AWS_SECRET_ACCESS_KEY''],
                os_region = trim_space (env ''LINODE_OBJ_REGION'')\<rparr>
      in if os_bucket st = [] then Inl (ErrMsg ''LINODE_OBJ_BUCKET is required'')
         else if os_endpoint st = [] then Inl (ErrMsg ''LINODE_OBJ_ENDPOINT is required'')
         else if os_access st = [] \<or> os_secret st = []
         then Inl (ErrMsg ''LINODE_OBJ_ACCESS_KEY_ID and LINODE_OBJ_SECRET_ACCESS_KEY are required'')
         else if os_region st = [] then Inr (st\<lparr>os_region := region_from_endpoint parse (os_endpoint st)\<rparr>)
         else Inr st)"

section \<open>The signed request\<close>

definition escape_object_path :: "bytes \<Rightarrow> bytes" where
  "escape_object_path p = join ''/'' (map (percent segment_byte) (split_on (CHR ''/'') p))"

definition content_type :: "bytes \<Rightarrow> bytes" where
  "content_type key =
     (if ends_with key ''.json'' then ''application/json''
      else if ends_with key ''.sha256'' then ''text/plain'' else ''application/gzip'')"

text \<open>\<open>strings.Fields\<close>, with the word read so far.\<close>

function fields_from :: "bytes \<Rightarrow> bytes \<Rightarrow> bytes list" where
  "fields_from w [] = (if w = [] then [] else [w])"
| "fields_from w (c # s) =
     (case find (\<lambda>r. r \<noteq> [] \<and> starts_with (c # s) r) space_runes of
        None \<Rightarrow> fields_from (w @ [c]) s
      | Some r \<Rightarrow> (if w = [] then [] else [w]) @ fields_from [] (drop (length r - 1) s))"
  by pat_completeness auto
termination by (relation "measure (length \<circ> snd)") auto

text \<open>The headers of a request have one value each; the canonical form orders them by name.\<close>

definition canonical_headers :: "(bytes \<times> bytes) list \<Rightarrow> bytes \<times> bytes" where
  "canonical_headers hs =
     (let hs = sort_key (\<lambda>(n, v). map of_char n :: nat list) (map (\<lambda>(n, v). (to_lower n, v)) hs)
      in (join '';'' (map fst hs),
          concat (map (\<lambda>(n, v). n @ '':'' @ join '' '' (fields_from [] v) @ nl) hs)))"

definition canonical_uri :: "object_store \<Rightarrow> bytes \<Rightarrow> bytes" where
  "canonical_uri st key = ''/'' @ os_bucket st @ (if key \<noteq> [] then ''/'' @ escape_object_path key else [])"

text \<open>The text that is signed for a path.\<close>

definition canonical_request :: "bytes \<Rightarrow> bytes \<Rightarrow> (bytes \<times> bytes) list \<Rightarrow> bytes \<Rightarrow> bytes" where
  "canonical_request verb uri hs digest =
     join nl [verb, uri, [], snd (canonical_headers hs), fst (canonical_headers hs), digest]"

definition authorization ::
    "crypto \<Rightarrow> (bytes \<Rightarrow> bytes \<Rightarrow> bytes) \<Rightarrow> object_store \<Rightarrow> gtime \<Rightarrow> bytes \<Rightarrow> bytes \<Rightarrow> (bytes \<times> bytes) list \<Rightarrow> bytes \<Rightarrow> bytes" where
  "authorization cr hmac st now verb uri hs digest =
     (let amz = amz_time now; date = amz_date now;
          scope = date @ ''/'' @ os_region st @ ''/s3/aws4_request'';
          to_sign = join nl [''AWS4-HMAC-SHA256'', amz, scope, sha cr (Raw (canonical_request verb uri hs digest))];
          signature = hex_encode (hmac (signing_key hmac (os_secret st) date (os_region st)) to_sign)
      in ''AWS4-HMAC-SHA256 Credential='' @ os_access st @ ''/'' @ scope @ '', SignedHeaders='' @ fst (canonical_headers hs)
         @ '', Signature='' @ signature)"

definition object_message ::
    "crypto \<Rightarrow> (bytes \<Rightarrow> bytes \<Rightarrow> bytes) \<Rightarrow> parsed_url \<Rightarrow> object_store \<Rightarrow> gtime \<Rightarrow> bytes \<Rightarrow> bytes \<Rightarrow> bytes \<Rightarrow> s3_message" where
  "object_message cr hmac u st now verb key body =
     (let uri = canonical_uri st key; digest = sha cr (Raw body);
          hs = [(''Host'', pu_host u), (''X-Amz-Content-Sha256'', digest), (''X-Amz-Date'', amz_time now)]
               @ (if verb = ''PUT'' then [(''Content-Type'', content_type key)] else [])
      in \<lparr>sm_method = verb, sm_host = pu_host u, sm_path = escaped_path uri,
          sm_headers = hs @ [(''Authorization'', authorization cr hmac st now verb uri hs digest)],
          sm_length = int (length body)\<rparr>)"

definition signed_object_request ::
    "crypto \<Rightarrow> (bytes \<Rightarrow> bytes \<Rightarrow> bytes) \<Rightarrow> (bytes \<Rightarrow> parsed_url option) \<Rightarrow> gtime \<Rightarrow> object_store \<Rightarrow> 's remote \<Rightarrow> bytes \<Rightarrow> bytes \<Rightarrow>
     bytes \<Rightarrow> 's \<Rightarrow> (go_error + bytes) \<times> 's" where
  "signed_object_request cr hmac parse now st remote verb key body s =
     (case parse (os_endpoint st) of
        None \<Rightarrow> (Inl (ErrMsg ''invalid URL''), s)
      | Some u \<Rightarrow>
          (case remote (object_message cr hmac u st now verb key body) body s of
             (NoAnswer x, s) \<Rightarrow> (Inl x, s)
           | (Answered status b failure, s) \<Rightarrow>
               (case failure of
                  Some x \<Rightarrow> (Inl x, s)
                | None \<Rightarrow>
                    if status < 200 \<or> status \<ge> 300 then (Inl (ErrMsg (''Object Storage failed: HTTP '' @ dec_int status)), s)
                    else (Inr b, s))))"

section \<open>The commands\<close>

definition put_object_from_file ::
    "crypto \<Rightarrow> (bytes \<Rightarrow> bytes \<Rightarrow> bytes) \<Rightarrow> (bytes \<Rightarrow> parsed_url option) \<Rightarrow> gtime \<Rightarrow> object_store \<Rightarrow> 's remote \<Rightarrow> bytes \<Rightarrow>
     go_error + bytes \<Rightarrow> 's \<Rightarrow> (go_error + unit) \<times> 's" where
  "put_object_from_file cr hmac parse now st remote key file s =
     (case file of
        Inl x \<Rightarrow> (Inl x, s)
      | Inr body \<Rightarrow>
          (case signed_object_request cr hmac parse now st remote ''PUT'' key body s of
             (Inl x, s) \<Rightarrow> (Inl x, s)
           | (Inr _, s) \<Rightarrow> (Inr (), s)))"

text \<open>The writer of \<open>writeObject\<close> is what is written so far; \<open>failure\<close> the error of its \<open>Write\<close> with the bytes it took.\<close>

definition write_object ::
    "crypto \<Rightarrow> (bytes \<Rightarrow> bytes \<Rightarrow> bytes) \<Rightarrow> (bytes \<Rightarrow> parsed_url option) \<Rightarrow> gtime \<Rightarrow> object_store \<Rightarrow> 's remote \<Rightarrow> bytes \<Rightarrow>
     (nat \<times> go_error) option \<Rightarrow> bytes \<times> 's \<Rightarrow> (go_error + unit) \<times> bytes \<times> 's" where
  "write_object cr hmac parse now st remote key failure x =
     (case x of (out, s) \<Rightarrow>
        (case signed_object_request cr hmac parse now st remote ''GET'' key [] s of
           (Inl x, s) \<Rightarrow> (Inl x, out, s)
         | (Inr body, s) \<Rightarrow>
             (case failure of
                Some (n, x) \<Rightarrow> (Inl x, out @ take n body, s)
              | None \<Rightarrow> (Inr (), out @ body, s))))"

text \<open>\<open>downloadObject\<close> on the file \<open>out\<close>: \<open>os.Create\<close> truncates a file that is there.\<close>

definition download_object ::
    "crypto \<Rightarrow> (bytes \<Rightarrow> bytes \<Rightarrow> bytes) \<Rightarrow> (bytes \<Rightarrow> parsed_url option) \<Rightarrow> gtime \<Rightarrow> object_store \<Rightarrow> 's remote \<Rightarrow> bytes \<Rightarrow>
     go_error option \<Rightarrow> go_error option \<Rightarrow> (nat \<times> go_error) option \<Rightarrow> bytes option \<times> 's \<Rightarrow>
     (go_error + unit) \<times> bytes option \<times> 's" where
  "download_object cr hmac parse now st remote key mkdir create failure x =
     (case x of (out, s) \<Rightarrow>
        (case mkdir of
           Some x \<Rightarrow> (Inl x, out, s)
         | None \<Rightarrow>
             (case create of
                Some x \<Rightarrow> (Inl x, out, s)
              | None \<Rightarrow>
                  (case write_object cr hmac parse now st remote key failure ([], s) of
                     (r, written, s) \<Rightarrow> (r, Some written, s)))))"

definition object_exists ::
    "crypto \<Rightarrow> (bytes \<Rightarrow> bytes \<Rightarrow> bytes) \<Rightarrow> (bytes \<Rightarrow> parsed_url option) \<Rightarrow> gtime \<Rightarrow> object_store \<Rightarrow> 's remote \<Rightarrow> bytes \<Rightarrow> 's \<Rightarrow>
     (go_error + unit) \<times> 's" where
  "object_exists cr hmac parse now st remote key s =
     (case signed_object_request cr hmac parse now st remote ''HEAD'' key [] s of
        (Inl x, s) \<Rightarrow> (Inl x, s)
      | (Inr _, s) \<Rightarrow> (Inr (), s))"

text \<open>A download that fails has already emptied the file it was to replace.\<close>

lemma failed_download_truncates:
  assumes "signed_object_request cr hmac parse now st remote ''GET'' key [] s = (Inl x, s')"
  shows "download_object cr hmac parse now st remote key None None failure (Some old, s) = (Inl x, Some [], s')"
  using assms by (simp add: download_object_def write_object_def)

section \<open>The path that is signed and the path that is sent\<close>

lemma percent_id: "percent keeps s = s \<longleftrightarrow> list_all keeps s"
proof
  have longer: "length s \<le> length (percent keeps s)" for s
    by (induction s) (auto simp: percent_def Let_def)
  assume "percent keeps s = s"
  then show "list_all keeps s"
  proof (induction s)
    case (Cons c s)
    have "keeps c"
    proof (rule ccontr)
      assume "\<not> keeps c"
      then have "length (percent keeps (c # s)) = 3 + length (percent keeps s)" by (simp add: percent_def Let_def)
      with Cons.prems longer [of s] show False by simp
    qed
    with Cons show ?case by (simp add: percent_def)
  qed simp
qed (rule percent_plain)

lemma escape_object_path_percent: "escape_object_path p = percent (\<lambda>c. segment_byte c \<or> c = CHR ''/'') p"
proof (induction p)
  case (Cons c p)
  obtain q qs where split: "split_on (CHR ''/'') p = q # qs" by (cases "split_on (CHR ''/'') p"; cases p) (auto split: if_splits list.splits)
  have percent: "percent k (a # s) = percent k [a] @ percent k s" for k a s by (simp add: percent_def)
  have "join ''/'' ((x @ percent segment_byte q) # map (percent segment_byte) qs) = x @ join ''/'' (map (percent segment_byte) (q # qs))" for x
    by (cases qs) auto
  with Cons split percent [of segment_byte c q] percent [of _ c p] show ?case
    by (cases qs) (auto simp: escape_object_path_def, (auto simp: percent_def segment_byte_def unreserved_def)?)
qed (simp add: escape_object_path_def percent_def)

lemma escaped_bytes: "list_all path_byte (percent (\<lambda>c. segment_byte c \<or> c = CHR ''/'') p) \<longleftrightarrow> list_all (\<lambda>c. segment_byte c \<or> c = CHR ''/'') p"
proof -
  have "segment_byte c \<Longrightarrow> path_byte c" for c by (auto simp: segment_byte_def path_byte_def)
  moreover have "\<not> path_byte (CHR ''%'')" "path_byte (CHR ''/'')" by (simp_all add: path_byte_def unreserved_def)
  ultimately show ?thesis by (induction p) (auto simp: percent_def Let_def)
qed

text \<open>C40: A key that needs escaping is signed for another path than the one it is sent to. The path is
  escaped before it is signed and once more when the URL is written, so the two agree just
  for keys of bytes that stay as they are; a space, signed as \<open>%20\<close>, is sent as \<open>%2520\<close>, which names
  another object.\<close>

theorem signed_path_is_sent_for_plain_keys_only:
  assumes "list_all path_byte (os_bucket st)"
  shows "aget (sm_headers (object_message cr hmac u st now verb key body)) ''Authorization''
       = Some (authorization cr hmac st now verb (canonical_uri st key)
           (butlast (sm_headers (object_message cr hmac u st now verb key body))) (sha cr (Raw body)))
     \<and> (sm_path (object_message cr hmac u st now verb key body) = canonical_uri st key
        \<longleftrightarrow> list_all (\<lambda>c. segment_byte c \<or> c = CHR ''/'') key)"
proof -
  have "path_byte (CHR ''/'')" by (simp add: path_byte_def)
  then have "list_all path_byte (canonical_uri st key) = list_all (\<lambda>c. segment_byte c \<or> c = CHR ''/'') key"
    using assms escaped_bytes [of key] by (auto simp: canonical_uri_def escape_object_path_percent)
  then have "sm_path (object_message cr hmac u st now verb key body) = canonical_uri st key
      \<longleftrightarrow> list_all (\<lambda>c. segment_byte c \<or> c = CHR ''/'') key"
    using percent_id [of path_byte "canonical_uri st key"]
    by (simp add: object_message_def Let_def escaped_path_def canonical_uri_def)
  then show ?thesis by (simp add: object_message_def Let_def butlast_append)
qed

theorem signed_path_is_sent_for_plain_keys_only_witness:
  "\<exists>st. os_bucket st = ''u'' \<and> canonical_uri st ''a b'' = ''/u/a%20b''
     \<and> sm_path (object_message toy_crypto (\<lambda>_ x. x) toy_url st toy_time ''GET'' ''a b'' []) = ''/u/a%2520b''
     \<and> sm_path (object_message toy_crypto (\<lambda>_ x. x) toy_url st toy_time ''GET'' ''a b'' []) \<noteq> canonical_uri st ''a b''"
proof -
  define st where "st = \<lparr>os_bucket = ''u'', os_endpoint = ''h'', os_access = ''a'', os_secret = ''b'', os_region = ''r''\<rparr>"
  have bucket: "list_all path_byte (os_bucket st)" by (simp add: st_def path_byte_def unreserved_def)
  have space: "\<not> list_all (\<lambda>c. segment_byte c \<or> c = CHR ''/'') ''a b''" by (simp add: segment_byte_def unreserved_def)
  have uri: "canonical_uri st ''a b'' = ''/u/a%20b''" unfolding st_def by code_simp
  have "escaped_path ''/u/a%20b'' = ''/u/a%2520b''" by code_simp
  then have "sm_path (object_message toy_crypto (\<lambda>_ x. x) toy_url st toy_time ''GET'' ''a b'' []) = ''/u/a%2520b''"
    by (simp add: object_message_def Let_def uri)
  with signed_path_is_sent_for_plain_keys_only [OF bucket, of toy_crypto "\<lambda>_ x. x" toy_url toy_time "''GET''" "''a b''" "[]"] space uri
  show ?thesis by (intro exI [of _ st]) (simp add: st_def)
qed

end
