(* ===== verification/Fence.thy ===== *)
theory Fence
  imports Effects CompactionSample
begin

text \<open>
  The recovery fence from the preparation of a restored copy to its admission: which operations
  a fenced inbox still performs, and that the state a reviewer approves stands still until an
  approval of just this state lifts the fence.
\<close>

section \<open>A fenced database\<close>

definition fenced :: "inbox \<Rightarrow> bool" where
  "fenced ib = (meta_get (ib_db ib) ''recovery_fence'' = Some (Raw ''1'') \<and> ib_recovering ib)"

lemma fence_text: "(as_text x = Some ''1'') = (x = Some (Raw ''1''))"
  by (auto simp: as_text_def split: option.splits doc.splits)

lemma fenced_not_ready: "meta_get d ''recovery_fence'' = Some (Raw ''1'') \<Longrightarrow> ready cfg d = Inl ErrBillingUnavailable"
  by (simp add: ready_def fence_text)

text \<open>What a fenced inbox may change: captures, the bookkeeping of transactions and the capture mark.\<close>

definition still :: "db \<Rightarrow> db \<Rightarrow> bool" where
  "still d d' =
     ((\<forall>b. b \<notin> {''captures'', ''meta'', ''mutation_journal''} \<longrightarrow> db_entries d' b = db_entries d b)
      \<and> (\<forall>b. db_seq d' b = db_seq d b \<and> db_has d' b = db_has d b)
      \<and> (\<forall>k. k \<notin> {''mutation_generation'', ''compaction_session'', ''captured_through''} \<longrightarrow> meta_get d' k = meta_get d k))"

lemma still_refl [simp]: "still d d"
  by (simp add: still_def)

lemma still_trans [trans]: "still d e \<Longrightarrow> still e f \<Longrightarrow> still d f"
  by (simp add: still_def)

lemma finish_still: "finish_update io t = Inr d' \<Longrightarrow> still (mt_db t) d'"
  using finish_update_frame [of io t d'] by (simp add: still_def)

lemma still_fence: "still d d' \<Longrightarrow> meta_get d' ''recovery_fence'' = meta_get d ''recovery_fence''"
  by (simp add: still_def)

lemma still_state: "still d d' \<Longrightarrow> recovery_state_of cr env d' = recovery_state_of cr env d"
  by (simp add: still_def recovery_state_of_def hash_bucket_def)

section \<open>Transactions under the fence\<close>

lemma ready_bodies_refuse:
  assumes "meta_get (mt_db t) ''recovery_fence'' = Some (Raw ''1'')"
  shows "plan_body cr cfg c now p t \<noteq> Inr x" "apply_body cr cfg c nows op st t \<noteq> Inr y" "abort_body cr cfg c now p st t \<noteq> Inr y"
    "rehydrate_body cr cfg c sid records t \<noteq> Inr u" "evict_body cfg c through t \<noteq> Inr u" "migrate_body cr c now n t \<noteq> Inr u"
  using fenced_not_ready [OF assms, of cfg] assms
  by (auto simp: plan_body_def apply_body_def abort_body_def rehydrate_body_def evict_body_def migrate_body_def fence_text Let_def
      split: if_splits option.splits)

definition stays :: "inbox \<Rightarrow> inbox \<Rightarrow> bool" where
  "stays ib ib' = (still (ib_db ib) (ib_db ib') \<and> ib_recovering ib' = ib_recovering ib \<and> ib_cfg ib' = ib_cfg ib)"

lemma stays_refl [simp]: "stays ib ib"
  by (simp add: stays_def)

lemma stays_trans [trans]: "stays ib ib1 \<Longrightarrow> stays ib1 ib2 \<Longrightarrow> stays ib ib2"
  by (auto simp: stays_def intro: still_trans)

lemma stays_fenced: "stays ib ib' \<Longrightarrow> fenced ib \<Longrightarrow> fenced ib'"
  using still_fence [of "ib_db ib" "ib_db ib'"] by (simp add: stays_def fenced_def)

lemma stays_flag: "stays ib (ib'\<lparr>ib_failed := x\<rparr>) = stays ib ib'" "stays ib (ib'\<lparr>ib_closed := x\<rparr>) = stays ib ib'"
  by (simp_all add: stays_def)

lemma update_stays:
  assumes "update_locked io body ib = (r, ib')" "\<And>a t. body (begin_tx (ib_db ib)) = Inr (a, t) \<Longrightarrow> still (ib_db ib) (mt_db t)"
  shows "stays ib ib'"
proof -
  have "still (ib_db ib) (ib_db ib')"
    using assms(1)
  proof (cases rule: update_locked_run)
    case (ran a)
    then obtain t where t: "body (begin_tx (ib_db ib)) = Inr (a, t)" "finish_update io t = Inr (ib_db ib')"
      by (auto simp: run_update_Inr)
    from assms(2) [OF t(1)] finish_still [OF t(2)] show ?thesis by (rule still_trans)
  qed simp
  then show ?thesis using update_locked_flags [OF assms(1)] by (simp add: stays_def)
qed

lemma update_refused:
  assumes "update_locked io body ib = (r, ib')" "\<And>x. body (begin_tx (ib_db ib)) \<noteq> Inr x"
  shows "stays ib ib'"
  using update_stays [OF assms(1)] assms(2) by blast

lemma save_capture_stays: "save_capture io st ib = (r, ib') \<Longrightarrow> stays ib ib'"
  unfolding save_capture_def by (erule update_stays, drule save_body_effect) (simp add: still_def)

lemma upload_capture_stays: "upload_capture cr ev k st ib = (r, ib') \<Longrightarrow> stays ib ib'"
  by (auto simp: upload_capture_def Let_def split: if_splits sum.splits prod.splits dest: save_capture_stays)

lemma settle_one_stays: "settle_one cr ev p (k, ib) = (res, k', ib') \<Longrightarrow> stays ib ib'"
  by (auto simp: settle_one_def split: if_splits prod.splits sum.splits dest: save_capture_stays upload_capture_stays)

lemma settle_stays: "settle cr ev ps (k, ib) = (res, k', ib') \<Longrightarrow> stays ib ib'"
proof (induction ps arbitrary: k ib)
  case (Cons p ps)
  obtain o' k1 ib1 where one: "settle_one cr ev p (k, ib) = (o', k1, ib1)" by (metis prod_cases3)
  from Cons.prems one have "ib' = ib1 \<or> settle cr ev ps (k1, ib1) = (res, k', ib')"
    by (auto split: option.splits)
  with Cons.IH settle_one_stays [OF one] show ?case by (auto intro: stays_trans)
qed simp

text \<open>A capture still settles what is stored, but a fenced inbox builds no new set.\<close>

lemma capture_stays:
  assumes "capture cr c ev ib = (r, ib')" "fenced ib"
  shows "stays ib ib'"
proof (cases "captures c ib")
  case (Inl x)
  with assms(1) show ?thesis by (auto simp: capture_def split: if_splits)
next
  case (Inr sts)
  obtain res k1 ib1 where settled: "settle cr ev sts (0, ib) = (res, k1, ib1)" by (metis prod_cases3)
  note first = settle_stays [OF settled]
  consider "ib' = ib" | "ib' = ib1" | "fresh_capture cr c (1 + length sts) ev (k1, ib1) = (r, ib')"
    using assms(1) Inr settled by (auto simp: capture_def split: if_splits option.splits)
  then show ?thesis
  proof cases
    case 3
    obtain r2 ib2 where save: "save_capture (ve_io ev k1) (CaptureStatus (ve_set ev) ''capturing'' no_manifest (B64 (Raw [])) []) ib1 = (r2, ib2)"
      by fastforce
    note second = stays_trans [OF first save_capture_stays [OF save]]
    have "build_set cr (ib_cfg ib1) (cl_ctx c) (1 + length sts) ev (cl_now c 0) (ib_db ib2) = Inl ErrBillingUnavailable"
      using stays_fenced [OF second assms(2)] by (simp add: build_set_def fenced_def fenced_not_ready)
    with 3 save have "ib' = ib1 \<or> ib' = ib2"
      by (auto simp: fresh_capture_def Let_def split: if_splits sum.splits)
    with first second show ?thesis by auto
  qed (use first in auto)
qed

section \<open>The operations of a fenced inbox\<close>

text \<open>An admission: the operation is \<open>AdmitRecovery\<close>, and its approval verifies under a recovery key and
  names the state as it is.\<close>

definition admits :: "crypto \<Rightarrow> recovery_state \<Rightarrow> inbox \<Rightarrow> inbox \<Rightarrow> bool" where
  "admits cr st ib ib' =
     (\<exists>c approval r p. admit_recovery cr c approval ib = (r, ib')
        \<and> verify_approval cr (lc_recovery_keys (ib_cfg ib)) approval (utc (cl_now c 0)) = Inr p \<and> approval_matches p st)"

lemma abort_plan_stays:
  assumes "abort_plan cr c auth p ib = (r, ib')" "fenced ib"
  shows "stays ib ib'"
proof -
  have "ib' = ib \<or> (\<exists>st. update_locked (cl_io c) (abort_body cr (ib_cfg ib) (cl_ctx c) (cl_now c 0) p st) ib = (r, ib'))"
    using assms(1) by (auto simp: abort_plan_def Let_def split: if_splits sum.splits)
  then show ?thesis using assms(2) ready_bodies_refuse(3) by (auto simp: fenced_def intro: update_refused)
qed

lemma serve_fenced:
  assumes "serve cr ib ib'" "fenced ib" "recovery_state_of cr (lc_env (ib_cfg ib)) (ib_db ib) = Inr st"
  shows "stays ib ib' \<or> admits cr st ib ib'"
  using assms(1)
proof cases
  case (s_insert c e r)
  then have "ib' = ib" using assms(2) by (auto simp: insert_event_def health_def fenced_def split: sum.splits if_splits prod.splits)
  then show ?thesis by simp
next
  case (s_page c cursor limit r)
  then show ?thesis by (auto simp: page_def stays_flag split: sum.splits if_splits)
next
  case (s_migrate c batch r)
  consider "ib' = ib" | r1 where
      "update_locked (cl_io c) (migrate_body cr (cl_ctx c) (cl_now c 0) (nat batch)) ib = (r1, ib')"
    using s_migrate(2) by (auto simp: migrate_def split: sum.splits if_splits prod.splits)
  then show ?thesis
    by cases (use assms(2) ready_bodies_refuse(6) in \<open>auto simp: fenced_def intro: update_refused\<close>)
next
  case (s_plan c p r)
  then have "ib' = ib \<or> update_locked (cl_io c) (plan_body cr (ib_cfg ib) (cl_ctx c) (cl_now c 0) p) ib = (r, ib')"
    by (auto simp: plan_retirement_def split: if_splits)
  then show ?thesis using assms(2) ready_bodies_refuse(1) by (auto simp: fenced_def intro: update_refused)
next
  case (s_apply c auth op r)
  consider "ib' = ib" | st where
      "update_locked (cl_io c) (apply_body cr (ib_cfg ib) (cl_ctx c) (cl_now c) op st) ib = (r, ib')"
    using s_apply(2) by (auto simp: apply_retirement_def split: sum.splits if_splits)
  then show ?thesis
    by cases (use assms(2) ready_bodies_refuse(2) in \<open>auto simp: fenced_def intro: update_refused\<close>)
next
  case (s_abort c auth p r)
  then show ?thesis using abort_plan_stays assms(2) by blast
next
  case (s_abort_op c auth op r)
  then have "ib' = ib \<or> (\<exists>p. abort_plan cr (later_call c) auth p ib = (r, ib'))"
    by (auto simp: abort_retirement_def split: sum.splits)
  then show ?thesis using abort_plan_stays assms(2) by auto
next
  case (s_capture c ev r)
  then show ?thesis using capture_stays assms(2) by blast
next
  case (s_verify c publish sid completion r)
  then obtain r1 where upd: "update_locked (cl_io c) (verify_body cr (ib_cfg ib) (cl_ctx c) (cl_now c) sid completion) ib = (r1, ib')"
    by (auto simp: verify_catalog_def split: prod.splits sum.splits)
  have "stays ib ib'"
  proof (rule update_stays [OF upd])
    fix ce t
    assume "verify_body cr (ib_cfg ib) (cl_ctx c) (cl_now c) sid completion (begin_tx (ib_db ib)) = Inr (ce, t)"
    then show "still (ib_db ib) (mt_db t)"
      by (cases rule: verify_body_effect) (use assms(2) fenced_not_ready in \<open>auto simp: fenced_def\<close>)
  qed
  then show ?thesis by simp
next
  case (s_rehydrate c sid records r)
  then have "ib' = ib \<or> update_locked (cl_io c) (rehydrate_body cr (ib_cfg ib) (cl_ctx c) sid records) ib = (r, ib')"
    by (auto simp: rehydrate_def split: if_splits)
  then show ?thesis using assms(2) ready_bodies_refuse(4) by (auto simp: fenced_def intro: update_refused)
next
  case (s_evict c through r)
  then show ?thesis using assms(2) ready_bodies_refuse(5) by (auto simp: evict_cache_def fenced_def intro: update_refused)
next
  case (s_fence c r)
  then have "ib' = ib \<or> update_locked (cl_io c) (fence_body (cl_ctx c)) (ib\<lparr>ib_recovering := True\<rparr>) = (r, ib')"
    by (auto simp: set_recovery_mode_def split: if_splits sum.splits)
  moreover have "stays (ib\<lparr>ib_recovering := True\<rparr>) ib'"
    if "update_locked (cl_io c) (fence_body (cl_ctx c)) (ib\<lparr>ib_recovering := True\<rparr>) = (r, ib')"
    by (rule update_stays [OF that], drule fence_body_effect) (use assms(2) in \<open>auto simp: still_def fenced_def\<close>)
  ultimately show ?thesis using assms(2) by (auto simp: stays_def fenced_def)
next
  case (s_admit c approval r)
  show ?thesis
  proof (cases "verify_approval cr (lc_recovery_keys (ib_cfg ib)) approval (utc (cl_now c 0))")
    case (Inl x)
    with s_admit show ?thesis by (simp add: admit_recovery_def)
  next
    case (Inr p)
    then obtain r1 ib1 where upd: "update_locked (cl_io c) (admit_body cr (ib_cfg ib) (cl_ctx c) p approval) ib = (r1, ib1)"
        "ib_db ib' = ib_db ib1" "r1 = Inl x \<Longrightarrow> ib' = ib1" for x
      using s_admit by (auto simp: admit_recovery_def split: prod.splits sum.splits)
    show ?thesis
    proof (cases "approval_matches p st")
      case True
      with Inr s_admit show ?thesis unfolding admits_def by blast
    next
      case False
      have none: "admit_body cr (ib_cfg ib) (cl_ctx c) p approval (begin_tx (ib_db ib)) \<noteq> Inr x" for x
        using False admit_body_effect(2) [of cr "ib_cfg ib" "cl_ctx c" p approval "begin_tx (ib_db ib)" "fst x" "snd x"] assms(3) by auto
      then have "run_update (cl_io c) (admit_body cr (ib_cfg ib) (cl_ctx c) p approval) (ib_db ib) \<noteq> Inr x" for x
        by (cases x) (auto simp: run_update_Inr)
      then have "r1 \<noteq> Inr y" for y using upd(1) update_locked_Inr(3) by fastforce
      then have "ib' = ib1" using upd(3) by (cases r1) auto
      with update_refused [OF upd(1) none] show ?thesis by simp
    qed
  qed
next
  case s_close
  then show ?thesis by (simp add: close_inbox_def stays_flag)
qed

lemma serves_fenced:
  assumes "serves cr ib ib'" "fenced ib" "recovery_state_of cr (lc_env (ib_cfg ib)) (ib_db ib) = Inr st"
  shows "stays ib ib' \<or> (\<exists>ib1 ib2. serves cr ib ib1 \<and> stays ib ib1 \<and> admits cr st ib1 ib2 \<and> serves cr ib2 ib')"
  using assms
proof (induction rule: serves.induct)
  case (work ib ib1 ib2)
  from work.IH [OF work.prems] show ?case
  proof
    assume s: "stays ib ib1"
    then have "fenced ib1" "recovery_state_of cr (lc_env (ib_cfg ib1)) (ib_db ib1) = Inr st"
      using work.prems stays_fenced still_state [of "ib_db ib" "ib_db ib1"] by (auto simp: stays_def)
    from serve_fenced [OF work.hyps(2) this] s work.hyps(1) show ?case
      by (auto intro: stays_trans serves.idle)
  next
    assume "\<exists>i j. serves cr ib i \<and> stays ib i \<and> admits cr st i j \<and> serves cr j ib1"
    then show ?case using work.hyps(2) by (blast intro: serves.work)
  qed
qed simp

section \<open>From the restored copy to its admission\<close>

lemma stage_db_fence:
  assumes "stage_db cr c n env d = Inr (st, g, d')"
  shows "meta_get d' ''recovery_fence'' = Some (Raw ''1'')" "recovery_state_of cr env d' = Inr st" "rv_fenced st"
proof -
  from assms have state: "recovery_state_of cr env d' = Inr st"
    by (auto simp: stage_db_def Let_def split: if_splits)
  moreover show "meta_get d' ''recovery_fence'' = Some (Raw ''1'')"
    using assms by (auto simp: stage_db_def Let_def db_put_def db_del_def split: if_splits)
  ultimately show "recovery_state_of cr env d' = Inr st" "rv_fenced st"
    by (auto simp: recovery_state_of_def fence_text split: if_splits)
qed

lemma prepare_recovery_fence:
  assumes "prepare_recovery cr c ev f m keys n = Inr (st, d, am)"
  shows "meta_get d ''recovery_fence'' = Some (Raw ''1'')" "recovery_state_of cr (mf_env m) d = Inr st" "rv_fenced st"
  using assms stage_db_fence by (auto simp: prepare_recovery_def)

text \<open>Opening keeps the fence.\<close>

lemma open_fenced:
  assumes "open_billing_inbox ev io init (Some d) = (Inr ib, stored)" "meta_get d ''recovery_fence'' = Some (Raw ''1'')"
  shows "still d (ib_db ib)" "fenced ib"
proof -
  obtain ib0 u where ib0: "ib_db ib0 = d" "ib_recovering ib0" and upd: "update_locked io drop_session_body ib0 = (Inr u, ib)"
  proof (rule that)
    let ?ib = "\<lparr>ib_db = d, ib_failed = False, ib_closed = False,
        ib_recovering = (as_text (meta_get d ''recovery_fence'') = Some ''1''), ib_cfg = no_lifecycle\<rparr>"
    show "ib_db ?ib = d" "ib_recovering ?ib" using assms(2) by (simp_all add: fence_text)
    show "update_locked io drop_session_body ?ib = (Inr (), ib)"
      using assms(1) by (auto simp: open_billing_inbox_def Let_def split: if_splits sum.splits option.splits prod.splits)
  qed
  have "stays ib0 ib"
    by (rule update_stays [OF upd]) (auto simp: drop_session_body_def still_def split: if_splits)
  with ib0 assms(2) show "still d (ib_db ib)" "fenced ib"
    using stays_fenced [of ib0 ib] by (auto simp: stays_def fenced_def)
qed

text \<open>C30: A restored copy waits for its approval. From a snapshot that was prepared for recovery and opened,
  whatever operations run, the inbox stays fenced and unhealthy with the ledger and the reviewed
  state exactly as they were prepared, unless at some moment \<open>AdmitRecovery\<close> is given an approval that verifies
  under a recovery key and names this very state.\<close>

theorem restored_copy_waits_for_its_approval:
  assumes "prepare_recovery cr c ev f m keys n = Inr (st, d, am)"
    "open_billing_inbox oev io init (Some d) = (Inr ib0, stored)"
    "serves cr (ib0\<lparr>ib_cfg := cfg\<rparr>) ib" "lc_env cfg = mf_env m"
  shows "(ib_recovering ib \<and> recovery_state_of cr (mf_env m) (ib_db ib) = Inr st
        \<and> db_entries (ib_db ib) ''events'' = db_entries d ''events'' \<and> (\<forall>c k j. health c k j ib \<noteq> Inr ()))
     \<or> (\<exists>ib1 ib2 c approval r p. serves cr (ib0\<lparr>ib_cfg := cfg\<rparr>) ib1 \<and> recovery_state_of cr (mf_env m) (ib_db ib1) = Inr st
          \<and> admit_recovery cr c approval ib1 = (r, ib2)
          \<and> verify_approval cr (lc_recovery_keys cfg) approval (utc (cl_now c 0)) = Inr p \<and> approval_matches p st
          \<and> serves cr ib2 ib)"
proof -
  note prep = prepare_recovery_fence [OF assms(1)]
  note opened = open_fenced [OF assms(2) prep(1)]
  let ?ib = "ib0\<lparr>ib_cfg := cfg\<rparr>"
  have f: "fenced ?ib" "recovery_state_of cr (lc_env (ib_cfg ?ib)) (ib_db ?ib) = Inr st"
    using opened prep(2) still_state [OF opened(1)] assms(4) by (simp_all add: fenced_def)
  have same: "recovery_state_of cr (mf_env m) (ib_db i) = Inr st" "ib_cfg i = cfg" if "stays ?ib i" for i
    using that f(2) still_state [of "ib_db ?ib" "ib_db i"] assms(4) by (simp_all add: stays_def)
  from serves_fenced [OF assms(3) f] show ?thesis
  proof
    assume s: "stays ?ib ib"
    then have "db_entries (ib_db ib) ''events'' = db_entries d ''events''"
      using opened(1) by (simp add: stays_def still_def)
    with s same(1) [OF s] stays_fenced [OF s f(1)] show ?thesis by (simp add: fenced_def health_Inr)
  next
    assume "\<exists>ib1 ib2. serves cr ?ib ib1 \<and> stays ?ib ib1 \<and> admits cr st ib1 ib2 \<and> serves cr ib2 ib"
    then obtain ib1 ib2 where "serves cr ?ib ib1" and s: "stays ?ib ib1" and "admits cr st ib1 ib2" "serves cr ib2 ib" by blast
    with same [OF s] show ?thesis unfolding admits_def by metis
  qed
qed

text \<open>A restored copy of the empty store.\<close>

definition quiet_manifest :: manifest where
  "quiet_manifest = toy_manifest\<lparr>mf_high := 0, mf_from := 0, mf_through := 0, mf_count := 0, mf_max_received := zero_time,
     mf_parts := [toy_part ''p'' ''snapshot'']\<rparr>"

definition quiet_snapshot :: snapshot_file where
  "quiet_snapshot = \<lparr>sf_private = True, sf_bytes = 8, sf_sha = toy_sha, sf_copied = True, sf_writes = 0, sf_sound = True,
     sf_db = Inr quiet_db\<rparr>"

definition quiet_stage :: stage_env where
  "quiet_stage = \<lparr>st_fresh = Inr (), st_marker = Inr (), st_open = Inr (), st_commit = Inr (), st_synced = Inr (), st_base = ''b''\<rparr>"

definition staged_db :: db where
  "staged_db =
     [(''archive_cache'', empty_bucket), (''captures'', empty_bucket), (''catalog'', empty_bucket),
      (''events'', empty_bucket), (''ids'', empty_bucket),
      (''meta'', \<lparr>bk_entries = [(''backfilled_through'', Raw (sequence_key 0)), (''identity'', Raw toy_store),
         (''legacy_age_floor'', DTime toy_time), (''legacy_through'', Raw (sequence_key 0)), (''manifest_required'', Raw ''1''),
         (''mutation_generation'', Raw (sequence_key 2)), (''recovery_fence'', Raw ''1''), (''version'', Raw ''2'')], bk_seq = 0\<rparr>),
      (''mutation_journal'', empty_bucket), (''operations'', empty_bucket),
      (''receipt_ids'', empty_bucket), (''receipt_times'', empty_bucket)]"

definition staged_active :: active_manifest where
  "staged_active = \<lparr>am_version = 1, am_file = ''b'', am_store = toy_store, am_generation = ''initial'', am_cutover = 2\<rparr>"

definition staged_state :: recovery_state where
  "staged_state = \<lparr>rv_env = ''e'', rv_store = toy_store, rv_high = 0, rv_floor = 0, rv_history = toy_sha, rv_dependency = toy_sha,
     rv_fenced = True\<rparr>"

definition staged_open :: open_env where
  "staged_open = \<lparr>oe_resolves = True, oe_dir_private = True, oe_anchor = ''b'', oe_manifest = Some (True, DActive staged_active),
     oe_file_private = True, oe_lock = True, oe_settled = True, oe_identity = toy_store\<rparr>"

lemma quiet_manifest_valid: "validate_manifest quiet_manifest = Inr ()"
proof -
  have safe: "safe_id ''e''" "safe_id ''s''" "safe_id ''x''" "safe_id ''k''" "safe_id ''p''"
    by (simp_all add: safe_id_def safe_char_def Let_def)
  have "hex_of_bytes 16 toy_store" by (simp add: toy_store_def hex_of_bytes_def is_lower_hex_def list_all_length)
  moreover have "path_base ''p'' = ''p''" by (simp add: path_base_def)
  moreover have "is_zero zero_time" by (simp add: is_zero_def zero_time_def)
  ultimately show ?thesis
    using safe toy_store_len toy_sha_ok toy_time_facts(1)
    by (simp add: validate_manifest_def quiet_manifest_def toy_manifest_def toy_part_def bounds_defs part_scan_init_def part_ok_def
        part_next_def Let_def)
qed

lemma quiet_audits: "audit_lifecycle toy_crypto background 0 True ''e'' [''e''] None quiet_db = Inr ()"
  by (simp add: audit_lifecycle_def quiet_db_def Let_def need_def audit_shape_def audit_buckets_def db_defs empty_bucket_def
     audit_meta_def ctx_each_def audit_sequence_keys_def audit_events_def catalog_ranges_def completed_ranges_def
     audit_journal_entry_def mutation_kinds_def seq_range_def)

lemma quiet_prepared:
  "prepare_recovery toy_crypto background quiet_stage quiet_snapshot quiet_manifest None 5 = Inr (staged_state, staged_db, staged_active)"
proof -
  have fields: "mf_env quiet_manifest = ''e''" "mf_sources quiet_manifest = [''e'']" "mf_high quiet_manifest = 0"
      "mf_store quiet_manifest = toy_store" "mf_snapshot_bytes quiet_manifest = 8" "mf_snapshot_sha quiet_manifest = toy_sha"
    by (simp_all add: quiet_manifest_def toy_manifest_def)
  have reads: "db_has quiet_db ''meta''" "db_has quiet_db ''events''" "db_has quiet_db ''ids''" "db_seq quiet_db ''events'' = 0"
      "meta_get quiet_db ''identity'' = Some (Raw toy_store)" "meta_get quiet_db ''version'' = Some (Raw ''2'')"
      "meta_get quiet_db ''archive_floor'' = None" "meta_get quiet_db ''storage_generation'' = None"
    by (simp_all add: quiet_db_def db_defs empty_bucket_def)
  have "validate_snapshot toy_crypto background quiet_snapshot quiet_manifest None = Inr ()"
    using quiet_manifest_valid quiet_audits reads
    by (simp add: validate_snapshot_def quiet_snapshot_def fields ctx_each_def seq_range_def Let_def)
  moreover have "stage_db toy_crypto background 6 ''e'' quiet_db = Inr (staged_state, 2, staged_db)"
    by (simp add: stage_db_def quiet_db_def staged_db_def staged_state_def db_put_def db_del_def set_key_def del_key_def on_bucket_def
        db_defs empty_bucket_def less_char_def adel_def recovery_state_of_def hash_bucket_def text_or_empty_def toy_crypto_def
        toy_sha_def Let_def background_def ctx_check_def)
  ultimately show ?thesis
    by (simp add: prepare_recovery_def quiet_stage_def quiet_snapshot_def fields background_def ctx_check_def staged_active_def
        storage_generation_of_def text_or_empty_def reads Let_def)
qed

lemma quiet_opened:
  "\<exists>ib stored. open_billing_inbox staged_open (cl_io toy_call) False (Some staged_db) = (Inr ib, stored)"
proof -
  have "load_active ''b'' (Some (True, DActive staged_active)) = Inr (Some staged_active)"
    by (simp add: load_active_def staged_active_def toy_store_len safe_id_def safe_char_def Let_def path_base_def)
  moreover have "open_check staged_open (Some staged_active) staged_db = Inr ()"
    using toy_store_len
    by (simp add: open_check_def staged_db_def db_defs empty_bucket_def validate_active_def staged_active_def text_or_empty_def)
  moreover have "meta_get staged_db ''compaction_session'' = None" by (simp add: staged_db_def db_defs)
  ultimately show ?thesis
    by (simp add: open_billing_inbox_def staged_open_def update_locked_def run_update_def drop_session_body_def finish_update_def
        begin_tx_def Let_def)
qed

theorem restored_copy_waits_for_its_approval_witness:
  "\<exists>ib0 stored. open_billing_inbox staged_open (cl_io toy_call) False (Some staged_db) = (Inr ib0, stored)
     \<and> ib_recovering (ib0\<lparr>ib_cfg := toy_config\<rparr>)
     \<and> recovery_state_of toy_crypto ''e'' (ib_db (ib0\<lparr>ib_cfg := toy_config\<rparr>)) = Inr staged_state"
proof -
  obtain ib0 stored where opened: "open_billing_inbox staged_open (cl_io toy_call) False (Some staged_db) = (Inr ib0, stored)"
    using quiet_opened by blast
  have cfg: "lc_env toy_config = mf_env quiet_manifest" "mf_env quiet_manifest = ''e''" "lc_recovery_keys toy_config = []"
    by (simp_all add: toy_config_def quiet_manifest_def toy_manifest_def no_lifecycle_def)
  have "verify_approval toy_crypto [] approval t \<noteq> Inr p" for approval t p
    by (simp add: verify_approval_def registered_key_def Let_def split: b64.splits)
  with restored_copy_waits_for_its_approval [OF quiet_prepared opened serves.idle cfg(1)] opened cfg show ?thesis by auto
qed

end
