(* ===== verification/Tombstone.thy ===== *)
theory Tombstone
  imports RetirementProperties LifecycleAudit
begin

text \<open>
  A tombstone ahead of the receipts. \<open>AbortRetirementPlan\<close> (\<open>billing_lifecycle.go\<close>) stores an aborted
  operation for a plan that never reached the store, so the range of the plan is not compared with
  the receipts; the audit (\<open>billing_audit.go\<close>) rejects every operation whose range ends beyond them.
\<close>

lemma abort_body_tombstone:
  assumes "abort_body cr cfg c now p st t = Inr (st', t')"
    and "db_get (mt_db t) ''operations'' (rp_op p) = None"
  shows "st' = seal_status cr (st\<lparr>rs_status := ''aborted'', rs_completed := utc now, rs_retired := archive_floor (mt_db t)\<rparr>)"
    and "db_get (mt_db t') ''operations'' (rp_op p) = Some (DStatus st')"
    and "db_seq (mt_db t') b = db_seq (mt_db t) b"
  using assms by (auto simp: abort_body_def Let_def split: if_splits)

lemma sealed_tombstone [simp]:
  "rs_through (seal_status cr st) = rs_through st" "rs_status (seal_status cr st) = rs_status st"
  by (simp_all add: seal_status_def)

lemma db_get_entry: "db_get d b k = Some v \<Longrightarrow> (k, v) \<in> set (db_entries d b)"
  by (simp add: db_get_def map_of_SomeD)

lemma audit_rejects_operation:
  assumes "db_get d ''operations'' op = Some v" "\<not> audit_operation cr env d (op, v)"
  shows "audit_lifecycle cr c base sound env sources keys d \<noteq> Inr ()"
proof -
  have "\<not> list_all (audit_operation cr env d) (db_entries d ''operations'')"
    using assms db_get_entry [OF assms(1)] unfolding list_all_iff by blast
  then show ?thesis by (simp add: audit_lifecycle_def need_def Let_def)
qed

text \<open>C37: A tombstone can make every audit fail. When \<open>AbortRetirementPlan\<close> succeeds for an operation that
  the store does not know, and the plan ends beyond the last receipt (the store was restored from a
  backup older than the plan, say), the aborted operation is stored, and as long as the receipts do not
  reach the end of the plan the audit rejects the store and every copy of it, whatever its
  arguments: no backup is verified, no candidate of a compaction and no recovered copy accepted.\<close>

theorem tombstone_fails_the_audit:
  assumes run: "abort_plan cr c auth p ib = (Inr st, ib')"
    and unknown: "db_get (ib_db ib) ''operations'' (rp_op p) = None"
    and ahead: "db_seq (ib_db ib) ''events'' < rp_through p"
  shows "rs_status st = ''aborted'' \<and> db_get (ib_db ib') ''operations'' (rp_op p) = Some (DStatus st)
     \<and> db_seq (ib_db ib') ''events'' < rp_through p
     \<and> (\<forall>d c i sound env sources keys.
          db_get d ''operations'' (rp_op p) = Some (DStatus st) \<and> db_seq d ''events'' < rp_through p \<longrightarrow>
          audit_lifecycle cr c i sound env sources keys d \<noteq> Inr ())"
proof -
  let ?body = "abort_body cr (ib_cfg ib) (cl_ctx c) (cl_now c 0) p (status_for p)"
  have "update_locked (cl_io c) ?body ib = (Inr st, ib')"
    using run unknown by (auto simp: abort_plan_def Let_def retirement_def split: if_splits sum.splits)
  from update_locked_Inr(3) [OF this] obtain t where
    t: "?body (begin_tx (ib_db ib)) = Inr (st, t)" "same_content (mt_db t) (ib_db ib')"
    by (auto simp: run_update_Inr dest: finish_same_content)
  have none: "db_get (mt_db (begin_tx (ib_db ib))) ''operations'' (rp_op p) = None" using unknown by simp
  note B = abort_body_tombstone [OF t(1) none]
  have st: "rs_through st = rp_through p" "rs_status st = ''aborted''" by (simp_all add: B(1) status_for_def)
  have "\<not> audit_operation cr env d (rp_op p, DStatus st)" if "db_seq d ''events'' < rp_through p" for env d
    using that st(1) by (simp add: audit_operation_def not_le)
  then have "audit_lifecycle cr c i sound env sources keys d \<noteq> Inr ()"
    if "db_get d ''operations'' (rp_op p) = Some (DStatus st)" "db_seq d ''events'' < rp_through p"
    for d c i sound env sources keys
    using audit_rejects_operation that by blast
  then show ?thesis
    using st(2) B(2,3) ahead same_content_get [OF t(2), of "''operations''"] same_contentD(2) [OF t(2), of "''events''"]
    by auto
qed

definition ahead_plan :: retirement_plan where
  "ahead_plan = toy_plan\<lparr>rp_op := ''p'', rp_from := 2, rp_through := 2\<rparr>"

theorem tombstone_fails_the_audit_witness:
  "\<exists>st ib'. abort_plan toy_crypto late_call (LocalAuthority (\<lambda>_. Inr ())) ahead_plan planned_inbox = (Inr st, ib')
     \<and> audit_lifecycle toy_crypto background 0 True ''e'' [''e''] None (ib_db ib') \<noteq> Inr ()"
proof -
  let ?body = "abort_body toy_crypto toy_config background (GTime (738200 * day) 0) ahead_plan (status_for ahead_plan)"
  have sha: "valid_digest toy_sha" by simp
  have has: "db_has planned_db ''operations''" by (simp add: planned_db_has toy_entries_def)
  have "\<exists>st t. ?body (begin_tx planned_db) = Inr (st, t)"
    using planned_db_ready has
    by (simp add: abort_body_def ahead_plan_def toy_plan_def toy_config_def Let_def t_put_def db_put_def)
  then obtain st t where t: "?body (begin_tx planned_db) = Inr (st, t)" by blast
  have "writable (mt_db t)" using t has by (auto simp: writable_def abort_body_def Let_def planned_db_has toy_entries_def split: if_splits)
  then obtain d where d: "finish_update (cl_io toy_call) t = Inr d" using finish_update_ok by blast
  have missing: "retirement late_call 0 0 (rp_op ahead_plan) planned_inbox = Inl ErrOperationNotFound"
  proof -
    have "health late_call 0 0 planned_inbox = Inr ()" by (simp add: health_Inr late_call_def planned_inbox_def)
    then show ?thesis by (simp add: retirement_def planned_inbox_def ahead_plan_def safe_id_def safe_char_def)
  qed
  have shape: "plan_shape_ok ahead_plan"
    using sha by (simp add: plan_shape_ok_def ahead_plan_def toy_plan_def safe_id_def safe_char_def)
  have run: "abort_plan toy_crypto late_call (LocalAuthority (\<lambda>_. Inr ())) ahead_plan planned_inbox =
      (Inr st, planned_inbox\<lparr>ib_db := d\<rparr>)"
    using t d sha missing shape
    by (simp add: abort_plan_def late_call_def planned_inbox_def validate_authority_def update_locked_def
        run_update_def Let_def)
  have "db_get (ib_db planned_inbox) ''operations'' (rp_op ahead_plan) = None"
      "db_seq (ib_db planned_inbox) ''events'' < rp_through ahead_plan"
    by (simp_all add: planned_inbox_def ahead_plan_def)
  from tombstone_fails_the_audit [OF run this] run show ?thesis by blast
qed

end
