(* ===== verification/Cleanup.thy ===== *)
theory Cleanup
  imports Compaction Loki ArchiveSample
begin

text \<open>
  What the program deletes from its directories: \<open>cleanupInterruptedCompactionScratch\<close> with its helpers
  and \<open>reclaimGeneration\<close> (\<open>billing_compaction.go\<close>), and \<open>cleanupScratch\<close> (\<open>billing_backup.go\<close>). The theorem says that the clean-up of an
  interrupted compaction removes nothing but the marked scratch of its own inbox, and never the
  active generation.
\<close>

section \<open>Directories\<close>

record scratch_owner =
  so_version :: int
  so_env :: bytes
  so_store :: bytes
  so_anchor :: bytes
  so_generation :: bytes

text \<open>
  A file is what the program asks of it: its identity, whether it is regular and without access for others,
  its size, and what opening and decoding it gives as an owner marker, as a document and as a database.
\<close>

record fs_file =
  ff_id :: nat
  ff_regular :: bool
  ff_private :: bool
  ff_size :: int
  ff_owner :: "go_error + scratch_owner"
  ff_doc :: doc
  ff_db :: "go_error + db"

datatype node = File fs_file | Folder nat bool

text \<open>The entries of each directory, by its path.\<close>

type_synonym fs = "bytes \<Rightarrow> (bytes \<times> node) list option"

definition node_at :: "fs \<Rightarrow> bytes \<Rightarrow> bytes \<Rightarrow> node option" where
  "node_at fs d n = (case fs d of None \<Rightarrow> None | Some es \<Rightarrow> aget es n)"

definition unlink :: "bytes \<Rightarrow> bytes \<Rightarrow> fs \<Rightarrow> fs" where
  "unlink d n fs = fs(d := map_option (adel n) (fs d))"

definition private_file :: "node option \<Rightarrow> fs_file option" where
  "private_file x = (case x of Some (File f) \<Rightarrow> if ff_regular f \<and> ff_private f then Some f else None | _ \<Rightarrow> None)"

text \<open>\<open>filepath.Dir\<close>, \<open>Base\<close>, \<open>Join\<close> and \<open>Clean\<close>, for absolute paths.\<close>

definition cut_slash :: "bytes \<Rightarrow> bytes \<times> bytes" where
  "cut_slash p = (rev (drop 1 (dropWhile (\<lambda>c. c \<noteq> CHR ''/'') (rev p))), rev (takeWhile (\<lambda>c. c \<noteq> CHR ''/'') (rev p)))"

definition path_dir :: "bytes \<Rightarrow> bytes" where
  "path_dir p = (if fst (cut_slash p) = [] then ''/'' else fst (cut_slash p))"

definition path_name :: "bytes \<Rightarrow> bytes" where "path_name p = snd (cut_slash p)"

definition join_path :: "bytes \<Rightarrow> bytes \<Rightarrow> bytes" where
  "join_path d n = (if d = ''/'' then ''/'' @ n else d @ ''/'' @ n)"

definition is_abs :: "bytes \<Rightarrow> bool" where "is_abs p = starts_with p ''/''"

definition clean_path :: "bytes \<Rightarrow> bytes" where
  "clean_path p =
     ''/'' @ join ''/'' (rev (fold (\<lambda>c up. if c = [] \<or> c = ''.'' then up else if c = ''..'' then drop 1 up else c # up)
                              (split_on (CHR ''/'') p) []))"

section \<open>The scratch of a compaction\<close>

definition compaction_generation :: "bytes \<Rightarrow> bool" where
  "compaction_generation name = hex_of_bytes 16 name"

definition compact_name :: "bytes \<Rightarrow> bytes" where "compact_name g = ''compact-'' @ g"

definition read_compaction_owner :: "fs \<Rightarrow> bytes \<Rightarrow> go_error + scratch_owner" where
  "read_compaction_owner fs dir =
     (case private_file (node_at fs dir ''owner.json'') of
        None \<Rightarrow> Inl ErrBillingUnavailable
      | Some f \<Rightarrow> if ff_size f > 16384 then Inl ErrBillingUnavailable else ff_owner f)"

definition scratch_entry_ok :: "fs \<Rightarrow> bytes \<Rightarrow> scratch_owner \<Rightarrow> bytes \<times> node \<Rightarrow> bool" where
  "scratch_entry_ok fs dir owner e =
     (fst e \<in> {''snapshot.db'', ''owner.json''} \<and> private_file (Some (snd e)) \<noteq> None
      \<and> (fst e = ''owner.json'' \<longrightarrow> read_compaction_owner fs dir = Inr owner))"

text \<open>
  \<open>removeCompactionScratch\<close>. The directories do not change under the call but by the call, so the files of an
  \<open>Lstat\<close> and the open that follows it are the same; \<open>io n\<close> is the outcome of the listing, of
  each \<open>Remove\<close> and of the \<open>Sync\<close>.
\<close>

definition remove_compaction_scratch ::
    "(nat \<Rightarrow> go_error option) \<Rightarrow> bytes \<Rightarrow> scratch_owner \<Rightarrow> nat option \<Rightarrow> bool \<Rightarrow> bool \<Rightarrow> fs \<Rightarrow> (go_error + unit) \<times> fs" where
  "remove_compaction_scratch io parent owner created marker_required retain fs =
     (let name = compact_name (so_generation owner); dir = join_path parent name; failed = (Inl ErrBillingUnavailable, fs)
      in if path_dir (so_anchor owner) = dir then failed
         else case (node_at fs parent name, fs dir) of
           (Some (Folder i private), Some entries) \<Rightarrow>
             if \<not> private \<or> (created \<noteq> None \<and> created \<noteq> Some i) then failed
             else (case io 0 of
               Some x \<Rightarrow> (Inl x, fs)
             | None \<Rightarrow>
                 if \<not> list_all (scratch_entry_ok fs dir owner) entries then failed
                 else if marker_required \<and> ''owner.json'' \<notin> set (akeys entries) then failed
                 else (case io 1 of
                   Some x \<Rightarrow> (Inl x, fs)
                 | None \<Rightarrow>
                     let fs1 = unlink dir ''snapshot.db'' fs
                     in if retain then (case io 2 of Some x \<Rightarrow> (Inl x, fs1) | None \<Rightarrow> (Inr (), fs1))
                        else (case io 3 of
                          Some x \<Rightarrow> (Inl x, fs1)
                        | None \<Rightarrow>
                            let fs2 = unlink dir ''owner.json'' fs1
                            in (case io 4 of
                                  Some x \<Rightarrow> (Inl x, fs2)
                                | None \<Rightarrow>
                                    if fs2 dir \<noteq> Some [] then (Inl (ErrMsg ''directory not empty''), fs2)
                                    else (Inr (), (unlink parent name fs2)(dir := None))))))
         | _ \<Rightarrow> failed)"

definition candidate_name :: "scratch_owner \<Rightarrow> bytes" where
  "candidate_name owner = generation_file (path_name (so_anchor owner)) (so_generation owner)"

definition remove_compaction_candidate ::
    "(nat \<Rightarrow> go_error option) \<Rightarrow> scratch_owner \<Rightarrow> nat option \<Rightarrow> fs \<Rightarrow> (go_error + unit) \<times> fs" where
  "remove_compaction_candidate io owner info fs =
     (if \<not> compaction_generation (so_generation owner) \<or> info = None then (Inl ErrBillingUnavailable, fs)
      else case private_file (node_at fs (path_dir (so_anchor owner)) (candidate_name owner)) of
        None \<Rightarrow> (Inl ErrBillingUnavailable, fs)
      | Some f \<Rightarrow>
          if info \<noteq> Some (ff_id f) then (Inl ErrBillingUnavailable, fs)
          else (case io 5 of
            Some x \<Rightarrow> (Inl x, fs)
          | None \<Rightarrow>
              let fs1 = unlink (path_dir (so_anchor owner)) (candidate_name owner) fs
              in (case io 6 of Some x \<Rightarrow> (Inl x, fs1) | None \<Rightarrow> (Inr (), fs1))))"

text \<open>The active manifest beside the anchor.\<close>

definition active_of :: "fs \<Rightarrow> bytes \<Rightarrow> go_error + active_manifest option" where
  "active_of fs anchor =
     load_active (path_name anchor)
       (map_option (\<lambda>x. case private_file (Some x) of
            None \<Rightarrow> (False, Raw [])
          | Some f \<Rightarrow> (ff_size f \<le> 16384, ff_doc f))
        (node_at fs (path_dir anchor) (path_name anchor @ ''.active.json'')))"

definition candidate_of :: "scratch_owner \<Rightarrow> db \<Rightarrow> bool" where
  "candidate_of owner d =
     (db_has d ''meta'' \<and> as_text (meta_get d ''identity'') = Some (so_store owner)
      \<and> (as_text (meta_get d ''compaction_session'') = Some (so_generation owner)
          \<or> as_text (meta_get d ''storage_generation'') = Some (so_generation owner)))"

definition cleanup_candidate ::
    "(nat \<Rightarrow> go_error option) \<Rightarrow> scratch_owner \<Rightarrow> bytes \<Rightarrow> fs \<Rightarrow> (go_error + unit) \<times> fs" where
  "cleanup_candidate io owner active fs =
     (case active_of fs (so_anchor owner) of
        Inr (Some m) \<Rightarrow>
          if am_file m = [] \<or> am_store m \<noteq> so_store owner
             \<or> join_path (path_dir (so_anchor owner)) (am_file m) \<noteq> active
          then (Inl ErrBillingUnavailable, fs)
          else if generation_file (so_anchor owner) (so_generation owner) = active then (Inr (), fs)
          else (case node_at fs (path_dir (so_anchor owner)) (candidate_name owner) of
            None \<Rightarrow> (Inr (), fs)
          | Some x \<Rightarrow>
              (case private_file (Some x) of
                 None \<Rightarrow> (Inl ErrBillingUnavailable, fs)
               | Some f \<Rightarrow>
                   (case ff_db f of
                      Inl x \<Rightarrow> (Inl x, fs)
                    | Inr d \<Rightarrow>
                        if \<not> candidate_of owner d then (Inl ErrBillingUnavailable, fs)
                        else remove_compaction_candidate io owner (Some (ff_id f)) fs)))
      | _ \<Rightarrow> (Inl ErrBillingUnavailable, fs))"

text \<open>One entry of the scratch directory, and the loop over the entries as they were listed.\<close>

definition cleanup_entry ::
    "(nat \<Rightarrow> go_error option) \<Rightarrow> bytes \<Rightarrow> scratch_owner \<Rightarrow> bytes \<Rightarrow> bytes \<Rightarrow> fs \<Rightarrow> (go_error + unit) \<times> fs" where
  "cleanup_entry io scratch scope active name fs =
     (let g = drop 8 name
      in if \<not> starts_with name ''compact-'' \<or> \<not> compaction_generation g then (Inr (), fs)
         else case node_at fs scratch name of
           Some (Folder i True) \<Rightarrow>
             (case read_compaction_owner fs (join_path scratch name) of
                Inl x \<Rightarrow> (Inl x, fs)
              | Inr owner \<Rightarrow>
                  if so_version owner \<noteq> 1 \<or> so_generation owner \<noteq> g \<or> \<not> safe_id (so_env owner)
                     \<or> \<not> compaction_generation (so_store owner) \<or> \<not> is_abs (so_anchor owner)
                     \<or> clean_path (so_anchor owner) \<noteq> so_anchor owner
                  then (Inl ErrBillingUnavailable, fs)
                  else if so_env owner \<noteq> so_env scope \<or> so_store owner \<noteq> so_store scope \<or> so_anchor owner \<noteq> so_anchor scope
                  then (Inr (), fs)
                  else (case cleanup_candidate io owner active fs of
                          (Inl x, fs) \<Rightarrow> (Inl x, fs)
                        | (Inr _, fs) \<Rightarrow> remove_compaction_scratch io scratch owner (Some i) True False fs))
         | _ \<Rightarrow> (Inl ErrBillingUnavailable, fs))"

fun cleanup_entries ::
    "(nat \<Rightarrow> nat \<Rightarrow> go_error option) \<Rightarrow> bytes \<Rightarrow> scratch_owner \<Rightarrow> bytes \<Rightarrow> bytes list \<Rightarrow> fs \<Rightarrow> (go_error + unit) \<times> fs" where
  "cleanup_entries io scratch scope active [] fs = (Inr (), fs)"
| "cleanup_entries io scratch scope active (name # names) fs =
     (case cleanup_entry (io (length names)) scratch scope active name fs of
        (Inl x, fs) \<Rightarrow> (Inl x, fs)
      | (Inr _, fs) \<Rightarrow> cleanup_entries io scratch scope active names fs)"

definition cleanup_interrupted ::
    "(nat \<Rightarrow> nat \<Rightarrow> go_error option) \<Rightarrow> go_error option \<Rightarrow> go_error option \<Rightarrow> bytes \<Rightarrow> scratch_owner \<Rightarrow> bytes \<Rightarrow> fs \<Rightarrow>
     (go_error + unit) \<times> fs" where
  "cleanup_interrupted io listed synced scratch scope active fs =
     (case fs scratch of
        None \<Rightarrow> (Inl (ErrMsg ''no such file or directory''), fs)
      | Some entries \<Rightarrow>
          (case listed of
             Some x \<Rightarrow> (Inl x, fs)
           | None \<Rightarrow>
               (case cleanup_entries io scratch scope active (akeys entries) fs of
                  (Inl x, fs) \<Rightarrow> (Inl x, fs)
                | (Inr _, fs) \<Rightarrow> (case synced of Some x \<Rightarrow> (Inl x, fs) | None \<Rightarrow> (Inr (), fs)))))"

text \<open>
  The start of \<open>CompactOnline\<close> after \<open>Health\<close> and readiness: the scratch directory is private, the leftovers are removed,
  and both file systems have room for the store and two gibibytes more.
\<close>

definition prepare_compaction ::
    "(nat \<Rightarrow> nat \<Rightarrow> go_error option) \<Rightarrow> go_error option \<Rightarrow> go_error option \<Rightarrow> go_error + int \<Rightarrow> go_error + int \<Rightarrow> go_error + int \<Rightarrow>
     lifecycle_config \<Rightarrow> bytes \<Rightarrow> bytes \<Rightarrow> bytes \<Rightarrow> fs \<Rightarrow> (go_error + unit) \<times> fs" where
  "prepare_compaction io listed synced hot_free scratch_free sz cfg store anchor active fs =
     (let scratch = lc_scratch cfg;
          scope = \<lparr>so_version = 1, so_env = lc_env cfg, so_store = store, so_anchor = anchor, so_generation = []\<rparr>
      in case node_at fs (path_dir scratch) (path_name scratch) of
           Some (Folder i True) \<Rightarrow>
             (case cleanup_interrupted io listed synced scratch scope active fs of
                (Inl _, fs) \<Rightarrow> (Inl ErrBillingUnavailable, fs)
              | (Inr _, fs) \<Rightarrow>
                  (andThen hot_free (\<lambda>hot. andThen scratch_free (\<lambda>room. andThen sz (\<lambda>n.
                     guard (n + 2 * gib \<le> hot \<and> n + 2 * gib \<le> room)
                       (ErrMsg ''insufficient online compaction scratch or hot generation capacity'')))), fs))
         | _ \<Rightarrow> (Inl ErrBillingUnavailable, fs))"

section \<open>Publication\<close>

text \<open>
  \<open>publishActive\<close>: a new file under a temporary name, renamed over the manifest. \<open>io\<close> gives the outcomes of the random
  name, of writing the file (which may leave it behind), of the rename and of the \<open>Sync\<close>.
\<close>

definition put_node :: "bytes \<Rightarrow> bytes \<Rightarrow> node \<Rightarrow> fs \<Rightarrow> fs" where
  "put_node d n x fs = fs(d := map_option (\<lambda>es. adel n es @ [(n, x)]) (fs d))"

definition publish_active ::
    "(nat \<Rightarrow> go_error option) \<Rightarrow> bool \<Rightarrow> bytes \<Rightarrow> fs_file \<Rightarrow> bytes \<Rightarrow> fs \<Rightarrow> (go_error + unit) \<times> fs" where
  "publish_active io left_behind tmp manifest anchor fs =
     (let dir = path_dir anchor; written = put_node dir tmp (File manifest) fs
      in case io 0 of
           Some x \<Rightarrow> (Inl x, fs)
         | None \<Rightarrow>
             (case io 1 of
                Some x \<Rightarrow> (Inl x, if left_behind then written else fs)
              | None \<Rightarrow>
                  (case io 2 of
                     Some x \<Rightarrow> (Inl x, written)
                   | None \<Rightarrow>
                       let fs' = put_node dir (path_name anchor @ ''.active.json'') (File manifest) fs
                       in (case io 3 of Some x \<Rightarrow> (Inl x, fs') | None \<Rightarrow> (Inr (), fs')))))"

lemma node_at_put: "fs d \<noteq> None \<Longrightarrow> node_at (put_node d n x fs) d' n' = (if d' = d \<and> n' = n then Some x else node_at fs d' n')"
  by (auto simp: node_at_def put_node_def map_add_def split: option.split)

text \<open>The manifest switches at the rename and at no other point: a failure before it leaves the old generation active, a failure
  after it the new one.\<close>

lemma publication_is_atomic:
  assumes run: "publish_active io left_behind tmp manifest anchor fs = (r, fs')"
    and dir: "fs (path_dir anchor) \<noteq> None" and tmp: "tmp \<noteq> path_name anchor @ ''.active.json''"
    and new: "load_active (path_name anchor) (Some (True, ff_doc manifest)) = Inr (Some m)"
      "ff_regular manifest" "ff_private manifest" "ff_size manifest \<le> 16384"
  shows "active_of fs' anchor = (if io 0 = None \<and> io 1 = None \<and> io 2 = None then Inr (Some m) else active_of fs anchor)"
proof -
  let ?name = "path_name anchor @ ''.active.json''"
  have "node_at fs' (path_dir anchor) ?name =
      (if io 0 = None \<and> io 1 = None \<and> io 2 = None then Some (File manifest) else node_at fs (path_dir anchor) ?name)"
    using run tmp by (auto simp: publish_active_def Let_def node_at_put [where fs = fs and d = "path_dir anchor", OF dir] split: option.splits)
  then show ?thesis using new by (simp add: active_of_def private_file_def)
qed

section \<open>The old generation and the scratch of a backup\<close>

text \<open>
  \<open>reclaimGeneration\<close>: an old generation is removed; the anchor itself is replaced by a file that
  says that the manifest is required. \<open>io\<close> gives the outcomes of the random bytes, of creating
  the new file, of the last change and of the \<open>Sync\<close>; \<open>retired\<close> is the new file and \<open>tmp\<close> its temporary name.
\<close>

definition reclaim_generation ::
    "(nat \<Rightarrow> go_error option) \<Rightarrow> bytes \<Rightarrow> bytes \<Rightarrow> nat \<Rightarrow> bytes \<Rightarrow> fs_file \<Rightarrow> fs \<Rightarrow> (go_error + unit) \<times> fs" where
  "reclaim_generation io anchor old old_id tmp retired fs =
     (let dir = path_dir old; name = path_name old; finish = (\<lambda>fs. (case io 3 of Some x \<Rightarrow> (Inl x, fs) | None \<Rightarrow> (Inr (), fs)))
      in case node_at fs dir name of
           None \<Rightarrow> (Inl (ErrMsg ''no such file or directory''), fs)
         | Some x \<Rightarrow>
             (case private_file (Some x) of
                None \<Rightarrow> (Inl ErrBillingUnavailable, fs)
              | Some f \<Rightarrow>
                  if ff_id f \<noteq> old_id \<or> dir \<noteq> path_dir anchor then (Inl ErrBillingUnavailable, fs)
                  else if old \<noteq> anchor then
                    if \<not> starts_with name (path_name anchor @ ''.gen-'') then (Inl ErrBillingUnavailable, fs)
                    else (case io 2 of Some x \<Rightarrow> (Inl x, fs) | None \<Rightarrow> finish (unlink dir name fs))
                  else (case io 0 of
                    Some x \<Rightarrow> (Inl x, fs)
                  | None \<Rightarrow>
                      let fs1 = fs(dir := map_option (\<lambda>es. es @ [(tmp, File retired)]) (fs dir))
                      in (case io 1 of
                        Some x \<Rightarrow> (Inl x, fs1)
                      | None \<Rightarrow>
                          (case io 2 of
                             Some x \<Rightarrow> (Inl x, fs1)
                           | None \<Rightarrow>
                               finish (fs(dir := map_option (\<lambda>es. adel name es @ [(name, File retired)]) (fs dir))))))))"

definition generated_name :: "bytes \<Rightarrow> bool" where
  "generated_name n =
     (n \<in> {''snapshot.db'', ''manifest.json'', ''complete.json''}
      \<or> safe_id n \<and> ends_with n ''.zst.age'' \<and> (starts_with n ''snapshot-'' \<or> starts_with n ''events-''))"

text \<open>The removal of the listed files, up to the first failure.\<close>

fun remove_listed :: "(nat \<Rightarrow> go_error option) \<Rightarrow> bytes \<Rightarrow> bytes list \<Rightarrow> fs \<Rightarrow> (go_error + unit) \<times> fs" where
  "remove_listed io dir [] fs = (Inr (), fs)"
| "remove_listed io dir (n # ns) fs =
     (case io (length ns) of Some x \<Rightarrow> (Inl x, fs) | None \<Rightarrow> remove_listed io dir ns (unlink dir n fs))"

text \<open>\<open>cleanupScratch\<close>; \<open>synced\<close> are the outcomes of the two \<open>Sync\<close> and of removing the directory between them.\<close>

definition cleanup_scratch ::
    "(nat \<Rightarrow> go_error option) \<Rightarrow> go_error option \<times> go_error option \<times> go_error option \<Rightarrow> bytes \<Rightarrow> doc capture_status \<Rightarrow> bool \<Rightarrow> fs \<Rightarrow>
     (go_error + unit) \<times> fs" where
  "cleanup_scratch io synced scratch st abandoned fs =
     (if \<not> safe_id (cs_set st) \<or> (if abandoned then cs_status st \<noteq> ''abandoned'' else cs_status st \<noteq> ''verified'')
      then (Inl ErrLifecycleConflict, fs)
      else
        let dir = join_path scratch (cs_set st)
        in case fs dir of
             None \<Rightarrow> (Inr (), fs)
           | Some entries \<Rightarrow>
               (case node_at fs scratch (cs_set st) of
                  Some (Folder i True) \<Rightarrow>
                    if \<not> list_all (\<lambda>e. private_file (Some (snd e)) \<noteq> None \<and> generated_name (fst e)) entries
                    then (Inl ErrBillingUnavailable, fs)
                    else
                      (case remove_listed io dir
                              (filter (\<lambda>n. abandoned \<or> n \<notin> {''manifest.json'', ''complete.json''}) (akeys entries)) fs of
                         (Inl x, fs) \<Rightarrow> (Inl x, fs)
                       | (Inr _, fs1) \<Rightarrow>
                           (case synced of (s1, s2, s3) \<Rightarrow>
                              (case s1 of
                                 Some x \<Rightarrow> (Inl x, fs1)
                               | None \<Rightarrow>
                                   if \<not> abandoned then (Inr (), fs1)
                                   else (case s2 of
                                     Some x \<Rightarrow> (Inl x, fs1)
                                   | None \<Rightarrow>
                                       if fs1 dir \<noteq> Some [] then (Inl (ErrMsg ''directory not empty''), fs1)
                                       else
                                         let fs2 = (unlink scratch (cs_set st) fs1)(dir := None)
                                         in (case s3 of Some x \<Rightarrow> (Inl x, fs2) | None \<Rightarrow> (Inr (), fs2))))))
                | _ \<Rightarrow> (Inl ErrBillingUnavailable, fs)))"

lemma node_at_unlink: "node_at (unlink d n fs) d' n' = (if d' = d \<and> n' = n then None else node_at fs d' n')"
  by (auto simp: node_at_def unlink_def split: option.splits)

text \<open>A scratch folder without a marker stops every later compaction of the inbox: the clean-up at its start fails. A crash
  between the removal of the marker and that of the folder leaves such a folder.\<close>

lemma unmarked_scratch_stops_cleanup:
  assumes "starts_with name ''compact-''" "compaction_generation (drop 8 name)"
    and "node_at fs (join_path scratch name) ''owner.json'' = None"
  shows "cleanup_entry io scratch scope active name fs = (Inl ErrBillingUnavailable, fs)"
  using assms
  by (simp add: cleanup_entry_def read_compaction_owner_def private_file_def Let_def
      split: option.split node.split bool.split)

text \<open>The manifest and the completion of a verified set stay.\<close>

lemma remove_listed_keeps: "remove_listed io dir ns fs = (r, fs') \<Longrightarrow> d \<noteq> dir \<or> n \<notin> set ns \<Longrightarrow> node_at fs' d n = node_at fs d n"
proof (induction ns arbitrary: fs)
  case (Cons m ns)
  then show ?case
    using Cons.IH [of "unlink dir m fs"] by (auto simp: node_at_unlink split: option.splits)
qed simp

lemma cleanup_keeps_seal:
  assumes "cleanup_scratch io synced scratch st False fs = (r, fs')" "n \<in> {''manifest.json'', ''complete.json''}"
  shows "node_at fs' d n = node_at fs d n"
proof -
  have "fs' = fs \<or> (\<exists>r ns. remove_listed io (join_path scratch (cs_set st))
          (filter (\<lambda>n. n \<notin> {''manifest.json'', ''complete.json''}) ns) fs = (r, fs'))"
    using assms(1) unfolding cleanup_scratch_def Let_def
    by (simp split: if_splits option.splits node.splits bool.splits prod.splits sum.splits) blast+
  with assms(2) show ?thesis
    using remove_listed_keeps [of io "join_path scratch (cs_set st)" _ fs _ fs' d n] by fastforce
qed

section \<open>What the clean-up removes\<close>

text \<open>The folder of generation \<open>g\<close> carries the marker of this inbox.\<close>

definition own_scratch :: "bytes \<Rightarrow> scratch_owner \<Rightarrow> fs \<Rightarrow> bytes \<Rightarrow> bool" where
  "own_scratch scratch scope fs g =
     (compaction_generation g
      \<and> read_compaction_owner fs (join_path scratch (compact_name g)) = Inr (scope\<lparr>so_version := 1, so_generation := g\<rparr>))"

text \<open>What may be removed: such a folder, its two files (unless the store itself lives there), and the candidate of its
  generation when it belongs to this store and is not the active file.\<close>

definition disposable :: "bytes \<Rightarrow> scratch_owner \<Rightarrow> bytes \<Rightarrow> fs \<Rightarrow> bytes \<Rightarrow> bytes \<Rightarrow> bool" where
  "disposable scratch scope active fs d n =
     (\<exists>g. own_scratch scratch scope fs g
        \<and> (d = scratch \<and> n = compact_name g \<and> (\<exists>i. node_at fs d n = Some (Folder i True))
           \<or> d = join_path scratch (compact_name g) \<and> n \<in> {''snapshot.db'', ''owner.json''} \<and> d \<noteq> path_dir (so_anchor scope)
           \<or> d = path_dir (so_anchor scope) \<and> n = generation_file (path_name (so_anchor scope)) g
             \<and> generation_file (so_anchor scope) g \<noteq> active
             \<and> (\<exists>f e. node_at fs d n = Some (File f) \<and> ff_db f = Inr e
                  \<and> candidate_of (scope\<lparr>so_generation := g\<rparr>) e)))"

definition cleans :: "bytes \<Rightarrow> scratch_owner \<Rightarrow> bytes \<Rightarrow> fs \<Rightarrow> fs \<Rightarrow> bool" where
  "cleans scratch scope active fs fs' =
     (\<forall>d n. node_at fs' d n = node_at fs d n \<or> node_at fs' d n = None \<and> disposable scratch scope active fs d n)"

lemma read_owner_node:
  assumes "read_compaction_owner fs' dir = Inr owner" "node_at fs' dir ''owner.json'' \<in> {node_at fs dir ''owner.json'', None}"
  shows "read_compaction_owner fs dir = Inr owner"
  using assms by (auto simp: read_compaction_owner_def private_file_def)

lemma cleans_disposable:
  assumes "cleans scratch scope active fs fs'" "disposable scratch scope active fs' d n"
  shows "disposable scratch scope active fs d n"
proof -
  have same: "node_at fs' d n = Some x \<Longrightarrow> node_at fs d n = Some x" for d n x
    using assms(1) unfolding cleans_def by (metis option.distinct(1))
  have "node_at fs' d n \<in> {node_at fs d n, None}" for d n
    using assms(1) unfolding cleans_def by blast
  then have "own_scratch scratch scope fs' g \<Longrightarrow> own_scratch scratch scope fs g" for g
    unfolding own_scratch_def using read_owner_node by blast
  with same show ?thesis using assms(2) unfolding disposable_def by blast
qed

lemma cleans_refl [simp, intro]: "cleans scratch scope active fs fs"
  by (simp add: cleans_def)

lemma cleans_trans [trans]:
  assumes "cleans scratch scope active fs fs'" "cleans scratch scope active fs' fs''"
  shows "cleans scratch scope active fs fs''"
  using assms cleans_disposable [OF assms(1)] unfolding cleans_def by metis

lemma cleans_unlink:
  "disposable scratch scope active fs d n \<Longrightarrow> cleans scratch scope active fs (unlink d n fs)"
  by (simp add: cleans_def node_at_unlink)

lemma remove_scratch_removes:
  assumes run: "remove_compaction_scratch io scratch owner created marked retain fs = (r, fs')"
  shows "node_at fs' d n = node_at fs d n
    \<or> node_at fs' d n = None
      \<and> (d = scratch \<and> n = compact_name (so_generation owner) \<and> (\<exists>i. node_at fs d n = Some (Folder i True))
        \<or> d = join_path scratch (compact_name (so_generation owner)) \<and> n \<in> {''snapshot.db'', ''owner.json''}
          \<and> d \<noteq> path_dir (so_anchor owner))"
proof -
  define name dir where nd: "name = compact_name (so_generation owner)" "dir = join_path scratch name"
  define fs1 fs2 where fss: "fs1 = unlink dir ''snapshot.db'' fs" "fs2 = unlink dir ''owner.json'' fs1"
  let ?final = "(unlink scratch name fs2)(dir := None)"
  have cases: "fs' = fs \<or> dir \<noteq> path_dir (so_anchor owner) \<and> (\<exists>i. node_at fs scratch name = Some (Folder i True))
      \<and> (fs' = fs1 \<or> fs' = fs2 \<or> fs2 dir = Some [] \<and> fs' = ?final)"
    using run unfolding remove_compaction_scratch_def Let_def nd [symmetric] fss [symmetric]
    by (auto split: if_splits option.splits node.splits)
  have final: "node_at ?final d n = (if d = scratch \<and> n = name then None else node_at fs2 d n)" if "fs2 dir = Some []" for d n
    using that by (auto simp: node_at_def unlink_def split: option.splits)
  show ?thesis
    using cases final unfolding nd [symmetric] fss by (auto simp: node_at_unlink split: if_splits)
qed

lemma cleanup_candidate_removes:
  assumes "cleanup_candidate io owner active fs = (r, fs')"
  shows "fs' = fs \<or> fs' = unlink (path_dir (so_anchor owner)) (candidate_name owner) fs
      \<and> generation_file (so_anchor owner) (so_generation owner) \<noteq> active
      \<and> (\<exists>f e. node_at fs (path_dir (so_anchor owner)) (candidate_name owner) = Some (File f) \<and> ff_db f = Inr e
           \<and> candidate_of owner e)"
proof -
  have opened: "private_file (Some x) = Some f \<Longrightarrow> x = File f" for x f
    by (auto simp: private_file_def split: node.splits if_splits)
  show ?thesis
    using assms
    by (auto simp: cleanup_candidate_def remove_compaction_candidate_def Let_def dest!: opened
        split: sum.splits option.splits if_splits)
qed

lemma compact_name_drop: "starts_with name ''compact-'' \<Longrightarrow> compact_name (drop 8 name) = name"
proof -
  assume "starts_with name ''compact-''"
  then have "take (length ''compact-'') name = ''compact-''" by (simp only: starts_with_def)
  moreover have "length ''compact-'' = 8" by simp
  ultimately have "take 8 name = ''compact-''" by (simp only:)
  then show ?thesis using append_take_drop_id [of 8 name] by (simp only: compact_name_def)
qed

lemma cleanup_entry_cleans:
  assumes run: "cleanup_entry io scratch scope active name fs = (r, fs')"
  shows "cleans scratch scope active fs fs'"
proof (cases "fs' = fs")
  case False
  define g where "g = drop 8 name"
  from run False obtain i owner fs1 where
    e: "starts_with name ''compact-''" "compaction_generation g" "node_at fs scratch name = Some (Folder i True)"
      "read_compaction_owner fs (join_path scratch name) = Inr owner" "so_version owner = 1" "so_generation owner = g"
      "so_env owner = so_env scope" "so_store owner = so_store scope" "so_anchor owner = so_anchor scope"
    and c: "\<exists>r. cleanup_candidate io owner active fs = (r, fs1)"
    and s: "fs' = fs1 \<or> (\<exists>r. remove_compaction_scratch io scratch owner (Some i) True False fs1 = (r, fs'))"
    unfolding cleanup_entry_def Let_def g_def [symmetric]
    by (auto split: if_splits option.splits node.splits bool.splits sum.splits prod.splits)
  have name: "name = compact_name g" using compact_name_drop [OF e(1)] by (simp add: g_def)
  have owner: "owner = scope\<lparr>so_version := 1, so_generation := g\<rparr>" using e by simp
  have own: "own_scratch scratch scope fs g" using e(2,4) by (simp add: own_scratch_def name owner)
  have one: "cleans scratch scope active fs fs1"
  proof (cases "fs1 = fs")
    case False
    with c have "fs1 = unlink (path_dir (so_anchor scope)) (candidate_name owner) fs
        \<and> disposable scratch scope active fs (path_dir (so_anchor scope)) (candidate_name owner)"
      using own by (auto dest!: cleanup_candidate_removes simp: disposable_def candidate_name_def owner candidate_of_def)
    then show ?thesis using cleans_unlink by simp
  qed simp
  show ?thesis
  proof (cases "fs' = fs1")
    case False
    with s obtain r where "remove_compaction_scratch io scratch owner (Some i) True False fs1 = (r, fs')" by blast
    note R = remove_scratch_removes [OF this]
    show ?thesis unfolding cleans_def
    proof (intro allI)
      fix d n
      have earlier: "node_at fs1 d n = Some x \<Longrightarrow> node_at fs d n = Some x" for x
        using one unfolding cleans_def by (metis option.distinct(1))
      show "node_at fs' d n = node_at fs d n \<or> node_at fs' d n = None \<and> disposable scratch scope active fs d n"
      proof (cases "node_at fs' d n = node_at fs1 d n")
        case True
        then show ?thesis using one by (simp add: cleans_def)
      next
        case False
        with R [of d n] own earlier e(6,9) show ?thesis unfolding disposable_def by (simp only: e(6,9)) blast
      qed
    qed
  qed (use one in simp)
qed simp

lemma cleanup_entries_cleans:
  "cleanup_entries io scratch scope active names fs = (r, fs') \<Longrightarrow> cleans scratch scope active fs fs'"
proof (induction names arbitrary: fs)
  case (Cons name names)
  obtain r1 fs1 where e: "cleanup_entry (io (length names)) scratch scope active name fs = (r1, fs1)" by fastforce
  show ?case
  proof (cases r1)
    case (Inr u)
    then have "cleanup_entries io scratch scope active names fs1 = (r, fs')" using Cons.prems e by simp
    then show ?thesis using cleanup_entry_cleans [OF e] Cons.IH cleans_trans by blast
  qed (use cleanup_entry_cleans [OF e] Cons.prems e in simp)
qed simp

lemma cut_slash_joins: "CHR ''/'' \<in> set p \<Longrightarrow> fst (cut_slash p) @ ''/'' @ snd (cut_slash p) = p"
proof -
  assume "CHR ''/'' \<in> set p"
  then have "dropWhile (\<lambda>c. c \<noteq> CHR ''/'') (rev p) \<noteq> []" by (simp add: dropWhile_eq_Nil_conv)
  then obtain q where q: "dropWhile (\<lambda>c. c \<noteq> CHR ''/'') (rev p) = CHR ''/'' # q"
    using hd_dropWhile [of "\<lambda>c. c \<noteq> CHR ''/''" "rev p"] by (cases "dropWhile (\<lambda>c. c \<noteq> CHR ''/'') (rev p)") auto
  have "rev p = takeWhile (\<lambda>c. c \<noteq> CHR ''/'') (rev p) @ CHR ''/'' # q"
    using takeWhile_dropWhile_id [of "\<lambda>c. c \<noteq> CHR ''/''" "rev p"] q by simp
  then have "p = rev (takeWhile (\<lambda>c. c \<noteq> CHR ''/'') (rev p) @ CHR ''/'' # q)" by (metis rev_rev_ident)
  then show ?thesis by (simp add: cut_slash_def q)
qed

lemma path_joins: "path_dir p \<noteq> ''/'' \<Longrightarrow> path_dir p @ ''/'' @ path_name p = p"
proof -
  assume dir: "path_dir p \<noteq> ''/''"
  then have some: "fst (cut_slash p) \<noteq> []" by (auto simp: path_dir_def)
  have "CHR ''/'' \<in> set p"
  proof (rule ccontr)
    assume "CHR ''/'' \<notin> set p"
    then have "dropWhile (\<lambda>c. c \<noteq> CHR ''/'') (rev p) = []" by (auto simp: dropWhile_eq_Nil_conv)
    with some show False by (simp add: cut_slash_def)
  qed
  from cut_slash_joins [OF this] show ?thesis
    using some by (simp add: path_dir_def path_name_def)
qed

text \<open>C34: The clean-up of interrupted compactions removes only what is its own, however far it gets: folders
  with the marker of this environment, store and anchor, the snapshot and the marker in them, and candidates
  of these generations whose database names the store and the generation. Nothing else changes,
  and the file of the active generation stays.\<close>

theorem cleanup_removes_only_its_own:
  assumes run: "cleanup_interrupted io listed synced scratch scope active fs = (r, fs')"
    and place: "path_dir (so_anchor scope) \<noteq> ''/''" "active = join_path (path_dir (so_anchor scope)) file"
      "node_at fs (path_dir (so_anchor scope)) file = Some (File f)"
  shows "(\<forall>d n. node_at fs' d n = node_at fs d n
            \<or> node_at fs' d n = None \<and> disposable scratch scope active fs d n)
     \<and> node_at fs' (path_dir (so_anchor scope)) file = Some (File f)"
proof -
  have cleans: "cleans scratch scope active fs fs'"
    using run cleanup_entries_cleans unfolding cleanup_interrupted_def
    by (fastforce split: option.splits sum.splits prod.splits)
  have "\<not> disposable scratch scope active fs (path_dir (so_anchor scope)) file"
  proof
    assume "disposable scratch scope active fs (path_dir (so_anchor scope)) file"
    then obtain g where "file = generation_file (path_name (so_anchor scope)) g" "generation_file (so_anchor scope) g \<noteq> active"
      using place(3) by (auto simp: disposable_def)
    then show False
      using path_joins [OF place(1)] place(1,2) append_assoc [of "path_dir (so_anchor scope)" "''/'' @ path_name (so_anchor scope)"]
      by (simp add: join_path_def generation_file_def)
  qed
  then show ?thesis using cleans place(3) unfolding cleans_def by (metis option.distinct(1))
qed

definition left_scope :: scratch_owner where
  "left_scope = \<lparr>so_version = 1, so_env = ''e'', so_store = toy_store, so_anchor = ''/d/b'', so_generation = toy_store\<rparr>"

definition plain_file :: fs_file where
  "plain_file = \<lparr>ff_id = 7, ff_regular = True, ff_private = True, ff_size = 1, ff_owner = Inr left_scope,
     ff_doc = DActive \<lparr>am_version = 1, am_file = ''b'', am_store = toy_store, am_generation = ''initial'', am_cutover = 0\<rparr>,
     ff_db = Inl ErrBillingUnavailable\<rparr>"

definition left_fs :: fs where
  "left_fs = [''/s'' \<mapsto> [(compact_name toy_store, Folder 1 True)],
     join_path ''/s'' (compact_name toy_store) \<mapsto> [(''owner.json'', File plain_file)],
     ''/d'' \<mapsto> [(''b'', File plain_file), (''b.active.json'', File plain_file)]]"

lemma left_reads:
  "path_dir ''/d/b'' = ''/d''" "path_name ''/d/b'' = ''b''" "is_abs ''/d/b''" "clean_path ''/d/b'' = ''/d/b''"
  "compaction_generation toy_store" "drop 8 (compact_name toy_store) = toy_store"
  "starts_with (compact_name toy_store) ''compact-''" "safe_id ''e''"
  by (simp_all add: path_dir_def path_name_def cut_slash_def clean_path_def is_abs_def starts_with_def
      compaction_generation_def hex_of_bytes_def toy_store_def is_lower_hex_def compact_name_def list_all_length
      safe_id_def safe_char_def)

lemma left_nodes:
  defines "dir \<equiv> join_path ''/s'' (compact_name toy_store)"
  shows "left_fs ''/s'' = Some [(compact_name toy_store, Folder 1 True)]"
    "left_fs dir = Some [(''owner.json'', File plain_file)]"
    "left_fs ''/d'' = Some [(''b'', File plain_file), (''b.active.json'', File plain_file)]"
    "dir \<noteq> ''/s''" "dir \<noteq> ''/d''"
  by (simp_all add: left_fs_def dir_def join_path_def)

lemma plain_file_private [simp]: "private_file (Some (File plain_file)) = Some plain_file"
  by (simp add: private_file_def plain_file_def)

lemma left_candidate: "cleanup_candidate io left_scope ''/d/b'' left_fs = (Inr (), left_fs)"
proof -
  let ?m = "\<lparr>am_version = 1, am_file = ''b'', am_store = toy_store, am_generation = ''initial'', am_cutover = 0\<rparr>"
  have "length toy_store = 32" "path_base ''b'' = ''b''" "safe_id ''initial''"
    by (simp_all add: toy_store_def path_base_def safe_id_def safe_char_def)
  moreover have "node_at left_fs ''/d'' ''b.active.json'' = Some (File plain_file)"
    using left_nodes(3) by (simp add: node_at_def)
  moreover have "ff_size plain_file \<le> 16384" "ff_doc plain_file = DActive ?m" by (simp_all add: plain_file_def)
  ultimately have manifest: "active_of left_fs ''/d/b'' = Inr (Some ?m)"
    by (simp add: active_of_def left_reads load_active_def)
  have none: "node_at left_fs ''/d'' (generation_file ''b'' toy_store) = None"
    using left_nodes(3) by (simp add: node_at_def generation_file_def toy_store_def)
  have other: "generation_file ''/d/b'' toy_store \<noteq> ''/d/b''" by (simp add: generation_file_def)
  show ?thesis
    using manifest none other
    by (simp add: cleanup_candidate_def left_scope_def candidate_name_def left_reads join_path_def)
qed

theorem cleanup_removes_only_its_own_witness:
  "\<exists>fs'. cleanup_interrupted (\<lambda>_ _. None) None None ''/s'' left_scope ''/d/b'' left_fs = (Inr (), fs')
     \<and> fs' ''/s'' = Some [] \<and> node_at fs' ''/d'' ''b'' = Some (File plain_file)"
proof -
  let ?name = "compact_name toy_store" and ?none = "\<lambda>_ :: nat. None :: go_error option"
  let ?dir = "join_path ''/s'' ?name"
  have gen: "so_generation left_scope = toy_store" "so_anchor left_scope = ''/d/b''" "so_store left_scope = toy_store"
      "so_env left_scope = ''e''" "so_version left_scope = 1" by (simp_all add: left_scope_def)
  have owner: "read_compaction_owner left_fs ?dir = Inr left_scope"
    using left_nodes(2) by (simp add: read_compaction_owner_def node_at_def) (simp add: plain_file_def)
  have folder: "node_at left_fs ''/s'' ?name = Some (Folder 1 True)" using left_nodes(1) by (simp add: node_at_def)
  have entry_ok: "scratch_entry_ok left_fs ?dir left_scope (''owner.json'', File plain_file)"
    using owner by (simp add: scratch_entry_ok_def)
  have empty: "unlink ?dir ''owner.json'' (unlink ?dir ''snapshot.db'' left_fs) ?dir = Some []"
    using left_nodes(2) by (simp add: unlink_def adel_def)
  have "remove_compaction_scratch ?none ''/s'' left_scope (Some 1) True False left_fs =
      (Inr (), (unlink ''/s'' ?name (unlink ?dir ''owner.json'' (unlink ?dir ''snapshot.db'' left_fs)))(?dir := None))"
    using left_nodes(2,5) folder entry_ok empty
    by (simp add: remove_compaction_scratch_def gen left_reads Let_def akeys_def)
  then have "cleanup_entry ?none ''/s'' left_scope ''/d/b'' ?name left_fs =
      (Inr (), (unlink ''/s'' ?name (unlink ?dir ''owner.json'' (unlink ?dir ''snapshot.db'' left_fs)))(?dir := None))"
    using folder owner left_candidate by (simp add: cleanup_entry_def left_reads gen Let_def)
  then obtain fs' where run: "cleanup_interrupted (\<lambda>_ _. None) None None ''/s'' left_scope ''/d/b'' left_fs = (Inr (), fs')"
    and fs': "fs' = (unlink ''/s'' ?name (unlink ?dir ''owner.json'' (unlink ?dir ''snapshot.db'' left_fs)))(?dir := None)"
    using left_nodes(1) by (simp add: cleanup_interrupted_def akeys_def)
  have place: "path_dir (so_anchor left_scope) \<noteq> ''/''" "''/d/b'' = join_path (path_dir (so_anchor left_scope)) ''b''"
      "node_at left_fs (path_dir (so_anchor left_scope)) ''b'' = Some (File plain_file)"
    using left_nodes(3) by (simp_all add: gen left_reads join_path_def node_at_def)
  have "node_at fs' ''/d'' ''b'' = Some (File plain_file)"
    using cleanup_removes_only_its_own [OF run place, THEN conjunct2] by (simp add: gen left_reads)
  moreover have "fs' ''/s'' = Some []" using left_nodes(1,4) by (simp add: fs' unlink_def adel_def)
  ultimately show ?thesis using run by blast
qed

end
