(* ===== verification/CompactionFiles.thy ===== *)
theory CompactionFiles
  imports Cleanup
begin

text \<open>
  The files of one \<open>CompactOnline\<close> (\<open>billing_compaction.go\<close>): the private scratch directory with its marker and snapshot,
  the candidate beside the anchor, and the deferred clean-ups, in the order in which they run. What happens to the
  contents meanwhile is the subject of \<open>Compaction\<close>.
\<close>

text \<open>
  The outcomes of the steps: making the directory and its \<open>Lstat\<close>, writing the marker (which may leave a file without a
  readable marker) and the two \<open>Sync\<close>, creating the snapshot and filling it, creating the candidate, everything up to
  the publication, the publication itself, and closing a candidate that was given up.
\<close>

record files_env =
  fe_folder :: nat
  fe_mkdir :: "go_error option"
  fe_lstat :: "go_error option"
  fe_marker :: "go_error option"
  fe_torn :: "fs_file option"
  fe_synced :: "go_error option"
  fe_snapshot :: "go_error option"
  fe_filled :: "go_error option"
  fe_marker_file :: fs_file
  fe_snapshot_file :: fs_file
  fe_candidate :: "go_error option"
  fe_candidate_file :: fs_file
  fe_prepared :: "go_error option"
  fe_published :: publication
  fe_close :: "go_error option"
  fe_io :: "nat \<Rightarrow> go_error option"

text \<open>How far the candidate got: switched, given up after a publication that is not visible, or given up before.\<close>

datatype candidate_end = Switched | Uncertain | GivenUp

text \<open>The deferred close of the candidate; the result says whether the candidate is kept.\<close>

definition give_up_candidate :: "files_env \<Rightarrow> scratch_owner \<Rightarrow> candidate_end \<Rightarrow> fs \<Rightarrow> bool \<times> fs" where
  "give_up_candidate ev owner e fs =
     (case e of
        Switched \<Rightarrow> (True, fs)
      | Uncertain \<Rightarrow> (True, fs)
      | GivenUp \<Rightarrow>
          (case fe_close ev of
             Some _ \<Rightarrow> (True, fs)
           | None \<Rightarrow>
               (case remove_compaction_candidate (fe_io ev) owner (Some (ff_id (fe_candidate_file ev))) fs of
                  (Inl _, fs) \<Rightarrow> (True, fs)
                | (Inr _, fs) \<Rightarrow> (False, fs))))"

text \<open>From the creation of the candidate to the end of its deferred function: the outcome, whether the session switched, whether a
  candidate is kept.\<close>

definition run_candidate :: "files_env \<Rightarrow> scratch_owner \<Rightarrow> fs \<Rightarrow> go_error option \<times> bool \<times> bool \<times> fs" where
  "run_candidate ev owner fs =
     (case fe_candidate ev of
        Some x \<Rightarrow> (Some x, False, False, fs)
      | None \<Rightarrow>
          let fs1 = put_node (path_dir (so_anchor owner)) (candidate_name owner) (File (fe_candidate_file ev)) fs;
              finish = (\<lambda>x e. case give_up_candidate ev owner e fs1 of (kept, fs2) \<Rightarrow> (x, e = Switched, kept, fs2))
          in (case fe_prepared ev of
                Some x \<Rightarrow> finish (Some x) GivenUp
              | None \<Rightarrow>
                  (case fe_published ev of
                     Published \<Rightarrow> finish None Switched
                   | PublishFailed True \<Rightarrow> finish (Some ErrBillingUnavailable) Switched
                   | PublishFailed False \<Rightarrow> finish (Some ErrBillingUnavailable) Uncertain)))"

definition run_scratch :: "files_env \<Rightarrow> bytes \<Rightarrow> scratch_owner \<Rightarrow> fs \<Rightarrow> go_error option \<times> bool \<times> bool \<times> fs" where
  "run_scratch ev dir owner fs =
     (case fe_marker ev of
        Some x \<Rightarrow> (Some x, False, False,
                   case fe_torn ev of None \<Rightarrow> fs | Some f \<Rightarrow> put_node dir ''owner.json'' (File f) fs)
      | None \<Rightarrow>
          let fs1 = put_node dir ''owner.json'' (File (fe_marker_file ev)) fs
          in (case fe_synced ev of
                Some x \<Rightarrow> (Some x, False, False, fs1)
              | None \<Rightarrow>
                  (case fe_snapshot ev of
                     Some x \<Rightarrow> (Some x, False, False, fs1)
                   | None \<Rightarrow>
                       let fs2 = put_node dir ''snapshot.db'' (File (fe_snapshot_file ev)) fs1
                       in (case fe_filled ev of
                             Some x \<Rightarrow> (Some x, False, False, fs2)
                           | None \<Rightarrow> run_candidate ev owner fs2))))"

text \<open>
  The whole: the error of the compaction with that of the clean-up, whether it switched, and the directories. A marker is
  kept when a candidate might have become active.
\<close>

definition compact_files ::
    "files_env \<Rightarrow> bytes \<Rightarrow> scratch_owner \<Rightarrow> fs \<Rightarrow> (go_error option \<times> go_error option) \<times> bool \<times> fs" where
  "compact_files ev scratch owner fs =
     (let name = compact_name (so_generation owner); dir = join_path scratch name
      in case fe_mkdir ev of
           Some x \<Rightarrow> ((Some x, None), False, fs)
         | None \<Rightarrow>
             let fs1 = (put_node scratch name (Folder (fe_folder ev) True) fs)(dir := Some [])
             in (case fe_lstat ev of
                   Some x \<Rightarrow> ((Some x, None), False, fs1)
                 | None \<Rightarrow>
                     (case run_scratch ev dir owner fs1 of
                        (x, switched, kept, fs2) \<Rightarrow>
                          (case remove_compaction_scratch (fe_io ev) scratch owner (Some (fe_folder ev)) False (\<not> switched \<and> kept) fs2 of
                             (Inl y, fs3) \<Rightarrow> ((x, Some y), switched, fs3)
                           | (Inr _, fs3) \<Rightarrow> ((x, None), switched, fs3)))))"

section \<open>What a compaction leaves behind\<close>

lemma join_path_longer: "n \<noteq> [] \<Longrightarrow> join_path d n \<noteq> d"
proof
  assume "n \<noteq> []" "join_path d n = d"
  then have "length (join_path d n) = length d" by simp
  then show False using \<open>n \<noteq> []\<close> by (simp add: join_path_def split: if_splits)
qed

lemma other_directory: "d' \<noteq> d \<Longrightarrow> unlink d n fs d' = fs d'" "d' \<noteq> d \<Longrightarrow> put_node d n x fs d' = fs d'"
  by (simp_all add: unlink_def put_node_def)

text \<open>A scratch directory that holds nothing but its two files is removed, or emptied to its marker.\<close>

lemma remove_scratch_clears:
  assumes entries: "fs dir = Some es" "list_all (scratch_entry_ok fs dir owner) es"
    and dir: "dir = join_path scratch name" "name = compact_name (so_generation owner)" "path_dir (so_anchor owner) \<noteq> dir"
    and folder: "node_at fs scratch name = Some (Folder i True)"
    and io: "\<And>n. io n = None"
  obtains fs' where "remove_compaction_scratch io scratch owner (Some i) False retain fs = (Inr (), fs')"
    "\<And>d n. node_at fs' d n =
       (if d = dir then (if retain \<and> n = ''owner.json'' then node_at fs d n else None)
        else if d = scratch \<and> n = name \<and> \<not> retain then None else node_at fs d n)"
proof -
  let ?fs1 = "unlink dir ''snapshot.db'' fs"
  let ?fs2 = "unlink dir ''owner.json'' ?fs1"
  have names: "\<forall>e \<in> set es. fst e \<in> {''snapshot.db'', ''owner.json''}"
    using entries(2) by (auto simp: list_all_iff scratch_entry_ok_def)
  then have empty: "?fs2 dir = Some []" using entries(1) by (auto simp: unlink_def adel_def filter_empty_conv)
  have other: "node_at fs dir n = None" if "n \<notin> {''snapshot.db'', ''owner.json''}" for n
    using that names entries(1) by (auto simp: node_at_def map_of_eq_None_iff)
  have "dir \<noteq> scratch" using dir(1,2) join_path_longer by (simp add: compact_name_def)
  show ?thesis
  proof (cases retain)
    case True
    have "remove_compaction_scratch io scratch owner (Some i) False retain fs = (Inr (), ?fs1)"
      using entries dir folder io True by (simp add: remove_compaction_scratch_def Let_def)
    then show ?thesis using that [of ?fs1] True other by (auto simp: node_at_unlink)
  next
    case False
    let ?fs3 = "(unlink scratch name ?fs2)(dir := None)"
    have run: "remove_compaction_scratch io scratch owner (Some i) False retain fs = (Inr (), ?fs3)"
      using entries dir folder io False empty by (simp add: remove_compaction_scratch_def Let_def)
    have "node_at ?fs3 d n = (if d = dir then None else if d = scratch \<and> n = name then None else node_at fs d n)" for d n
      using node_at_unlink [of scratch name ?fs2 d n] \<open>dir \<noteq> scratch\<close>
      by (auto simp: node_at_def unlink_def)
    then show ?thesis using that [OF run] False by simp
  qed
qed

text \<open>Where the compaction ends: \<open>GivenUp\<close> unless everything up to the publication succeeded.\<close>

definition files_end :: "files_env \<Rightarrow> candidate_end" where
  "files_end ev =
     (if fe_marker ev = None \<and> fe_synced ev = None \<and> fe_snapshot ev = None \<and> fe_filled ev = None
         \<and> fe_candidate ev = None \<and> fe_prepared ev = None
      then (case fe_published ev of PublishFailed False \<Rightarrow> Uncertain | _ \<Rightarrow> Switched) else GivenUp)"

lemma run_candidate_result:
  assumes run: "run_candidate ev owner fs = (x, switched, kept, fs')"
    and clean: "\<And>n. fe_io ev n = None" "fe_close ev = None"
    and candidate: "private_file (Some (File (fe_candidate_file ev))) = Some (fe_candidate_file ev)"
      "compaction_generation (so_generation owner)"
    and place: "fs (path_dir (so_anchor owner)) \<noteq> None" "node_at fs (path_dir (so_anchor owner)) (candidate_name owner) = None"
  defines "e \<equiv> (if fe_candidate ev = None \<and> fe_prepared ev = None
                then (case fe_published ev of PublishFailed False \<Rightarrow> Uncertain | _ \<Rightarrow> Switched) else GivenUp)"
  shows "switched = (e = Switched)" "kept = (e \<noteq> GivenUp)"
    "node_at fs' d n = (if d = path_dir (so_anchor owner) \<and> n = candidate_name owner
       then (if e = GivenUp then None else Some (File (fe_candidate_file ev))) else node_at fs d n)"
    "dir \<noteq> path_dir (so_anchor owner) \<Longrightarrow> fs' dir = fs dir"
proof -
  let ?home = "path_dir (so_anchor owner)" and ?cand = "candidate_name owner"
  let ?fs1 = "put_node ?home ?cand (File (fe_candidate_file ev)) fs"
  note put = node_at_put [where fs = fs and d = ?home and n = ?cand and x = "File (fe_candidate_file ev)", OF place(1)]
  have gone: "give_up_candidate ev owner GivenUp ?fs1 = (False, unlink ?home ?cand ?fs1)"
    using clean candidate by (simp add: give_up_candidate_def remove_compaction_candidate_def put)
  consider (absent) "fe_candidate ev \<noteq> None" | (unprepared) "fe_candidate ev = None" "fe_prepared ev \<noteq> None"
    | (published) "fe_candidate ev = None" "fe_prepared ev = None" by blast
  then have "switched = (e = Switched) \<and> kept = (e \<noteq> GivenUp)
      \<and> (\<forall>d n. node_at fs' d n = (if d = ?home \<and> n = ?cand
            then (if e = GivenUp then None else Some (File (fe_candidate_file ev))) else node_at fs d n))
      \<and> (\<forall>d. d \<noteq> ?home \<longrightarrow> fs' d = fs d)"
  proof cases
    case absent
    then show ?thesis using run place(2) by (auto simp: run_candidate_def e_def)
  next
    case unprepared
    then have "x = fe_prepared ev \<and> \<not> switched \<and> \<not> kept \<and> fs' = unlink ?home ?cand ?fs1"
      using run gone by (auto simp: run_candidate_def Let_def)
    then show ?thesis using unprepared place(2) put by (auto simp: e_def node_at_unlink other_directory)
  next
    case published
    then have "fs' = ?fs1 \<and> kept \<and> switched = (e = Switched) \<and> e \<noteq> GivenUp"
      using run by (auto simp: run_candidate_def give_up_candidate_def Let_def e_def split: publication.splits bool.splits)
    then show ?thesis using put by (auto simp: other_directory)
  qed
  then show "switched = (e = Switched)" "kept = (e \<noteq> GivenUp)"
    "node_at fs' d n = (if d = ?home \<and> n = ?cand
       then (if e = GivenUp then None else Some (File (fe_candidate_file ev))) else node_at fs d n)"
    "dir \<noteq> ?home \<Longrightarrow> fs' dir = fs dir" by blast+
qed

lemma candidate_name_differs: "compaction_generation (so_generation owner) \<Longrightarrow> candidate_name owner \<noteq> compact_name (so_generation owner)"
proof
  assume "compaction_generation (so_generation owner)" "candidate_name owner = compact_name (so_generation owner)"
  then have "path_name (so_anchor owner) @ ''.gen-'' @ so_generation owner @ ''.db'' = ''compact-'' @ so_generation owner"
    by (simp only: candidate_name_def generation_file_def compact_name_def)
  moreover from arg_cong [OF this, of length] have "path_name (so_anchor owner) = []" by simp
  ultimately show False by simp
qed

text \<open>The scratch directory as \<open>run_scratch\<close> leaves it, and the candidate.\<close>

lemma scratch_files_ok:
  assumes files: "private_file (Some (File m)) = Some m" "ff_size m \<le> 16384" "ff_owner m = Inr owner"
      "private_file (Some (File f)) = Some f"
    and es: "fs dir = Some es" "es \<in> {[], [(''owner.json'', File m)], [(''owner.json'', File m), (''snapshot.db'', File f)]}"
  shows "list_all (scratch_entry_ok fs dir owner) es"
proof -
  have "read_compaction_owner fs dir = Inr owner" if "es \<noteq> []"
    using that es files by (auto simp: read_compaction_owner_def node_at_def)
  then show ?thesis using es(2) files(1,4) by (auto simp: scratch_entry_ok_def)
qed

lemma run_scratch_result:
  assumes run: "run_scratch ev dir owner fs = (x, switched, kept, fs')"
    and started: "fe_torn ev = None"
    and clean: "\<And>n. fe_io ev n = None" "fe_close ev = None"
    and candidate: "private_file (Some (File (fe_candidate_file ev))) = Some (fe_candidate_file ev)"
      "compaction_generation (so_generation owner)"
    and place: "fs dir = Some []" "path_dir (so_anchor owner) \<noteq> dir" "fs (path_dir (so_anchor owner)) \<noteq> None"
      "node_at fs (path_dir (so_anchor owner)) (candidate_name owner) = None"
  defines "marker \<equiv> (''owner.json'', File (fe_marker_file ev))"
  shows "switched = (files_end ev = Switched)" "(\<not> switched \<and> kept) = (files_end ev = Uncertain)"
    "fs' dir = Some [] \<or> fs' dir = Some [marker] \<or> fs' dir = Some [marker, (''snapshot.db'', File (fe_snapshot_file ev))]"
    "d \<noteq> dir \<Longrightarrow> node_at fs' d n = (if d = path_dir (so_anchor owner) \<and> n = candidate_name owner
       then (if files_end ev = GivenUp then None else Some (File (fe_candidate_file ev))) else node_at fs d n)"
    "files_end ev = Uncertain \<Longrightarrow> fs' dir = Some [marker, (''snapshot.db'', File (fe_snapshot_file ev))]"
proof -
  let ?home = "path_dir (so_anchor owner)" and ?cand = "candidate_name owner"
  let ?fs1 = "put_node dir ''owner.json'' (File (fe_marker_file ev)) fs"
  let ?fs2 = "put_node dir ''snapshot.db'' (File (fe_snapshot_file ev)) ?fs1"
  have dirs: "?fs1 dir = Some [marker]" "?fs2 dir = Some [marker, (''snapshot.db'', File (fe_snapshot_file ev))]"
    using place(1) by (simp_all add: put_node_def adel_def marker_def)
  have same: "node_at ?fs1 d n = node_at fs d n" "node_at ?fs2 d n = node_at fs d n" if "d \<noteq> dir" for d n
    using that by (simp_all add: node_at_def other_directory)
  have early: "fe_marker ev \<noteq> None \<or> fe_synced ev \<noteq> None \<or> fe_snapshot ev \<noteq> None \<or> fe_filled ev \<noteq> None \<Longrightarrow>
      \<not> switched \<and> \<not> kept \<and> fs' \<in> {fs, ?fs1, ?fs2} \<and> files_end ev = GivenUp"
    using run started by (auto simp: run_scratch_def files_end_def Let_def split: option.splits)
  have goal: "switched = (files_end ev = Switched) \<and> (\<not> switched \<and> kept) = (files_end ev = Uncertain)
      \<and> (fs' dir = Some [] \<or> fs' dir = Some [marker] \<or> fs' dir = Some [marker, (''snapshot.db'', File (fe_snapshot_file ev))])
      \<and> (\<forall>d n. d \<noteq> dir \<longrightarrow> node_at fs' d n = (if d = ?home \<and> n = ?cand
            then (if files_end ev = GivenUp then None else Some (File (fe_candidate_file ev))) else node_at fs d n))
      \<and> (files_end ev = Uncertain \<longrightarrow> fs' dir = Some [marker, (''snapshot.db'', File (fe_snapshot_file ev))])"
  proof (cases "fe_marker ev = None \<and> fe_synced ev = None \<and> fe_snapshot ev = None \<and> fe_filled ev = None")
    case False
    then show ?thesis using early same dirs place(1,4) by auto
  next
    case True
    then have cand: "run_candidate ev owner ?fs2 = (x, switched, kept, fs')"
      using run by (simp add: run_scratch_def Let_def)
    have home: "?fs2 ?home \<noteq> None" "node_at ?fs2 ?home ?cand = None"
      using place(2,3,4) same(2) by (simp_all add: other_directory)
    have e: "files_end ev = (if fe_candidate ev = None \<and> fe_prepared ev = None
                then (case fe_published ev of PublishFailed False \<Rightarrow> Uncertain | _ \<Rightarrow> Switched) else GivenUp)"
      using True by (simp add: files_end_def)
    note R = run_candidate_result [OF cand clean candidate home, folded e]
    have "fs' dir = ?fs2 dir" using R(4) place(2) by simp
    then show ?thesis using R(1,2,3) same(2) dirs by (cases "files_end ev") auto
  qed
  then show "switched = (files_end ev = Switched)" "(\<not> switched \<and> kept) = (files_end ev = Uncertain)"
    "fs' dir = Some [] \<or> fs' dir = Some [marker] \<or> fs' dir = Some [marker, (''snapshot.db'', File (fe_snapshot_file ev))]"
    "d \<noteq> dir \<Longrightarrow> node_at fs' d n = (if d = ?home \<and> n = ?cand
       then (if files_end ev = GivenUp then None else Some (File (fe_candidate_file ev))) else node_at fs d n)"
    "files_end ev = Uncertain \<Longrightarrow> fs' dir = Some [marker, (''snapshot.db'', File (fe_snapshot_file ev))]"
    by blast+
qed

text \<open>
  After a compaction whose clean-up meets no failure, nothing has changed but this: a candidate is there when the session
  switched to it, or when a publication failed without the manifest being visible; in the latter case the
  folder with the marker is there too, for the clean-up of the next compaction to find.
\<close>

theorem compaction_leaves_no_scratch:
  assumes run: "compact_files ev scratch owner fs = ((x, y), switched, fs')"
    and started: "fe_mkdir ev = None" "fe_lstat ev = None" "fe_torn ev = None"
    and clean: "\<And>n. fe_io ev n = None" "fe_close ev = None"
    and files: "private_file (Some (File (fe_marker_file ev))) = Some (fe_marker_file ev)" "ff_size (fe_marker_file ev) \<le> 16384"
      "ff_owner (fe_marker_file ev) = Inr owner"
      "private_file (Some (File (fe_snapshot_file ev))) = Some (fe_snapshot_file ev)"
      "private_file (Some (File (fe_candidate_file ev))) = Some (fe_candidate_file ev)"
    and place: "name = compact_name (so_generation owner)" "dir = join_path scratch name" "path_dir (so_anchor owner) \<noteq> dir"
      "fs scratch \<noteq> None" "fs (path_dir (so_anchor owner)) \<noteq> None" "fs dir = None"
      "node_at fs scratch name = None" "node_at fs (path_dir (so_anchor owner)) (candidate_name owner) = None"
      "compaction_generation (so_generation owner)"
  shows "y = None \<and> switched = (files_end ev = Switched)
    \<and> node_at fs' d n =
        (if d = path_dir (so_anchor owner) \<and> n = candidate_name owner
         then (if files_end ev = GivenUp then None else Some (File (fe_candidate_file ev)))
         else if files_end ev = Uncertain \<and> d = scratch \<and> n = name then Some (Folder (fe_folder ev) True)
         else if files_end ev = Uncertain \<and> d = dir \<and> n = ''owner.json'' then Some (File (fe_marker_file ev))
         else node_at fs d n)"
proof -
  let ?home = "path_dir (so_anchor owner)" and ?cand = "candidate_name owner"
  let ?gone = "\<lambda>e d n. if d = ?home \<and> n = ?cand
       then (if e = GivenUp then None else Some (File (fe_candidate_file ev))) else node_at fs d n"
  define fs1 where "fs1 = (put_node scratch name (Folder (fe_folder ev) True) fs)(dir := Some [])"
  have apart: "dir \<noteq> scratch" using place(1,2) join_path_longer by (simp add: compact_name_def)
  have one: "node_at fs1 d n = (if d = scratch \<and> n = name then Some (Folder (fe_folder ev) True) else node_at fs d n)" for d n
    using place(6) apart node_at_put [where fs = fs and d = scratch and n = name and x = "Folder (fe_folder ev) True" and d' = d and n' = n, OF place(4)]
    by (auto simp: fs1_def node_at_def)
  have home1: "fs1 ?home \<noteq> None" "fs1 dir = Some []" using place(3,5) by (auto simp: fs1_def put_node_def)
  obtain x2 sw kept fs2 where scr: "run_scratch ev dir owner fs1 = (x2, sw, kept, fs2)" by (cases "run_scratch ev dir owner fs1")
  have cand1: "node_at fs1 ?home ?cand = None"
    using one place(8) candidate_name_differs [OF place(9)] place(1) by simp
  note S = run_scratch_result [OF scr started(3) clean files(5) place(9) home1(2) place(3) home1(1) cand1]
  have two: "sw = (files_end ev = Switched)" "(\<not> sw \<and> kept) = (files_end ev = Uncertain)"
    "\<exists>es. fs2 dir = Some es \<and> list_all (scratch_entry_ok fs2 dir owner) es"
    "d \<noteq> dir \<Longrightarrow> node_at fs2 d n = (if d = ?home \<and> n = ?cand
       then (if files_end ev = GivenUp then None else Some (File (fe_candidate_file ev))) else node_at fs1 d n)"
    "files_end ev = Uncertain \<Longrightarrow> node_at fs2 dir ''owner.json'' = Some (File (fe_marker_file ev))" for d n
  proof -
    show "sw = (files_end ev = Switched)" "(\<not> sw \<and> kept) = (files_end ev = Uncertain)" by (rule S(1), rule S(2))
    show "\<exists>es. fs2 dir = Some es \<and> list_all (scratch_entry_ok fs2 dir owner) es"
      using S(3) scratch_files_ok [OF files(1-4)] by blast
    show "d \<noteq> dir \<Longrightarrow> node_at fs2 d n = (if d = ?home \<and> n = ?cand
       then (if files_end ev = GivenUp then None else Some (File (fe_candidate_file ev))) else node_at fs1 d n)"
      by (rule S(4))
    show "files_end ev = Uncertain \<Longrightarrow> node_at fs2 dir ''owner.json'' = Some (File (fe_marker_file ev))"
      using S(5) by (simp add: node_at_def)
  qed
  have folder: "node_at fs2 scratch name = Some (Folder (fe_folder ev) True)"
    using two(4) [of scratch name] apart one candidate_name_differs [OF place(9)] place(1) by auto
  obtain es where es: "fs2 dir = Some es" "list_all (scratch_entry_ok fs2 dir owner) es" using two(3) by blast
  obtain fs3 where rm: "remove_compaction_scratch (fe_io ev) scratch owner (Some (fe_folder ev)) False (\<not> sw \<and> kept) fs2 = (Inr (), fs3)"
      "\<And>d n. node_at fs3 d n =
       (if d = dir then (if (\<not> sw \<and> kept) \<and> n = ''owner.json'' then node_at fs2 d n else None)
        else if d = scratch \<and> n = name \<and> \<not> (\<not> sw \<and> kept) then None else node_at fs2 d n)"
    by (rule remove_scratch_clears [OF es place(2,1,3) folder clean(1), where retain = "\<not> sw \<and> kept"]) (rule that)
  have result: "y = None" "switched = sw" "fs' = fs3"
    using run started scr rm(1) place(1,2) by (simp_all add: compact_files_def Let_def fs1_def)
  have three: "node_at fs3 d n = (if d = dir then (if files_end ev = Uncertain \<and> n = ''owner.json'' then node_at fs2 d n else None)
      else if d = scratch \<and> n = name \<and> files_end ev \<noteq> Uncertain then None else node_at fs2 d n)"
    using rm(2) [of d n] two(2) by simp
  have differ: "?cand \<noteq> name" using candidate_name_differs [OF place(9)] place(1) by simp
  have "node_at fs3 d n =
        (if d = ?home \<and> n = ?cand
         then (if files_end ev = GivenUp then None else Some (File (fe_candidate_file ev)))
         else if files_end ev = Uncertain \<and> d = scratch \<and> n = name then Some (Folder (fe_folder ev) True)
         else if files_end ev = Uncertain \<and> d = dir \<and> n = ''owner.json'' then Some (File (fe_marker_file ev))
         else node_at fs d n)"
  proof (cases "d = dir")
    case True
    moreover have "node_at fs dir n = None" using place(6) by (simp add: node_at_def)
    ultimately show ?thesis using three two(5) place(3) apart by (cases "files_end ev = Uncertain \<and> n = ''owner.json''") auto
  next
    case False
    show ?thesis
    proof (cases "d = scratch \<and> n = name")
      case True
      then show ?thesis using False three folder differ place(7) by (cases "files_end ev = Uncertain") auto
    next
      case other: False
      have "\<not> (d = scratch \<and> n = name \<and> files_end ev \<noteq> Uncertain)" using other by blast
      then have "node_at fs3 d n = node_at fs2 d n" using three False by (simp only: if_False)
      moreover have "node_at fs1 d n = node_at fs d n" using one [of d n] other by (simp only: if_False)
      moreover have "\<not> (files_end ev = Uncertain \<and> d = scratch \<and> n = name)"
          "\<not> (files_end ev = Uncertain \<and> d = dir \<and> n = ''owner.json'')"
        using other False by blast+
      ultimately show ?thesis using two(4) [OF False, of n] by (simp only: if_False)
    qed
  qed
  then show ?thesis using result two(1) by simp
qed

end
