(* ===== verification/PartCodec.thy ===== *)
theory PartCodec
  imports Capture ArchiveSample
begin

text \<open>
  One part of a backup set: \<open>EncodePart\<close> and \<open>DecodePart\<close> (\<open>billingarchive/archive.go\<close>) and \<open>sealPart\<close>
  (\<open>billing_backup.go\<close>). The encryption (age) and the compression (zstd) are functions on byte strings; modelled are
  the bounds, the counts, the digests and the checks around them.
\<close>

section \<open>Encoding\<close>

text \<open>A reader: the bytes it delivers, then the error of a failing read or the end.\<close>

type_synonym reader = "bytes \<times> go_error option"

text \<open>\<open>io.LimitReader(r, n)\<close>: after \<open>n\<close> bytes it ends, without another read.\<close>

definition limit_reader :: "int \<Rightarrow> reader \<Rightarrow> reader" where
  "limit_reader n r = (if int (length (fst r)) < n then r else (take (nat n) (fst r), None))"

fun parse_all :: "(bytes \<Rightarrow> 'r option) \<Rightarrow> bytes list \<Rightarrow> 'r list option" where
  "parse_all parse [] = Some []"
| "parse_all parse (v # vs) =
     (case parse v of None \<Rightarrow> None | Some r \<Rightarrow> map_option ((#) r) (parse_all parse vs))"

text \<open>
  \<open>encrypt rs x\<close> is the whole encrypted stream over the compressed bytes \<open>x\<close>, or the error of setting it up.
  The result is the count and digest of the plain bytes, with what the writer received; after a failure
  the writer has an unfinished stream that no caller uses.
\<close>

definition encode_part ::
    "crypto \<Rightarrow> (bytes \<Rightarrow> 'r option) \<Rightarrow> ('r list \<Rightarrow> bytes \<Rightarrow> go_error + bytes) \<Rightarrow> reader \<Rightarrow> bytes list \<Rightarrow> int \<Rightarrow>
     go_error + (int \<times> bytes \<times> bytes)" where
  "encode_part cr parse encrypt r recipients plain_limit =
     (if plain_limit < 1 \<or> plain_limit > default_part_bytes then Inl (ErrMsg ''invalid plaintext bound'')
      else case parse_all parse recipients of
        None \<Rightarrow> Inl (ErrMsg ''invalid recipient'')
      | Some rs \<Rightarrow>
          if rs = [] then Inl (ErrMsg ''public recipient required'')
          else
            case limit_reader (plain_limit + 1) r of (x, failure) \<Rightarrow>
              andThen (encrypt rs x) (\<lambda>c.
                case failure of
                  Some e \<Rightarrow> Inl e
                | None \<Rightarrow>
                    if int (length c) > max_cipher_part_bytes then Inl (ErrMsg ''artifact exceeds bound'')
                    else if int (length x) > plain_limit then Inl (ErrMsg ''plaintext exceeds bound'')
                    else Inr (int (length x), sha cr (Raw x), c)))"

definition seal_part ::
    "crypto \<Rightarrow> (bytes \<Rightarrow> 'r option) \<Rightarrow> ('r list \<Rightarrow> bytes \<Rightarrow> go_error + bytes) \<Rightarrow> go_error + unit \<Rightarrow> go_error + unit \<Rightarrow>
     bytes \<Rightarrow> int \<Rightarrow> int \<Rightarrow> reader \<Rightarrow> int \<Rightarrow> bytes list \<Rightarrow> go_error + (part \<times> bytes)" where
  "seal_part cr parse encrypt created ended kind ordinal off r sz recipients =
     andThen created (\<lambda>_.
       andThen (encode_part cr parse encrypt r recipients sz) (\<lambda>(n, digest, c).
         andThen ended (\<lambda>_.
           Inr (make_part kind ordinal off n
                  \<lparr>sp_plain_sha = digest, sp_cipher = int (length c), sp_cipher_sha = sha cr (Raw c)\<rparr>, c))))"

section \<open>Decoding\<close>

text \<open>
  What decrypting and decompressing a stream gives: the plain bytes with the error of a failing read, the outcome of
  reading the decrypted stream to its end (how many bytes were left), and how many bytes of the stream were consumed.
\<close>

record opened_part =
  op_plain :: reader
  op_rest :: "go_error + nat"
  op_read :: nat

definition decode_part ::
    "crypto \<Rightarrow> (bytes \<Rightarrow> go_error + opened_part) \<Rightarrow> reader \<Rightarrow> part \<Rightarrow> (go_error + unit) \<times> bytes" where
  "decode_part cr decrypt r p =
     (if pt_cipher p < 1 \<or> pt_cipher p > max_cipher_part_bytes \<or> pt_plain p < 1 \<or> pt_plain p > default_part_bytes
      then (Inl (ErrMsg ''invalid part bounds''), [])
      else
        case limit_reader (pt_cipher p + 1) r of (c, failure) \<Rightarrow>
          (case decrypt c of
             Inl x \<Rightarrow> (Inl x, [])
           | Inr a \<Rightarrow>
               (case limit_reader (pt_plain p + 1) (op_plain a) of
                  (out, Some x) \<Rightarrow> (Inl (ErrMsg ''plaintext authentication failure''), out)
                | (out, None) \<Rightarrow>
                    (andThen (guard (int (length out) = pt_plain p) (ErrMsg ''plaintext length mismatch'')) (\<lambda>_.
                     andThen (guard (op_rest a = Inr 0) (ErrMsg ''trailing encrypted data or authentication failure'')) (\<lambda>_.
                     andThen (guard (op_read a \<ge> length c \<and> failure = None) (ErrMsg ''trailing ciphertext'')) (\<lambda>_.
                     guard (int (length c) = pt_cipher p \<and> sha cr (Raw c) = pt_cipher_sha p \<and> sha cr (Raw out) = pt_plain_sha p)
                       (ErrMsg ''part hash mismatch'')))), out))))"

section \<open>Round trip\<close>

text \<open>What decryption and decompression promise for their own streams.\<close>

definition opens_own :: "('r list \<Rightarrow> bytes \<Rightarrow> go_error + bytes) \<Rightarrow> (bytes \<Rightarrow> go_error + opened_part) \<Rightarrow> bool" where
  "opens_own encrypt decrypt =
     (\<forall>rs x c. encrypt rs x = Inr c \<longrightarrow>
        c \<noteq> [] \<and> decrypt c = Inr \<lparr>op_plain = (x, None), op_rest = Inr 0, op_read = length c\<rparr>)"

lemma limit_reader_whole: "int (length x) < n \<Longrightarrow> limit_reader n (x, None) = (x, None)"
  by (simp add: limit_reader_def)

lemma limit_reader_short:
  assumes "limit_reader n (x, f) = (y, None)" "int (length y) < n"
  shows "y = x" "f = None"
  using assms by (auto simp: limit_reader_def split: if_splits)

lemma encode_part_Inr:
  assumes "encode_part cr parse encrypt (x, f) recipients sz = Inr (n, digest, c)"
  shows "f = None" "n = int (length x)" "digest = sha cr (Raw x)" "int (length c) \<le> max_cipher_part_bytes"
    "n \<le> default_part_bytes" "\<exists>rs. rs \<noteq> [] \<and> encrypt rs x = Inr c"
proof -
  obtain rs y where e: "1 \<le> sz" "sz \<le> default_part_bytes" "rs \<noteq> []" "limit_reader (sz + 1) (x, f) = (y, None)"
      "encrypt rs y = Inr c" "int (length c) \<le> max_cipher_part_bytes" "int (length y) \<le> sz"
      "n = int (length y)" "digest = sha cr (Raw y)"
    using assms by (auto simp: encode_part_def split: if_splits option.splits prod.splits)
  have "y = x" "f = None" using limit_reader_short [OF e(4)] e(7) by simp_all
  with e show "f = None" "n = int (length x)" "digest = sha cr (Raw x)" "int (length c) \<le> max_cipher_part_bytes"
    "n \<le> default_part_bytes" "\<exists>rs. rs \<noteq> [] \<and> encrypt rs x = Inr c" by auto
qed

lemma decode_part_Inr:
  assumes "decode_part cr decrypt (c, f) p = (Inr (), out)"
  shows "f = None" "int (length c) = pt_cipher p" "sha cr (Raw c) = pt_cipher_sha p"
    "int (length out) = pt_plain p" "sha cr (Raw out) = pt_plain_sha p"
proof -
  obtain d failure a where e: "limit_reader (pt_cipher p + 1) (c, f) = (d, failure)" "decrypt d = Inr a"
      "limit_reader (pt_plain p + 1) (op_plain a) = (out, None)" "failure = None" "int (length d) = pt_cipher p"
      "int (length out) = pt_plain p" "sha cr (Raw d) = pt_cipher_sha p" "sha cr (Raw out) = pt_plain_sha p"
    using assms by (auto simp: decode_part_def split: if_splits sum.splits option.splits prod.splits)
  have "d = c" "f = None" using limit_reader_short [of "pt_cipher p + 1" c f d] e(1,4,5) by simp_all
  with e show "f = None" "int (length c) = pt_cipher p" "sha cr (Raw c) = pt_cipher_sha p"
    "int (length out) = pt_plain p" "sha cr (Raw out) = pt_plain_sha p" by simp_all
qed

text \<open>C35: A sealed part decodes to what was sealed, and nothing else passes for it. The stream and the part record
  that \<open>sealPart\<close> makes of some plain bytes decode to these bytes; whatever other stream is accepted under the
  record, with whatever keys, has the length and the digest of the sealed stream and
  gives bytes of the length and the digest of the sealed bytes.\<close>

theorem sealed_part_round_trip:
  assumes sealed: "seal_part cr parse encrypt created ended kind ordinal off (x, f) sz recipients = Inr (p, c)"
    and codec: "opens_own encrypt decrypt" and some: "x \<noteq> []"
  shows "decode_part cr decrypt (c, None) p = (Inr (), x)
     \<and> (\<forall>other r f' out. decode_part cr other (r, f') p = (Inr (), out) \<longrightarrow>
          length r = length c \<and> sha cr (Raw r) = sha cr (Raw c) \<and> length out = length x \<and> sha cr (Raw out) = sha cr (Raw x))"
proof -
  obtain n digest where e: "encode_part cr parse encrypt (x, f) recipients sz = Inr (n, digest, c)"
      "p = make_part kind ordinal off n \<lparr>sp_plain_sha = digest, sp_cipher = int (length c), sp_cipher_sha = sha cr (Raw c)\<rparr>"
    using sealed by (auto simp: seal_part_def)
  note E = encode_part_Inr [OF e(1)]
  have p: "pt_plain p = int (length x)" "pt_plain_sha p = sha cr (Raw x)" "pt_cipher p = int (length c)"
      "pt_cipher_sha p = sha cr (Raw c)"
    by (simp_all add: e(2) make_part_def E(2,3))
  have c: "c \<noteq> []" "decrypt c = Inr \<lparr>op_plain = (x, None), op_rest = Inr 0, op_read = length c\<rparr>"
    using E(6) codec by (auto simp: opens_own_def)
  have "1 \<le> int (length x)" "1 \<le> int (length c)" using some c(1) by (simp_all add: Suc_le_eq)
  then have "decode_part cr decrypt (c, None) p = (Inr (), x)"
    using E(2,4,5) c some by (simp add: decode_part_def p limit_reader_whole)
  then show ?thesis using decode_part_Inr p by (metis of_nat_eq_iff)
qed

text \<open>A toy stream: one byte in front.\<close>

definition toy_encrypt :: "unit list \<Rightarrow> bytes \<Rightarrow> go_error + bytes" where "toy_encrypt rs x = Inr (CHR ''z'' # x)"

definition toy_decrypt :: "bytes \<Rightarrow> go_error + opened_part" where
  "toy_decrypt c = Inr \<lparr>op_plain = (tl c, None), op_rest = Inr 0, op_read = length c\<rparr>"

theorem sealed_part_round_trip_witness:
  "\<exists>p. seal_part toy_crypto (\<lambda>_. Some ()) toy_encrypt (Inr ()) (Inr ()) ''events'' 2 0 (''abc'', None) 3 [''k''] = Inr (p, ''zabc'')
     \<and> decode_part toy_crypto toy_decrypt (''zabc'', None) p = (Inr (), ''abc'')"
proof -
  have "encode_part toy_crypto (\<lambda>_. Some ()) toy_encrypt (''abc'', None) [''k''] 3 = Inr (3, toy_sha, ''zabc'')"
    by (simp add: encode_part_def limit_reader_def toy_encrypt_def default_part_bytes_def max_cipher_part_bytes_def)
  then obtain p where p: "seal_part toy_crypto (\<lambda>_. Some ()) toy_encrypt (Inr ()) (Inr ()) ''events'' 2 0 (''abc'', None) 3 [''k''] = Inr (p, ''zabc'')"
    by (simp add: seal_part_def)
  have "opens_own toy_encrypt toy_decrypt" by (simp add: opens_own_def toy_encrypt_def toy_decrypt_def)
  from sealed_part_round_trip [OF p this] p show ?thesis by blast
qed

end
