(* ===== verification/Middleware.thy ===== *)
theory Middleware
  imports Loki ObjectStore
begin

text \<open>
  \<open>http.go\<close>: the middleware that logs one line per request, with the parts of package \<open>net/url\<close> and
  \<open>net\<close> it uses. The theorems say which secrets of a query the logged path hides, and which it shows.
\<close>

section \<open>URLs\<close>

definition hex_digit :: "char \<Rightarrow> nat option" where
  "hex_digit c =
     (let n = of_char c :: nat
      in if 48 \<le> n \<and> n \<le> 57 then Some (n - 48)
         else if 97 \<le> n \<and> n \<le> 102 then Some (n - 87)
         else if 65 \<le> n \<and> n \<le> 70 then Some (n - 55) else None)"

text \<open>\<open>unescape\<close>, for a path and (\<open>in_query\<close>) for a part of a query.\<close>

fun url_unescape :: "bool \<Rightarrow> bytes \<Rightarrow> bytes option" where
  "url_unescape in_query [] = Some []"
| "url_unescape in_query (c # s) =
     (if c = CHR ''%'' then
        (case s of
           a # b # s' \<Rightarrow>
             (case (hex_digit a, hex_digit b) of
                (Some x, Some y) \<Rightarrow> map_option ((#) (char_of (16 * x + y))) (url_unescape in_query s')
              | _ \<Rightarrow> None)
         | _ \<Rightarrow> None)
      else map_option ((#) (if in_query \<and> c = CHR ''+'' then CHR '' '' else c)) (url_unescape in_query s))"

definition query_escape :: "bytes \<Rightarrow> bytes" where
  "query_escape s = concat (map (\<lambda>c. if c = CHR '' '' then ''+'' else percent unreserved [c]) s)"

text \<open>
  A parsed request URI is what \<open>RequestURI\<close> makes of it again: the escaped path, whether an empty query was
  there, and the raw query.
\<close>

record request_url =
  ru_path :: bytes
  ru_force :: bool
  ru_query :: bytes

definition request_uri :: "request_url \<Rightarrow> bytes" where
  "request_uri u =
     (if ru_path u = [] then ''/'' else ru_path u) @ (if ru_force u \<or> ru_query u \<noteq> [] then ''?'' @ ru_query u else [])"

definition control_byte :: "char \<Rightarrow> bool" where
  "control_byte c = (let n = of_char c :: nat in n < 32 \<or> n = 127)"

text \<open>\<open>EscapedPath\<close>: the text of the path when it only has bytes a path may have.\<close>

definition valid_path_text :: "bytes \<Rightarrow> bool" where
  "valid_path_text p = list_all (\<lambda>c. path_byte c \<or> c \<in> set ''!'' \<or> c \<in> set ''()*[]%'' \<or> of_char c = (39 :: nat)) p"

definition cut_query :: "bytes \<Rightarrow> bytes \<times> bool \<times> bytes" where
  "cut_query raw =
     (if last raw = CHR ''?'' \<and> count_list raw (CHR ''?'') = 1 then (butlast raw, True, [])
      else (case cut_at (CHR ''?'') raw of (p, q) \<Rightarrow> (p, False, case q of None \<Rightarrow> [] | Some q \<Rightarrow> q)))"

text \<open>
  \<open>url.ParseRequestURI\<close>. A request target begins with a slash or is \<open>*\<close>; \<open>absolute\<close> is the parse of a
  text that begins otherwise, with a scheme or not at all.
\<close>

definition parse_request_uri :: "(bytes \<Rightarrow> request_url option) \<Rightarrow> bytes \<Rightarrow> request_url option" where
  "parse_request_uri absolute raw =
     (if list_ex control_byte raw \<or> raw = [] then None
      else if raw = ''*'' then Some \<lparr>ru_path = ''*'', ru_force = False, ru_query = []\<rparr>
      else if hd raw = CHR ''/'' then
        (case cut_query raw of (p, force, q) \<Rightarrow>
           (case url_unescape False p of
              None \<Rightarrow> None
            | Some path \<Rightarrow>
                Some \<lparr>ru_path = (if valid_path_text p then p else percent path_byte path), ru_force = force, ru_query = q\<rparr>))
      else absolute raw)"

text \<open>\<open>url.ParseQuery\<close>: a pair with a semicolon or a bad escape is left out. \<open>Values\<close> is kept in the order of its keys.\<close>

definition parse_pair :: "bytes \<Rightarrow> (bytes \<times> bytes) option" where
  "parse_pair s =
     (if CHR '';'' \<in> set s \<or> s = [] then None
      else (case cut_at (CHR ''='') s of (k, v) \<Rightarrow>
             (case (url_unescape True k, url_unescape True (case v of None \<Rightarrow> [] | Some v \<Rightarrow> v)) of
                (Some k, Some v) \<Rightarrow> Some (k, v)
              | _ \<Rightarrow> None)))"

definition query_pairs :: "bytes \<Rightarrow> (bytes \<times> bytes) list" where
  "query_pairs raw = List.map_filter parse_pair (split_on (CHR ''&'') raw)"

definition add_value :: "bytes \<times> bytes \<Rightarrow> (bytes \<times> bytes list) list \<Rightarrow> (bytes \<times> bytes list) list" where
  "add_value p m = aput (fst p) ((case aget m (fst p) of None \<Rightarrow> [] | Some vs \<Rightarrow> vs) @ [snd p]) m"

definition query_values :: "bytes \<Rightarrow> (bytes \<times> bytes list) list" where
  "query_values raw = fold add_value (query_pairs raw) []"

definition encode_values :: "(bytes \<times> bytes list) list \<Rightarrow> bytes" where
  "encode_values m =
     join ''&'' (concat (map (\<lambda>(k, vs). map (\<lambda>v. query_escape k @ ''='' @ query_escape v) vs) m))"

function replace_all :: "bytes \<Rightarrow> bytes \<Rightarrow> bytes \<Rightarrow> bytes" where
  "replace_all old new [] = []"
| "replace_all old new (c # s) =
     (if starts_with (c # s) old then new @ replace_all old new (drop (length old - 1) s)
      else c # replace_all old new s)"
  by pat_completeness auto
termination by (relation "measure (\<lambda>(_, _, s). length s)") auto

section \<open>The logged path\<close>

definition redacted_marker :: bytes where "redacted_marker = ''[REDACTED]''"

definition sensitive_query_params :: "bytes list" where
  "sensitive_query_params =
     [''token'', ''access_token'', ''refresh_token'', ''api_key'', ''apikey'', ''password'', ''client_secret'']"

definition sensitive_param :: "bytes \<Rightarrow> bool" where
  "sensitive_param k = (to_lower k \<in> set sensitive_query_params)"

definition redact_values :: "(bytes \<times> bytes list) list \<Rightarrow> (bytes \<times> bytes list) list" where
  "redact_values m =
     map (\<lambda>(k, vs). (k, if sensitive_param k then map (\<lambda>_. redacted_marker) vs else vs)) m"

definition sanitize_path :: "(bytes \<Rightarrow> request_url option) \<Rightarrow> bytes \<Rightarrow> bytes" where
  "sanitize_path absolute path =
     (case parse_request_uri absolute path of
        None \<Rightarrow> path
      | Some u \<Rightarrow>
          let query = query_values (ru_query u)
          in if query = [] then request_uri u
             else replace_all (query_escape redacted_marker) redacted_marker
                    (request_uri (u\<lparr>ru_query := encode_values (redact_values query)\<rparr>)))"

section \<open>The logged request\<close>

text \<open>The handler's calls of \<open>WriteHeader\<close>, in order; the recorder keeps the last, from 200.\<close>

definition recorded_status :: "int list \<Rightarrow> int" where
  "recorded_status statuses = fold (\<lambda>s _. s) statuses 200"

text \<open>\<open>net.SplitHostPort\<close>, for the host.\<close>

definition cut_last :: "char \<Rightarrow> bytes \<Rightarrow> (bytes \<times> bytes) option" where
  "cut_last a s = (case cut_at a (rev s) of (p, None) \<Rightarrow> None | (p, Some h) \<Rightarrow> Some (rev h, rev p))"

definition split_host :: "bytes \<Rightarrow> bytes option" where
  "split_host s =
     (case cut_last (CHR '':'') s of
        None \<Rightarrow> None
      | Some (host, port) \<Rightarrow>
          if hd s = CHR ''['' then
            (case cut_at (CHR '']'') (tl s) of
               (inner, None) \<Rightarrow> None
             | (inner, Some behind) \<Rightarrow>
                 if behind \<noteq> '':'' @ port then None
                 else if CHR ''['' \<in> set inner \<or> CHR ''['' \<in> set port \<or> CHR '']'' \<in> set port then None
                 else Some inner)
          else if CHR '':'' \<in> set host \<or> CHR ''['' \<in> set s \<or> CHR '']'' \<in> set s then None
          else Some host)"

definition remote_addr :: "bytes \<Rightarrow> bytes" where
  "remote_addr addr = (case split_host addr of None \<Rightarrow> addr | Some host \<Rightarrow> host)"

datatype log_field = TextField bytes bytes | IntField bytes int | ThousandthsField bytes int

text \<open>The fields of the line; the duration is measured in whole microseconds and logged as milliseconds with three decimals.\<close>

definition request_fields ::
    "(bytes \<Rightarrow> request_url option) \<Rightarrow> bytes \<Rightarrow> request_url \<Rightarrow> int list \<Rightarrow> int \<Rightarrow> bytes \<Rightarrow> bytes \<Rightarrow> log_field list" where
  "request_fields absolute verb u statuses micros addr request_id =
     [TextField ''method'' verb, TextField ''path'' (sanitize_path absolute (request_uri u)),
      IntField ''status'' (recorded_status statuses), ThousandthsField ''duration_ms'' micros,
      TextField ''remote_addr'' (remote_addr addr)]
     @ (let i = trim_space request_id in if i \<noteq> [] then [TextField ''request_id'' i] else [])"

section \<open>What the logged path hides\<close>

definition same_but_secret :: "bytes \<times> bytes \<Rightarrow> bytes \<times> bytes \<Rightarrow> bool" where
  "same_but_secret p q = (fst p = fst q \<and> (sensitive_param (fst p) \<or> snd p = snd q))"

definition same_values :: "(bytes \<times> bytes list) list \<Rightarrow> (bytes \<times> bytes list) list \<Rightarrow> bool" where
  "same_values = list_all2 (\<lambda>a b. fst a = fst b \<and> list_all2 (\<lambda>v w. sensitive_param (fst a) \<or> v = w) (snd a) (snd b))"

lemma same_values_aget:
  assumes "same_values m m'"
  shows "rel_option (list_all2 (\<lambda>v w. sensitive_param k \<or> v = w)) (aget m k) (aget m' k)"
  using assms unfolding same_values_def by (induction rule: list_all2_induct) auto

lemma same_values_aput:
  assumes "same_values m m'" "list_all2 (\<lambda>v w. sensitive_param k \<or> v = w) vs ws"
  shows "same_values (aput k vs m) (aput k ws m')"
  using assms(1) unfolding same_values_def
  by (induction rule: list_all2_induct) (use assms(2) in auto)

lemma same_values_add:
  assumes "same_values m m'" "same_but_secret p q"
  shows "same_values (add_value p m) (add_value q m')"
proof -
  have "list_all2 (\<lambda>v w. sensitive_param (fst q) \<or> v = w)
      ((case aget m (fst q) of None \<Rightarrow> [] | Some vs \<Rightarrow> vs) @ [snd p])
      ((case aget m' (fst q) of None \<Rightarrow> [] | Some vs \<Rightarrow> vs) @ [snd q])"
    using same_values_aget [OF assms(1), of "fst q"] assms(2)
    by (auto simp: same_but_secret_def elim!: option.rel_cases intro!: list_all2_appendI)
  with assms show ?thesis by (simp add: add_value_def same_values_aput same_but_secret_def)
qed

lemma same_values_fold:
  "list_all2 same_but_secret ps qs \<Longrightarrow> same_values m m' \<Longrightarrow> same_values (fold add_value ps m) (fold add_value qs m')"
  by (induction arbitrary: m m' rule: list_all2_induct) (auto intro: same_values_add)

lemma redacted_list:
  "list_all2 (\<lambda>v w. secret \<or> v = w) vs ws \<Longrightarrow>
     (if secret then map (\<lambda>_. r) vs else vs) = (if secret then map (\<lambda>_. r) ws else ws)"
  by (induction rule: list_all2_induct) auto

lemma same_values_redacted: "same_values m m' \<Longrightarrow> redact_values m = redact_values m'"
  unfolding same_values_def
proof (induction rule: list_all2_induct)
  case (Cons a m b m')
  obtain k vs ws where ab: "a = (k, vs)" "b = (k, ws)" using Cons(1) by (cases a; cases b) auto
  with Cons(1) redacted_list [of "sensitive_param k" vs ws redacted_marker] Cons(3) show ?case
    by (simp add: redact_values_def)
qed (simp add: redact_values_def)

lemma fold_add_value_Nil: "(fold add_value ps m = []) = (ps = [] \<and> m = [])"
proof (induction ps arbitrary: m)
  case (Cons p ps)
  have "aput k v m \<noteq> []" for k v and m :: "(bytes \<times> bytes list) list" by (cases m) (auto split: if_splits)
  then have "add_value p m \<noteq> []" by (simp add: add_value_def)
  then show ?case by (simp add: Cons)
qed simp

text \<open>C36: The logged path hides the values of the sensitive parameters. Two requests with the same path
  whose queries have the same parameters in the same order, and differ only in values of sensitive
  parameters (under any case and escaping of their names), are logged with the same path, as long as some
  parameter is well formed; a query without a well-formed parameter is logged as it came.\<close>

theorem sanitized_path_hides_secrets:
  assumes parsed: "parse_request_uri absolute p = Some u" "parse_request_uri absolute p' = Some u'"
    and same: "ru_path u = ru_path u'" "ru_force u = ru_force u'"
      "list_all2 same_but_secret (query_pairs (ru_query u)) (query_pairs (ru_query u'))"
  shows "if query_pairs (ru_query u) = [] then sanitize_path absolute p = request_uri u
         else sanitize_path absolute p = sanitize_path absolute p'"
proof (cases "query_pairs (ru_query u) = []")
  case True
  then show ?thesis using parsed(1) by (simp add: sanitize_path_def query_values_def)
next
  case pairs: False
  have "query_pairs (ru_query u') \<noteq> []" using same(3) pairs by auto
  moreover have "redact_values (query_values (ru_query u)) = redact_values (query_values (ru_query u'))"
    unfolding query_values_def
    by (rule same_values_redacted, rule same_values_fold [OF same(3)]) (simp add: same_values_def)
  ultimately show ?thesis
    using parsed same(1,2) pairs
    by (simp add: sanitize_path_def query_values_def fold_add_value_Nil request_uri_def Let_def)
qed

text \<open>Two requests that differ in a token, whose name is written with an escape and a capital letter.\<close>

theorem sanitized_path_hides_secrets_witness:
  "sanitize_path (\<lambda>_. None) ''/v?a=1&%54oken=x'' = sanitize_path (\<lambda>_. None) ''/v?a=1&%54oken=yz''"
proof -
  have split: "split_on (CHR ''&'') ''a=1&%54oken=x'' = [''a=1'', ''%54oken=x'']"
      "split_on (CHR ''&'') ''a=1&%54oken=yz'' = [''a=1'', ''%54oken=yz'']" by simp_all
  have "(of_char (CHR ''5'') :: nat) = 53" "(of_char (CHR ''4'') :: nat) = 52" "char_of (84 :: nat) = CHR ''T''"
    by simp_all code_simp
  then have pairs: "query_pairs ''a=1&%54oken=x'' = [(''a'', ''1''), (''Token'', ''x'')]"
      "query_pairs ''a=1&%54oken=yz'' = [(''a'', ''1''), (''Token'', ''yz'')]"
    by (simp_all only: query_pairs_def split) (simp_all add: List.map_filter_simps parse_pair_def hex_digit_def)
  have parsed: "parse_request_uri (\<lambda>_. None) (''/v?'' @ q) = Some \<lparr>ru_path = ''/v'', ru_force = False, ru_query = q\<rparr>"
    if "q \<in> {''a=1&%54oken=x'', ''a=1&%54oken=yz''}" for q
    using that by (auto simp: parse_request_uri_def cut_query_def control_byte_def valid_path_text_def path_byte_def unreserved_def)
  have "to_lower ''Token'' = ''token''" by code_simp
  then have "sensitive_param ''Token''" by (simp add: sensitive_param_def sensitive_query_params_def)
  then show ?thesis
    using sanitized_path_hides_secrets [OF parsed [of "''a=1&%54oken=x''"] parsed [of "''a=1&%54oken=yz''"]] pairs
    by (simp add: same_but_secret_def)
qed

section \<open>What it shows\<close>

lemma split_on_absent: "a \<notin> set s \<Longrightarrow> split_on a s = [s]"
  by (induction s) auto

text \<open>A query without a well-formed parameter is logged as it came, with its secrets. A token followed
  by a semicolon is such a query: \<open>ParseQuery\<close> leaves the pair out, the parsed query is empty, and
  \<open>SanitizePath\<close> returns the request as it is.\<close>

theorem malformed_query_is_logged:
  assumes "CHR ''&'' \<notin> set secret" "\<not> list_ex control_byte secret"
  shows "sanitize_path absolute (''/v?token='' @ secret @ '';'') = ''/v?token='' @ secret @ '';''"
proof -
  let ?q = "''token='' @ secret @ '';''"
  have "CHR ''&'' \<notin> set ?q" using assms(1) by simp
  then have "query_pairs ?q = []"
    by (simp add: query_pairs_def split_on_absent parse_pair_def List.map_filter_simps)
  moreover have "parse_request_uri absolute (''/v?'' @ ?q) = Some \<lparr>ru_path = ''/v'', ru_force = False, ru_query = ?q\<rparr>"
    using assms(2)
    by (simp add: parse_request_uri_def cut_query_def control_byte_def valid_path_text_def path_byte_def unreserved_def)
  ultimately show ?thesis
    by (simp add: sanitize_path_def query_values_def request_uri_def)
qed

theorem malformed_query_is_logged_witness:
  "sanitize_path (\<lambda>_. None) ''/v?token=abc;'' = ''/v?token=abc;''"
  using malformed_query_is_logged [of "''abc''" "\<lambda>_. None"] by (simp add: control_byte_def)

text \<open>
  The status a client sees: the first that is not informational, or 200. The recorded status is this one when
  the handler sends one final status after the informational ones, and not when it leaves it to the server.
\<close>

fun client_status :: "int list \<Rightarrow> int" where
  "client_status [] = 200"
| "client_status (s # ss) = (if 100 \<le> s \<and> s \<le> 199 \<and> s \<noteq> 101 then client_status ss else s)"

lemma recorded_status_sent:
  assumes "\<forall>s \<in> set early. 100 \<le> s \<and> s \<le> 199 \<and> s \<noteq> 101" "s \<ge> 200"
  shows "recorded_status (early @ [s]) = client_status (early @ [s])"
proof -
  have "client_status (early @ [s]) = s" using assms by (induction early) auto
  then show ?thesis by (simp add: recorded_status_def)
qed

lemma early_hints_recorded: "recorded_status [103] = 103" "client_status [103] = 200"
  by (simp_all add: recorded_status_def)

end
