(* ===== verification/Commands.thy ===== *)
theory Commands
  imports LifecycleHttp ObjectStore Readers Loki
begin

text \<open>
  The settings of the processes: \<open>logger.go\<close>, and what \<open>cmd/rtk-cloud-logger\<close> and \<open>cmd/rtk-cloud-log-forwarder\<close>
  check and build before they serve. Reading flags and environment variables, listening and shutting down are
  left out.
\<close>

section \<open>The logger's configuration\<close>

datatype log_level = DebugLevel | InfoLevel | WarnLevel | ErrorLevel | DPanicLevel | PanicLevel | FatalLevel

definition parse_level :: "bytes \<Rightarrow> log_level" where
  "parse_level level =
     (let l = to_lower (trim_space level)
      in if l = ''debug'' then DebugLevel
         else if l = ''warn'' \<or> l = ''warning'' then WarnLevel
         else if l = ''error'' then ErrorLevel
         else if l = ''dpanic'' then DPanicLevel
         else if l = ''panic'' then PanicLevel
         else if l = ''fatal'' then FatalLevel
         else InfoLevel)"

record zap_settings =
  zs_service :: bytes
  zs_env :: bytes
  zs_version :: bytes
  zs_unit :: bytes
  zs_level :: bytes
  zs_development :: bool

definition initial_fields :: "zap_settings \<Rightarrow> (bytes \<times> bytes) list" where
  "initial_fields cfg =
     filter (\<lambda>(k, v). v \<noteq> [])
       (map (\<lambda>(k, v). (k, trim_space v))
         [(''service'', zs_service cfg), (''env'', zs_env cfg), (''version'', zs_version cfg), (''unit'', zs_unit cfg)])"

record zap_config =
  zc_development :: bool
  zc_encoding :: bytes
  zc_level :: log_level
  zc_output :: "bytes list"
  zc_error_output :: "bytes list"
  zc_fields :: "(bytes \<times> bytes) list"

definition new_zap_config :: "zap_settings \<Rightarrow> zap_config" where
  "new_zap_config cfg =
     \<lparr>zc_development = zs_development cfg, zc_encoding = ''json'', zc_level = parse_level (zs_level cfg),
      zc_output = [''stdout''], zc_error_output = [''stderr''], zc_fields = initial_fields cfg\<rparr>"

section \<open>The logger process\<close>

record logger_settings =
  ls_addr :: bytes
  ls_token :: bytes
  ls_billing_token :: bytes
  ls_initialize :: bool
  ls_lifecycle_config :: bytes
  ls_lifecycle_token :: bytes
  ls_read_token :: bytes
  ls_lifecycle_addr :: bytes
  ls_recovery :: bool
  ls_loki_url :: bytes
  ls_authority_token :: bytes
  ls_access :: bytes
  ls_secret :: bytes
  ls_interval :: bytes

text \<open>
  The outside of the start: the file system of the inbox, the call that sets the fence, the configuration file (what
  \<open>Lstat\<close>, reading and strict decoding give), the parses of URLs and durations, and what the
  lifecycle configuration asks for.
\<close>

record start_env =
  st_open :: open_env
  st_io :: bolt_io
  st_call :: call
  st_file :: "go_error + (lifecycle_config \<times> s3_config)"
  st_url :: "bytes \<Rightarrow> parsed_url option"
  st_duration :: "bytes \<Rightarrow> int option"
  st_config :: config_env

record started =
  sd_loki :: bytes
  sd_inbox :: "inbox option"
  sd_config :: ingest_config
  sd_writer :: "s3_store option"
  sd_lifecycle_addr :: "bytes option"
  sd_worker :: bool

definition fatal :: "bytes \<Rightarrow> go_error + 'a" where "fatal m = Inl (ErrMsg m)"

definition start_inbox ::
    "start_env \<Rightarrow> logger_settings \<Rightarrow> db option \<Rightarrow> (go_error + inbox option) \<times> db option" where
  "start_inbox ev ls stored =
     (if ls_billing_token ls = [] then (Inr None, stored)
      else if ls_billing_token ls = ls_token ls then (fatal ''billing and operational credentials must differ'', stored)
      else (case open_billing_inbox (st_open ev) (st_io ev) (ls_initialize ls) stored of
              (Inl _, stored) \<Rightarrow> (fatal ''billing inbox unavailable; inspect retained storage and initialization policy'', stored)
            | (Inr ib, stored) \<Rightarrow>
                if \<not> ls_recovery ls then (Inr (Some ib), stored)
                else (case set_recovery_mode (st_call ev) ib of
                        (Inl _, ib) \<Rightarrow> (fatal ''cannot persist restored-inbox admission fence'', Some (ib_db ib))
                      | (Inr _, ib) \<Rightarrow> (Inr (Some ib), Some (ib_db ib)))))"

text \<open>The part under \<open>if *lifecycleConfig != ""\<close>: the writer of the object store, the configuration of the inbox, and
  the checks around them.\<close>

definition backup_writer :: "start_env \<Rightarrow> logger_settings \<Rightarrow> lifecycle_config \<Rightarrow> s3_config \<Rightarrow> go_error + s3_store option" where
  "backup_writer ev ls lifecycle object_store =
     (if lc_backup lifecycle
      then andThen (new_s3_store (st_url ev) object_store (ls_access ls) (ls_secret ls)) (\<lambda>w. Inr (Some w))
      else Inr None)"

definition interval_text :: "logger_settings \<Rightarrow> bytes" where
  "interval_text ls = (if ls_interval ls = [] then ''12h'' else ls_interval ls)"

definition configure_inbox :: "start_env \<Rightarrow> logger_settings \<Rightarrow> lifecycle_config \<Rightarrow> inbox \<Rightarrow> go_error + inbox" where
  "configure_inbox ev ls lifecycle ib =
     (case st_duration ev (interval_text ls) of
        None \<Rightarrow> fatal ''invalid billing backup interval''
      | Some interval \<Rightarrow>
          (case configure_lifecycle (st_config ev) (lifecycle\<lparr>lc_interval := interval\<rparr>) ib of
             (Inl x, _) \<Rightarrow> Inl x
           | (Inr _, ib) \<Rightarrow>
               if ls_read_token ls \<in> {[], ls_lifecycle_token ls, ls_billing_token ls, ls_token ls, lc_authority_token lifecycle}
               then fatal ''isolated terminal status read credential required''
               else Inr ib))"

definition start_lifecycle ::
    "start_env \<Rightarrow> logger_settings \<Rightarrow> inbox option \<Rightarrow> go_error + (inbox \<times> s3_store option)" where
  "start_lifecycle ev ls inbox =
     (case inbox of
        None \<Rightarrow> fatal ''lifecycle needs retained inbox and distinct control credential''
      | Some ib \<Rightarrow>
          if ls_lifecycle_token ls \<in> {[], ls_billing_token ls, ls_token ls}
          then fatal ''lifecycle needs retained inbox and distinct control credential''
          else
            andThen (st_file ev) (\<lambda>(lifecycle, object_store).
              let lifecycle = lifecycle\<lparr>lc_authority_token := ls_authority_token ls\<rparr>
              in if ls_authority_token ls \<in> {ls_lifecycle_token ls, ls_billing_token ls, ls_token ls}
                 then fatal ''authority read credential must be isolated''
                 else if s3_env object_store \<noteq> lc_env lifecycle then fatal ''backup environment mismatch''
                 else
                   andThen (backup_writer ev ls lifecycle object_store) (\<lambda>writer.
                     andThen (configure_inbox ev ls lifecycle ib) (\<lambda>ib. Inr (ib, writer)))))"

definition ingest_settings :: "logger_settings \<Rightarrow> ingest_config" where
  "ingest_settings ls =
     \<lparr>ic_token = ls_token ls, ic_billing_token = ls_billing_token ls, ic_lifecycle_token = ls_lifecycle_token ls,
      ic_lifecycle_read_token = ls_read_token ls, ic_max_body = 0, ic_max_events = 0\<rparr>"

definition start_logger ::
    "start_env \<Rightarrow> logger_settings \<Rightarrow> db option \<Rightarrow> (go_error + started) \<times> db option" where
  "start_logger ev ls stored =
     (case loki_base (ls_loki_url ls) of
        Inl x \<Rightarrow> (Inl x, stored)
      | Inr base \<Rightarrow>
          (case start_inbox ev ls stored of
             (Inl x, stored) \<Rightarrow> (Inl x, stored)
           | (Inr inbox, stored) \<Rightarrow>
               (if ls_lifecycle_config ls = []
                then Inr \<lparr>sd_loki = base, sd_inbox = inbox, sd_config = ingest_settings ls, sd_writer = None,
                       sd_lifecycle_addr = None, sd_worker = False\<rparr>
                else
                  andThen (start_lifecycle ev ls inbox) (\<lambda>(ib, writer).
                    let addr = (if ls_lifecycle_addr ls = [] then '':8081'' else ls_lifecycle_addr ls)
                    in if addr = ls_addr ls then fatal ''lifecycle listener must be separate from public ingest''
                       else Inr \<lparr>sd_loki = base, sd_inbox = Some ib, sd_config = ingest_settings ls, sd_writer = writer,
                              sd_lifecycle_addr = Some addr, sd_worker = lc_backup (ib_cfg ib)\<rparr>), stored)))"

section \<open>The forwarder process\<close>

definition split_csv :: "bytes \<Rightarrow> bytes list" where
  "split_csv value = filter (\<lambda>s. s \<noteq> []) (map trim_space (split_on (CHR '','') value))"

record forwarder_settings =
  fs_endpoint :: bytes
  fs_units :: bytes
  fs_container :: bytes
  fs_initial_since :: bytes
  fs_service :: bytes
  fs_env :: bytes
  fs_version :: bytes
  fs_hostname :: bytes

datatype event_source = FromJournal journal_source | FromDocker docker_source

definition forwarder_source :: "forwarder_settings \<Rightarrow> go_error + event_source" where
  "forwarder_source s =
     (if fs_endpoint s = [] then fatal ''-endpoint or RTK_CLOUD_LOGGER_INGEST_URL is required''
      else if fs_container s \<noteq> [] then
        Inr (FromDocker \<lparr>ds_container = fs_container s, ds_since = fs_initial_since s,
               ds_config = \<lparr>dc_container = fs_container s, dc_service = first_non_empty [fs_service s, ''emqx-broker''],
                 dc_env = fs_env s, dc_version = first_non_empty [fs_version s, ''emqx''],
                 dc_host = first_non_empty [fs_hostname s, ''mqtt-host''], dc_unit = ''emqx.service'', dc_source = ''emqx'',
                 dc_component = ''mqtt-broker'', dc_operation = ''mqtt-broker-trace''\<rparr>\<rparr>)
      else
        Inr (FromJournal \<lparr>js_units = split_csv (fs_units s), js_since = fs_initial_since s,
               js_config = \<lparr>jc_service = fs_service s, jc_env = fs_env s, jc_version = fs_version s\<rparr>\<rparr>))"

section \<open>What a started logger guarantees\<close>

text \<open>
  A logger that serves the lifecycle has four distinct credentials that its handlers accept, a fifth
  for the authority that none of them is, and a listener of its own.
\<close>

lemma configure_inbox_Inr:
  assumes "configure_inbox ev ls lifecycle ib = Inr ib'"
  shows "ls_read_token ls \<notin> {[], ls_lifecycle_token ls, ls_billing_token ls, ls_token ls, lc_authority_token lifecycle}"
    "ib_recovering ib' = ib_recovering ib"
  using assms
  by (auto simp: configure_inbox_def configure_lifecycle_def fatal_def split: option.splits sum.splits if_split_asm)

lemma start_lifecycle_Inr:
  assumes "start_lifecycle ev ls inbox = Inr (ib', writer)"
  shows "\<exists>ib. inbox = Some ib \<and> ib_recovering ib' = ib_recovering ib"
    "ls_lifecycle_token ls \<notin> {[], ls_billing_token ls, ls_token ls}"
    "ls_authority_token ls \<notin> {ls_lifecycle_token ls, ls_billing_token ls, ls_token ls}"
    "ls_read_token ls \<notin> {[], ls_lifecycle_token ls, ls_billing_token ls, ls_token ls, ls_authority_token ls}"
proof -
  obtain ib lifecycle where e: "inbox = Some ib" "configure_inbox ev ls (lifecycle\<lparr>lc_authority_token := ls_authority_token ls\<rparr>) ib = Inr ib'"
      "ls_lifecycle_token ls \<notin> {[], ls_billing_token ls, ls_token ls}"
      "ls_authority_token ls \<notin> {ls_lifecycle_token ls, ls_billing_token ls, ls_token ls}"
    using assms by (auto simp: start_lifecycle_def fatal_def Let_def split: option.splits if_split_asm)
  from e configure_inbox_Inr [OF e(2)]
  show "\<exists>ib. inbox = Some ib \<and> ib_recovering ib' = ib_recovering ib"
    "ls_lifecycle_token ls \<notin> {[], ls_billing_token ls, ls_token ls}"
    "ls_authority_token ls \<notin> {ls_lifecycle_token ls, ls_billing_token ls, ls_token ls}"
    "ls_read_token ls \<notin> {[], ls_lifecycle_token ls, ls_billing_token ls, ls_token ls, ls_authority_token ls}"
    by simp_all
qed

lemma set_recovery_mode_recovering: "set_recovery_mode c ib = (Inr u, ib') \<Longrightarrow> ib_recovering ib'"
  by (auto simp: set_recovery_mode_def split: if_splits sum.splits dest!: update_locked_Inr(4))

lemma start_inbox_Inr:
  assumes "start_inbox ev ls stored = (Inr inbox, d)"
  shows "ls_billing_token ls \<noteq> [] \<Longrightarrow> ls_billing_token ls \<noteq> ls_token ls \<and> inbox \<noteq> None"
    "ls_recovery ls \<Longrightarrow> inbox = Some ib \<Longrightarrow> ib_recovering ib"
  using assms
  by (auto simp: start_inbox_def fatal_def dest: set_recovery_mode_recovering split: if_splits sum.splits prod.splits)

lemma started_logger_is_separated:
  assumes "start_logger ev ls stored = (Inr s, d)"
  shows "sd_lifecycle_addr s \<noteq> None \<Longrightarrow>
      control_authorized (sd_config s) (ls_lifecycle_token ls)
      \<and> (\<forall>r. terminal_route r \<longrightarrow> read_authorized (sd_config s) ''GET'' r (ls_read_token ls))
      \<and> sd_lifecycle_addr s \<noteq> Some (ls_addr ls)"
    "ls_billing_token ls \<noteq> [] \<Longrightarrow> billing_authorized (sd_config s) (ls_billing_token ls)"
    "ls_recovery ls \<Longrightarrow> sd_inbox s = Some ib \<Longrightarrow> ib_recovering ib"
proof -
  obtain base inbox d' where i: "start_inbox ev ls stored = (Inr inbox, d')"
    and s: "ls_lifecycle_config ls = [] \<and> sd_inbox s = inbox \<and> sd_lifecycle_addr s = None
        \<or> (\<exists>ib writer. start_lifecycle ev ls inbox = Inr (ib, writer) \<and> sd_inbox s = Some ib
              \<and> sd_lifecycle_addr s \<notin> {None, Some (ls_addr ls)})"
    and c: "sd_config s = ingest_settings ls"
    using assms by (auto simp: start_logger_def fatal_def Let_def split: sum.splits prod.splits if_splits)
  show "ls_billing_token ls \<noteq> [] \<Longrightarrow> billing_authorized (sd_config s) (ls_billing_token ls)"
    using start_inbox_Inr(1) [OF i] by (simp add: c billing_authorized_def ingest_settings_def)
  show "sd_lifecycle_addr s \<noteq> None \<Longrightarrow>
      control_authorized (sd_config s) (ls_lifecycle_token ls)
      \<and> (\<forall>r. terminal_route r \<longrightarrow> read_authorized (sd_config s) ''GET'' r (ls_read_token ls))
      \<and> sd_lifecycle_addr s \<noteq> Some (ls_addr ls)"
    using s start_lifecycle_Inr
    by (fastforce simp: c control_authorized_def read_authorized_def ingest_settings_def)
  show "ls_recovery ls \<Longrightarrow> sd_inbox s = Some ib \<Longrightarrow> ib_recovering ib"
  proof -
    assume "ls_recovery ls" "sd_inbox s = Some ib"
    then show ?thesis
      using s start_inbox_Inr(2) [OF i] start_lifecycle_Inr(1) by fastforce
  qed
qed

end
